theory Spec2Isabelle
  imports Complex_Main "HOL-Library.Sublist" "HOL-Library.Monad_Syntax"
begin

section \<open>JavaScript numbers and strings\<close>

text \<open>
  A JavaScript \<open>number\<close> is modelled as a finite value, one of the two infinities, or
  \<open>NaN\<close>. The operations \<open>jadd\<close>, \<open>jsub\<close>, \<open>jmul\<close> and \<open>jdiv\<close> compute the exact result in
  the extended reals, with the division by zero, the \<open>NaN\<close> propagation and the comparisons
  of the language. The operations of the language itself are \<open>dadd\<close>, \<open>dsub\<close>, \<open>dmul\<close> and
  \<open>ddiv\<close> below: the exact result rounded to the nearest IEEE-754 double, as the standard
  prescribes. The sign of zero is abstracted. The value \<open>undefined\<close> only ever reaches
  arithmetic, comparisons and truthiness tests in the modelled code, where it behaves as
  \<open>NaN\<close> does, so an out-of-range array read yields \<open>NaN\<close>.
\<close>

datatype jsnum = Num real | PInf | NInf | NaN

fun jneg :: "jsnum \<Rightarrow> jsnum" where
  "jneg (Num a) = Num (- a)"
| "jneg PInf = NInf"
| "jneg NInf = PInf"
| "jneg NaN = NaN"

fun jadd :: "jsnum \<Rightarrow> jsnum \<Rightarrow> jsnum" where
  "jadd (Num a) (Num b) = Num (a + b)"
| "jadd NaN _ = NaN"
| "jadd _ NaN = NaN"
| "jadd PInf NInf = NaN"
| "jadd NInf PInf = NaN"
| "jadd PInf _ = PInf"
| "jadd _ PInf = PInf"
| "jadd NInf _ = NInf"
| "jadd _ NInf = NInf"

definition jsub :: "jsnum \<Rightarrow> jsnum \<Rightarrow> jsnum" where
  "jsub a b = jadd a (jneg b)"

text \<open>The sign of a number: \<open>1\<close>, \<open>-1\<close>, or \<open>0\<close> for zero and \<open>NaN\<close>.\<close>

fun jsign :: "jsnum \<Rightarrow> int" where
  "jsign (Num a) = (if a > 0 then 1 else if a < 0 then -1 else 0)"
| "jsign PInf = 1"
| "jsign NInf = -1"
| "jsign NaN = 0"

definition signed_inf :: "int \<Rightarrow> jsnum" where
  "signed_inf s = (if s > 0 then PInf else if s < 0 then NInf else NaN)"

fun jmul :: "jsnum \<Rightarrow> jsnum \<Rightarrow> jsnum" where
  "jmul (Num a) (Num b) = Num (a * b)"
| "jmul NaN _ = NaN"
| "jmul _ NaN = NaN"
| "jmul a b = signed_inf (jsign a * jsign b)"

fun jdiv :: "jsnum \<Rightarrow> jsnum \<Rightarrow> jsnum" where
  "jdiv (Num a) (Num b) = (if b = 0 then signed_inf (jsign (Num a)) else Num (a / b))"
| "jdiv NaN _ = NaN"
| "jdiv _ NaN = NaN"
| "jdiv (Num a) _ = Num 0"
| "jdiv a (Num b) = signed_inf (jsign a * (if b < 0 then -1 else 1))"
| "jdiv _ _ = NaN"

fun jabs :: "jsnum \<Rightarrow> jsnum" where
  "jabs (Num a) = Num \<bar>a\<bar>"
| "jabs NaN = NaN"
| "jabs _ = PInf"

text \<open>Comparisons: every comparison with \<open>NaN\<close> is false.\<close>

fun jlt :: "jsnum \<Rightarrow> jsnum \<Rightarrow> bool" where
  "jlt (Num a) (Num b) = (a < b)"
| "jlt NaN _ = False"
| "jlt _ NaN = False"
| "jlt _ NInf = False"
| "jlt PInf _ = False"
| "jlt _ _ = True"

definition jgt :: "jsnum \<Rightarrow> jsnum \<Rightarrow> bool" where
  "jgt a b = jlt b a"

definition jeq :: "jsnum \<Rightarrow> jsnum \<Rightarrow> bool" where
  "jeq a b = (a \<noteq> NaN \<and> a = b)"

definition jle :: "jsnum \<Rightarrow> jsnum \<Rightarrow> bool" where
  "jle a b = (jlt a b \<or> jeq a b)"

definition jge :: "jsnum \<Rightarrow> jsnum \<Rightarrow> bool" where
  "jge a b = jle b a"

text \<open>Truthiness of a number, and the operator \<open>a || b\<close> on numbers.\<close>

fun truthy :: "jsnum \<Rightarrow> bool" where
  "truthy (Num a) = (a \<noteq> 0)"
| "truthy NaN = False"
| "truthy _ = True"

definition jor :: "jsnum \<Rightarrow> jsnum \<Rightarrow> jsnum" where
  "jor a b = (if truthy a then a else b)"

text \<open>\<open>Math.max\<close> and \<open>Math.min\<close>: \<open>NaN\<close> if any argument is, the neutral infinity on
  no argument.\<close>

definition jmax2 :: "jsnum \<Rightarrow> jsnum \<Rightarrow> jsnum" where
  "jmax2 a b = (if a = NaN \<or> b = NaN then NaN else if jlt a b then b else a)"

definition jmin2 :: "jsnum \<Rightarrow> jsnum \<Rightarrow> jsnum" where
  "jmin2 a b = (if a = NaN \<or> b = NaN then NaN else if jlt b a then b else a)"

definition Math_max :: "jsnum list \<Rightarrow> jsnum" where
  "Math_max xs = foldl jmax2 NInf xs"

definition Math_min :: "jsnum list \<Rightarrow> jsnum" where
  "Math_min xs = foldl jmin2 PInf xs"

fun Math_sqrt :: "jsnum \<Rightarrow> jsnum" where
  "Math_sqrt (Num a) = (if a < 0 then NaN else Num (sqrt a))"
| "Math_sqrt PInf = PInf"
| "Math_sqrt _ = NaN"

text \<open>\<open>Math.round\<close> rounds to the nearest integer, a half upwards.\<close>

fun Math_round :: "jsnum \<Rightarrow> jsnum" where
  "Math_round (Num a) = Num (of_int \<lfloor>a + 1 / 2\<rfloor>)"
| "Math_round x = x"

text \<open>\<open>parseFloat(x.toFixed(d))\<close>: the nearest multiple of \<open>10\<^sup>-\<^sup>d\<close>, a half away from
  zero; \<open>NaN\<close> and the infinities print and parse as themselves.\<close>

definition round_dec :: "nat \<Rightarrow> real \<Rightarrow> real" where
  "round_dec d a = (if a < 0 then - (of_int \<lfloor>- a * 10 ^ d + 1 / 2\<rfloor> / 10 ^ d)
                    else of_int \<lfloor>a * 10 ^ d + 1 / 2\<rfloor> / 10 ^ d)"

fun toFixed :: "nat \<Rightarrow> jsnum \<Rightarrow> jsnum" where
  "toFixed d (Num a) = Num (round_dec d a)"
| "toFixed d x = x"

definition rne :: "real \<Rightarrow> int" where
  "rne y = (let f = \<lfloor>y\<rfloor>; r = y - of_int f
            in if r < 1 / 2 then f else if 1 / 2 < r then f + 1
               else if even f then f else f + 1)"

function ilog2 :: "real \<Rightarrow> int" where
  "ilog2 x = (if x \<le> 0 then 0
              else if 2 \<le> x then ilog2 (x / 2) + 1
              else if x < 1 then ilog2 (x * 2) - 1
              else 0)"
  by pat_completeness auto
termination
proof (relation "measure (\<lambda>x. nat \<bar>\<lfloor>log 2 x\<rfloor>\<bar>)")
  show "wf (measure (\<lambda>x. nat \<bar>\<lfloor>log 2 x\<rfloor>\<bar>))" by simp
next
  fix x :: real
  assume "\<not> x \<le> 0" "2 \<le> x"
  then have "log 2 (x / 2) = log 2 x - 1" by (simp add: log_divide)
  moreover have "1 \<le> log 2 x" using \<open>2 \<le> x\<close> by (simp add: le_log_iff)
  ultimately have e: "\<lfloor>log 2 (x / 2)\<rfloor> = \<lfloor>log 2 x\<rfloor> - 1" and f: "1 \<le> \<lfloor>log 2 x\<rfloor>"
    by (simp_all add: le_floor_iff)
  from f have "\<bar>\<lfloor>log 2 x\<rfloor> - 1\<bar> < \<bar>\<lfloor>log 2 x\<rfloor>\<bar>" by linarith
  then show "(x / 2, x) \<in> measure (\<lambda>x. nat \<bar>\<lfloor>log 2 x\<rfloor>\<bar>)" unfolding e [symmetric] by simp
next
  fix x :: real
  assume "\<not> x \<le> 0" "\<not> 2 \<le> x" "x < 1"
  then have "log 2 (x * 2) = log 2 x + 1" by (simp add: log_mult)
  moreover have "log 2 x < 0" using \<open>x < 1\<close> \<open>\<not> x \<le> 0\<close> by simp
  ultimately have e: "\<lfloor>log 2 (x * 2)\<rfloor> = \<lfloor>log 2 x\<rfloor> + 1" and f: "\<lfloor>log 2 x\<rfloor> \<le> - 1"
    by (simp_all add: floor_le_iff)
  from f have "\<bar>\<lfloor>log 2 x\<rfloor> + 1\<bar> < \<bar>\<lfloor>log 2 x\<rfloor>\<bar>" by linarith
  then show "(x * 2, x) \<in> measure (\<lambda>x. nat \<bar>\<lfloor>log 2 x\<rfloor>\<bar>)" unfolding e [symmetric] by simp
qed

declare ilog2.simps [simp del]

definition binade :: "real \<Rightarrow> int" where
  "binade x = max (ilog2 \<bar>x\<bar>) (- 1022)"

definition spacing :: "real \<Rightarrow> real" where
  "spacing x = 2 powi (binade x - 52)"

definition fl64 :: "real \<Rightarrow> real" where
  "fl64 x = of_int (rne (x / spacing x)) * spacing x"

definition representable :: "real \<Rightarrow> bool" where
  "representable d = (fl64 d = d)"

definition overflow :: real where
  "overflow = 2 ^ 1024"

definition is_double :: "real \<Rightarrow> bool" where
  "is_double d = (representable d \<and> \<bar>d\<bar> < overflow)"

definition dbl :: "jsnum \<Rightarrow> jsnum" where
  "dbl a = (case a of
              Num x \<Rightarrow> if overflow \<le> \<bar>fl64 x\<bar> then (if 0 < x then PInf else NInf)
                       else Num (fl64 x)
            | _ \<Rightarrow> a)"

definition dadd :: "jsnum \<Rightarrow> jsnum \<Rightarrow> jsnum" where
  "dadd a b = dbl (jadd a b)"

definition dsub :: "jsnum \<Rightarrow> jsnum \<Rightarrow> jsnum" where
  "dsub a b = dbl (jsub a b)"

definition dmul :: "jsnum \<Rightarrow> jsnum \<Rightarrow> jsnum" where
  "dmul a b = dbl (jmul a b)"

definition ddiv :: "jsnum \<Rightarrow> jsnum \<Rightarrow> jsnum" where
  "ddiv a b = dbl (jdiv a b)"

definition parseFixed :: "nat \<Rightarrow> jsnum \<Rightarrow> jsnum" where
  "parseFixed d a = dbl (toFixed d a)"

text \<open>Array reads \<open>xs[i]\<close> (out of range: \<open>undefined\<close>) and \<open>xs.slice(-n)\<close> for a
  count \<open>n\<close>; \<open>slice(-0)\<close> is \<open>slice(0)\<close>, the whole array.\<close>

definition elem_at :: "jsnum list \<Rightarrow> int \<Rightarrow> jsnum" where
  "elem_at xs i = (if 0 \<le> i \<and> i < int (length xs) then xs ! nat i else NaN)"

definition slice_last :: "nat \<Rightarrow> 'a list \<Rightarrow> 'a list" where
  "slice_last n xs = (if n = 0 then xs else drop (length xs - n) xs)"

text \<open>\<open>s.includes(t)\<close>: \<open>t\<close> occurs in \<open>s\<close> as a contiguous substring.\<close>

definition str_includes :: "string \<Rightarrow> string \<Rightarrow> bool" where
  "str_includes s t = sublist t s"

text \<open>\<open>bs.filter(Boolean).length\<close> on an array of booleans.\<close>

definition count_true :: "bool list \<Rightarrow> nat" where
  "count_true bs = length (filter (\<lambda>b. b) bs)"


section \<open>Advanced analysis: data model\<close>

datatype confidenceLevel = cl_very_low | cl_low | cl_moderate | cl_high | cl_very_high

record ConfluenceScore =
  totalIndicators :: nat
  agreeingIndicators :: nat
  confluencePercent :: jsnum
  bullishCount :: nat
  bearishCount :: nat
  confidenceLevel :: confidenceLevel
  tradeable :: bool

record RiskRewardSetup =
  entryPrice :: jsnum
  takeProfit :: jsnum
  stopLoss :: jsnum
  riskRewardRatio :: jsnum
  isValid :: bool
  positionSize :: jsnum
  potentialGain :: jsnum
  potentialLoss :: jsnum

datatype regime = trending | ranging | breakout | reversal

datatype volatility = vol_low | vol_medium | vol_high | vol_extreme

record MarketRegime =
  regime :: regime
  adxValue :: jsnum
  volatility :: volatility
  recommendation :: string

datatype entryType = immediate | candle_confirmation | support_bounce | breakout_entry

record SmartEntry =
  shouldEnter :: bool
  reason :: string
  entryType :: entryType
  entryPrice_se :: jsnum
  entryWaitTime :: jsnum

text \<open>The fields of \<open>Partial<AdvancedAnalysisResult>\<close> that \<open>generateFinalSignal\<close> reads;
  each may be absent.\<close>

record AdvancedAnalysisResult =
  confluence :: "ConfluenceScore option"
  timeframeAlignment :: "string option"
  riskReward :: "RiskRewardSetup option"
  smartEntry :: "SmartEntry option"
  marketRegime :: "MarketRegime option"

datatype signal = STRONG_BUY | BUY | NEUTRAL | SELL | STRONG_SELL | SKIP

record FinalSignal =
  fs_signal :: signal
  fs_confidence :: jsnum
  fs_reason :: string


section \<open>Final signal composer\<close>

text \<open>
  The five checks of \<open>generateFinalSignal\<close>, as booleans (only their truthiness is read).
  The first is written \<open>result.confluence?.confluencePercent || 0 >= 60\<close> in the source;
  \<open>>=\<close> binds tighter than \<open>||\<close>, so it is the percentage itself, or else the constant
  \<open>0 >= 60\<close>.
\<close>

definition confluencePass :: "AdvancedAnalysisResult \<Rightarrow> bool" where
  "confluencePass r =
     ((case confluence r of None \<Rightarrow> False | Some c \<Rightarrow> truthy (confluencePercent c))
      \<or> jge (Num 0) (Num 60))"

definition timeframePass :: "AdvancedAnalysisResult \<Rightarrow> bool" where
  "timeframePass r =
     (timeframeAlignment r = Some ''strong-bullish'' \<or> timeframeAlignment r = Some ''bullish'')"

definition riskRewardPass :: "AdvancedAnalysisResult \<Rightarrow> bool" where
  "riskRewardPass r = ((case riskReward r of None \<Rightarrow> False | Some rr \<Rightarrow> isValid rr) \<or> False)"

definition entryReady :: "AdvancedAnalysisResult \<Rightarrow> bool" where
  "entryReady r = ((case smartEntry r of None \<Rightarrow> False | Some e \<Rightarrow> shouldEnter e) \<or> False)"

text \<open>An absent regime is \<open>undefined\<close>, which differs from \<open>"ranging"\<close>.\<close>

definition regimeAccepts :: "AdvancedAnalysisResult \<Rightarrow> bool" where
  "regimeAccepts r =
     ((case marketRegime r of None \<Rightarrow> True | Some m \<Rightarrow> regime m \<noteq> ranging) \<or> False)"

definition checks :: "AdvancedAnalysisResult \<Rightarrow> bool list" where
  "checks r = [confluencePass r, timeframePass r, riskRewardPass r, entryReady r, regimeAccepts r]"

definition passedChecks :: "AdvancedAnalysisResult \<Rightarrow> nat" where
  "passedChecks r = count_true (checks r)"

definition generateFinalSignal :: "AdvancedAnalysisResult \<Rightarrow> FinalSignal" where
  "generateFinalSignal r =
     (let passed = passedChecks r;
          confidence = Math_round (jmul (jdiv (Num (real passed)) (Num (real (length (checks r)))))
                                        (Num 100))
      in if \<not> confluencePass r \<or> \<not> riskRewardPass r then
           \<lparr>fs_signal = SKIP, fs_confidence = Num 0,
            fs_reason = ''Failed confluence or risk/reward filters''\<rparr>
         else if passed = 5 then
           \<lparr>fs_signal = STRONG_BUY, fs_confidence = confidence,
            fs_reason = ''All checks passed - ideal setup''\<rparr>
         else if passed \<ge> 4 then
           \<lparr>fs_signal = BUY, fs_confidence = confidence,
            fs_reason = ''Most checks passed - good setup''\<rparr>
         else if passed \<ge> 3 then
           \<lparr>fs_signal = NEUTRAL, fs_confidence = confidence,
            fs_reason = ''Mixed signals - use caution''\<rparr>
         else
           \<lparr>fs_signal = SKIP, fs_confidence = confidence,
            fs_reason = ''Insufficient confluent signals''\<rparr>)"


section \<open>Confluence scorer\<close>

text \<open>The argument of \<open>calculateConfluenceScore\<close>: one object per indicator, flattened to
  the fields the type declares.\<close>

record ConfluenceIndicators =
  ci_rsi_value :: jsnum
  ci_rsi_signal :: string
  ci_macd_signal :: string
  ci_ema_signal :: string
  ci_bollinger_position :: string
  ci_vwap_price_vs_vwap :: string
  ci_adx_strength :: string
  ci_stoch_signal :: string
  ci_ichimoku_cloud_signal :: string
  ci_obv_trend :: string
  ci_atr_volatility :: string

definition bullishSignals :: "ConfluenceIndicators \<Rightarrow> bool list" where
  "bullishSignals i =
     [str_includes (ci_rsi_signal i) ''Bullish'',
      str_includes (ci_macd_signal i) ''Bullish'',
      str_includes (ci_ema_signal i) ''Bullish'',
      str_includes (ci_bollinger_position i) ''Lower'',
      str_includes (ci_vwap_price_vs_vwap i) ''Above'',
      str_includes (ci_stoch_signal i) ''Bullish'',
      str_includes (ci_ichimoku_cloud_signal i) ''Bullish'',
      ci_obv_trend i = ''Bullish'']"

definition bearishSignals :: "ConfluenceIndicators \<Rightarrow> bool list" where
  "bearishSignals i =
     [str_includes (ci_rsi_signal i) ''Bearish'',
      str_includes (ci_macd_signal i) ''Bearish'',
      str_includes (ci_ema_signal i) ''Bearish'',
      str_includes (ci_bollinger_position i) ''Upper'',
      str_includes (ci_vwap_price_vs_vwap i) ''Below'',
      str_includes (ci_stoch_signal i) ''Bearish'',
      str_includes (ci_ichimoku_cloud_signal i) ''Bearish'',
      ci_obv_trend i = ''Bearish'']"

text \<open>The percentage before it is rounded for the result; \<open>tradeable\<close> and the confidence
  level are decided on this value.\<close>

definition rawConfluencePercent :: "nat \<Rightarrow> nat \<Rightarrow> jsnum" where
  "rawConfluencePercent b r =
     (let totalSignals = b + r
      in if totalSignals > 0
         then jmul (jdiv (Num (real (max b r))) (Num (real totalSignals))) (Num 100)
         else Num 50)"

definition confidenceLevelOf :: "jsnum \<Rightarrow> confidenceLevel" where
  "confidenceLevelOf p =
     (if jge p (Num 90) then cl_very_high
      else if jge p (Num 75) then cl_high
      else if jge p (Num 60) then cl_moderate
      else if jge p (Num 40) then cl_low
      else cl_very_low)"

definition calculateConfluenceScore :: "ConfluenceIndicators \<Rightarrow> ConfluenceScore" where
  "calculateConfluenceScore i =
     (let b = count_true (bullishSignals i);
          r = count_true (bearishSignals i);
          p = rawConfluencePercent b r
      in \<lparr>totalIndicators = 10,
          agreeingIndicators = max b r,
          confluencePercent = Math_round p,
          bullishCount = b,
          bearishCount = r,
          confidenceLevel = confidenceLevelOf p,
          tradeable = jge p (Num 60)\<rparr>)"


section \<open>Risk/reward calculator\<close>

text \<open>The two levels before they are rounded for the result. The literals \<open>0.99\<close> and
  \<open>1.01\<close> are the doubles nearest to them; \<open>1.5\<close>, \<open>3\<close> and \<open>100\<close> are doubles.\<close>

definition rawStopLoss :: "jsnum \<Rightarrow> jsnum \<Rightarrow> jsnum \<Rightarrow> jsnum" where
  "rawStopLoss entry support atrValue =
     (let minRiskDistance = dmul atrValue (Num 1.5);
          sl = dsub entry minRiskDistance
      in if jgt sl support then dmul support (dbl (Num 0.99)) else sl)"

definition rawTakeProfit :: "jsnum \<Rightarrow> jsnum \<Rightarrow> jsnum \<Rightarrow> jsnum" where
  "rawTakeProfit entry resistance atrValue =
     (let minRewardDistance = dmul atrValue (Num 3);
          tp = dadd entry minRewardDistance
      in if jlt tp resistance then dmul resistance (dbl (Num 1.01)) else tp)"

definition calculateRiskReward ::
  "jsnum \<Rightarrow> jsnum \<Rightarrow> jsnum \<Rightarrow> jsnum \<Rightarrow> jsnum \<Rightarrow> RiskRewardSetup" where
  "calculateRiskReward entry support resistance atrValue accountRisk =
     (let sl = rawStopLoss entry support atrValue;
          tp = rawTakeProfit entry resistance atrValue;
          riskAmount = dsub entry sl;
          rewardAmount = dsub tp entry;
          ratio = ddiv rewardAmount riskAmount;
          posSize = dmul (ddiv accountRisk (ddiv riskAmount entry)) (Num 100)
      in \<lparr>entryPrice = entry,
          takeProfit = parseFixed 8 tp,
          stopLoss = parseFixed 8 sl,
          riskRewardRatio = parseFixed 2 ratio,
          isValid = jge ratio (Num 2),
          positionSize = parseFixed 2 posSize,
          potentialGain = parseFixed 2 (dmul (ddiv rewardAmount entry) (Num 100)),
          potentialLoss = parseFixed 2 (dmul (ddiv riskAmount entry) (Num 100))\<rparr>)"


section \<open>Indicator calculators\<close>

text \<open>
  Periods and lengths are counts (\<open>nat\<close>). A calculator that can raise returns an
  \<open>option\<close>, \<open>None\<close> standing for the \<open>TypeError\<close> of \<open>reduce\<close> on an empty array
  without an initial value.
\<close>

record RSI =
  rsi_value :: jsnum
  rsi_signal :: string
  rsi_strength :: string

record MACD =
  macd_histogram :: jsnum
  macd_signal :: string
  macd_momentum :: string

record EMACross =
  ema9 :: jsnum
  ema21 :: jsnum
  ema_alignment :: string
  ema_signal :: string

record Bollinger =
  bb_upper :: jsnum
  bb_lower :: jsnum
  bb_middle :: jsnum
  bb_position :: string

record ATR =
  atr_value :: jsnum
  atr_volatility :: string

record OBV =
  obv_trend :: string
  obv_momentum :: string

record Stochastic =
  stoch_k :: jsnum
  stoch_d :: jsnum
  stoch_signal :: string

record ADX =
  adx_value :: jsnum
  adx_trend :: string
  adx_strength :: string

record VWAP =
  vwap_level :: jsnum
  price_vs_vwap :: string

record Ichimoku =
  cloud_signal :: string
  ichimoku_momentum :: string

record Overall =
  score :: jsnum
  confidence :: string
  overall_recommendation :: string

record IndicatorAnalysis =
  rsi :: RSI
  macd :: MACD
  ema :: EMACross
  bollinger :: Bollinger
  atr :: ATR
  obv :: OBV
  stoch :: Stochastic
  adx :: ADX
  vwap :: VWAP
  ichimoku :: Ichimoku
  overall :: Overall

record TokenMetrics =
  price :: jsnum
  priceChange24h :: jsnum
  priceChange1h :: jsnum
  priceChange5m :: jsnum
  volume24h :: jsnum
  liquidity :: jsnum
  buys24h :: jsnum
  sells24h :: jsnum
  marketCap :: jsnum

text \<open>\<open>xs.reduce((a, b) => a + b)\<close>, and the last element \<open>xs[xs.length - 1]\<close>.\<close>

fun reduce_add :: "jsnum list \<Rightarrow> jsnum option" where
  "reduce_add [] = None"
| "reduce_add (x # xs) = Some (foldl jadd x xs)"

definition last_elem :: "jsnum list \<Rightarrow> jsnum" where
  "last_elem xs = elem_at xs (int (length xs) - 1)"

text \<open>\<open>Math.pow(x, 2)\<close>.\<close>

definition Math_pow2 :: "jsnum \<Rightarrow> jsnum" where
  "Math_pow2 x = jmul x x"

subsection \<open>RSI\<close>

definition rsi_step :: "jsnum list \<Rightarrow> jsnum \<times> jsnum \<Rightarrow> nat \<Rightarrow> jsnum \<times> jsnum" where
  "rsi_step priceHistory acc i =
     (let change = jsub (elem_at priceHistory (int i)) (elem_at priceHistory (int i - 1))
      in if jgt change (Num 0) then (jadd (fst acc) change, snd acc)
         else (fst acc, jadd (snd acc) (jabs change)))"

definition calculateRSI :: "jsnum list \<Rightarrow> nat \<Rightarrow> RSI" where
  "calculateRSI priceHistory period =
     (if length priceHistory < period + 1 then
        \<lparr>rsi_value = Num 50, rsi_signal = ''Insufficient Data'', rsi_strength = ''Neutral''\<rparr>
      else
        let acc = foldl (rsi_step priceHistory) (Num 0, Num 0) [1..<period + 1];
            avgGain = jdiv (fst acc) (Num (real period));
            avgLoss = jdiv (snd acc) (Num (real period));
            rs = jdiv avgGain avgLoss;
            rsi = jsub (Num 100) (jdiv (Num 100) (jadd (Num 1) rs));
            signal = (if jgt rsi (Num 70) then ''Overbought''
                      else if jlt rsi (Num 30) then ''Oversold''
                      else if jgt rsi (Num 60) then ''Strong Bullish''
                      else if jlt rsi (Num 40) then ''Strong Bearish''
                      else ''Neutral'');
            strength = (if jgt rsi (Num 75) \<or> jlt rsi (Num 25) then ''Very Strong''
                        else if jgt rsi (Num 70) \<or> jlt rsi (Num 30) then ''Strong''
                        else if jgt rsi (Num 65) \<or> jlt rsi (Num 35) then ''Moderate''
                        else ''Weak'')
        in \<lparr>rsi_value = toFixed 2 rsi, rsi_signal = signal, rsi_strength = strength\<rparr>)"

subsection \<open>EMA\<close>

text \<open>The body of \<open>calculateEMA\<close> after its guard: the mean of the first \<open>period\<close>
  samples, smoothed over the rest.\<close>

definition ema_smoothed :: "jsnum list \<Rightarrow> nat \<Rightarrow> jsnum option" where
  "ema_smoothed prices period =
     do {
       total \<leftarrow> reduce_add (take period prices);
       let multiplier = jdiv (Num 2) (Num (real period + 1));
       let seed = jdiv total (Num (real period));
       Some (foldl (\<lambda>ema i. jadd (jmul (jsub (elem_at prices (int i)) ema) multiplier) ema)
                   seed [period..<length prices])
     }"

definition calculateEMA :: "jsnum list \<Rightarrow> nat \<Rightarrow> jsnum option" where
  "calculateEMA prices period =
     (if length prices < period then Some (last_elem prices)
      else ema_smoothed prices period)"

subsection \<open>MACD\<close>

definition macd_labels :: "jsnum \<Rightarrow> MACD" where
  "macd_labels histogram =
     (let signal = (if jgt histogram (Num 0.5) then ''Bullish Momentum''
                    else if jlt histogram (Num (- 0.5)) then ''Bearish Momentum''
                    else if jgt histogram (Num 0) then ''Weak Bullish''
                    else ''Weak Bearish'');
          momentum = (if jgt (jabs histogram) (Num 2) then ''Very Strong''
                      else if jgt (jabs histogram) (Num 1) then ''Strong''
                      else if jgt (jabs histogram) (Num 0.5) then ''Moderate''
                      else ''Weak'')
      in \<lparr>macd_histogram = toFixed 4 histogram, macd_signal = signal, macd_momentum = momentum\<rparr>)"

text \<open>One entry of \<open>macdHistory\<close>: the MACD line of the 26-sample window starting at \<open>i\<close>.\<close>

definition macd_at :: "jsnum list \<Rightarrow> nat \<Rightarrow> jsnum option" where
  "macd_at priceHistory i =
     do {
       a \<leftarrow> calculateEMA (take 26 (drop i priceHistory)) 12;
       b \<leftarrow> calculateEMA (take 26 (drop i priceHistory)) 26;
       Some (jsub a b)
     }"

definition calculateMACD :: "jsnum list \<Rightarrow> MACD option" where
  "calculateMACD priceHistory =
     (if length priceHistory < 26 then
        Some \<lparr>macd_histogram = Num 0, macd_signal = ''Insufficient Data'',
              macd_momentum = ''Neutral''\<rparr>
      else do {
        ema12 \<leftarrow> calculateEMA priceHistory 12;
        ema26 \<leftarrow> calculateEMA priceHistory 26;
        let macdLine = jsub ema12 ema26;
        macdHistory \<leftarrow> those (map (macd_at priceHistory) [0..<length priceHistory - 26]);
        signalLine \<leftarrow> calculateEMA macdHistory 9;
        Some (macd_labels (jsub macdLine signalLine))
      })"

subsection \<open>EMA 9/21 cross\<close>

text \<open>The labels \<open>alignment\<close> and \<open>signal\<close> of the cross.\<close>

definition ema_cross_labels :: "jsnum \<Rightarrow> jsnum \<Rightarrow> jsnum \<Rightarrow> string \<times> string" where
  "ema_cross_labels e9 e21 current =
     (if jgt e9 e21 \<and> jgt current e21 then (''Bullish'', ''Strong Bullish Alignment'')
      else if jlt e9 e21 \<and> jlt current e21 then (''Bearish'', ''Strong Bearish Alignment'')
      else if jgt e9 e21 then (''Bullish (Price Below)'', ''Weak Bullish'')
      else if jlt e9 e21 then (''Bearish (Price Above)'', ''Weak Bearish'')
      else (''Neutral'', ''Consolidation Zone''))"

definition calculateEMACross :: "jsnum list \<Rightarrow> EMACross option" where
  "calculateEMACross priceHistory =
     (if length priceHistory < 21 then
        Some \<lparr>ema9 = Num 0, ema21 = Num 0, ema_alignment = ''Insufficient Data'',
              ema_signal = ''Neutral''\<rparr>
      else do {
        e9 \<leftarrow> calculateEMA priceHistory 9;
        e21 \<leftarrow> calculateEMA priceHistory 21;
        let current = last_elem priceHistory;
        let labels = ema_cross_labels e9 e21 current;
        Some \<lparr>ema9 = toFixed 8 e9, ema21 = toFixed 8 e21, ema_alignment = fst labels,
              ema_signal = snd labels\<rparr>
      })"

subsection \<open>Bollinger Bands\<close>

text \<open>The source initialises \<open>position\<close> to \<open>"Middle"\<close> and then assigns it in every branch
  of the chain that follows, the last one an unconditional \<open>else\<close>.\<close>

definition bollinger_position :: "jsnum \<Rightarrow> jsnum \<Rightarrow> jsnum \<Rightarrow> jsnum \<Rightarrow> string" where
  "bollinger_position current upper lower middle =
     (if jgt current (jmul upper (Num 0.95)) then ''Upper Band (Overbought)''
      else if jlt current (jmul lower (Num 1.05)) then ''Lower Band (Oversold)''
      else if jgt current middle then ''Upper Half''
      else ''Lower Half'')"

definition calculateBollingerBands :: "jsnum list \<Rightarrow> nat \<Rightarrow> jsnum \<Rightarrow> Bollinger option" where
  "calculateBollingerBands priceHistory period stdDev =
     (if length priceHistory < period then
        Some \<lparr>bb_upper = Num 0, bb_lower = Num 0, bb_middle = Num 0,
              bb_position = ''Insufficient Data''\<rparr>
      else do {
        let recent = slice_last period priceHistory;
        total \<leftarrow> reduce_add recent;
        let middle = jdiv total (Num (real period));
        let variance = jdiv (foldl (\<lambda>sum price. jadd sum (Math_pow2 (jsub price middle)))
                                   (Num 0) recent)
                            (Num (real period));
        let std = Math_sqrt variance;
        let upper = jadd middle (jmul std stdDev);
        let lower = jsub middle (jmul std stdDev);
        let current = last_elem priceHistory;
        Some \<lparr>bb_upper = toFixed 8 upper, bb_lower = toFixed 8 lower,
              bb_middle = toFixed 8 middle,
              bb_position = bollinger_position current upper lower middle\<rparr>
      })"


subsection \<open>ATR\<close>

text \<open>The true range at index \<open>i\<close>. In \<open>Math.abs(high[i] - close[i - 1] || close[i])\<close> the
  subtraction binds tighter than \<open>||\<close>: a zero or \<open>NaN\<close> difference falls back to
  \<open>close[i]\<close>.\<close>

definition true_range :: "jsnum list \<Rightarrow> jsnum list \<Rightarrow> jsnum list \<Rightarrow> nat \<Rightarrow> jsnum" where
  "true_range high low close i =
     Math_max
       [jsub (elem_at high (int i)) (elem_at low (int i)),
        jabs (jor (jsub (elem_at high (int i)) (elem_at close (int i - 1))) (elem_at close (int i))),
        jabs (jor (jsub (elem_at low (int i)) (elem_at close (int i - 1))) (elem_at close (int i)))]"

definition calculateATR :: "jsnum list \<Rightarrow> jsnum list \<Rightarrow> jsnum list \<Rightarrow> nat \<Rightarrow> ATR" where
  "calculateATR high low close period =
     (if length high < period then
        \<lparr>atr_value = Num 0, atr_volatility = ''Insufficient Data''\<rparr>
      else
        let total = foldl (\<lambda>sum i. jadd sum (true_range high low close i)) (Num 0) [0..<period];
            atr = jdiv total (Num (real period));
            percentage = jmul (jdiv atr (last_elem close)) (Num 100);
            volatility = (if jgt percentage (Num 3) then ''Very High''
                          else if jgt percentage (Num 2) then ''High''
                          else if jgt percentage (Num 1) then ''Moderate''
                          else ''Low'')
        in \<lparr>atr_value = toFixed 8 atr, atr_volatility = volatility\<rparr>)"

subsection \<open>OBV\<close>

definition obv_step ::
  "jsnum list \<Rightarrow> jsnum list \<Rightarrow> jsnum \<times> jsnum list \<Rightarrow> nat \<Rightarrow> jsnum \<times> jsnum list" where
  "obv_step closeHistory volumeHistory acc i =
     (let obv = fst acc;
          obv' = (if jgt (elem_at closeHistory (int i)) (elem_at closeHistory (int i - 1))
                  then jadd obv (elem_at volumeHistory (int i))
                  else if jlt (elem_at closeHistory (int i)) (elem_at closeHistory (int i - 1))
                  then jsub obv (elem_at volumeHistory (int i))
                  else obv)
      in (obv', snd acc @ [obv']))"

definition calculateOBV :: "jsnum list \<Rightarrow> jsnum list \<Rightarrow> OBV" where
  "calculateOBV closeHistory volumeHistory =
     (if length closeHistory < 2 then
        \<lparr>obv_trend = ''Neutral'', obv_momentum = ''Insufficient Data''\<rparr>
      else
        let obv0 = elem_at volumeHistory 0;
            obvHistory = snd (foldl (obv_step closeHistory volumeHistory) (obv0, [obv0])
                                    [1..<length closeHistory]);
            recent = slice_last 10 obvHistory;
            trend = (if jgt (last_elem recent) (elem_at recent 0) then ''Bullish'' else ''Bearish'');
            changePercent = jmul (jdiv (jsub (last_elem recent) (elem_at recent 0))
                                       (elem_at recent 0)) (Num 100);
            momentum = (if jgt (jabs changePercent) (Num 10) then ''Strong''
                        else if jgt (jabs changePercent) (Num 5) then ''Moderate''
                        else ''Weak'')
        in \<lparr>obv_trend = trend, obv_momentum = momentum\<rparr>)"

subsection \<open>Stochastic oscillator\<close>

definition calculateStochastic :: "jsnum list \<Rightarrow> nat \<Rightarrow> Stochastic" where
  "calculateStochastic closeHistory period =
     (if length closeHistory < period then
        \<lparr>stoch_k = Num 50, stoch_d = Num 50, stoch_signal = ''Insufficient Data''\<rparr>
      else
        let recent = slice_last period closeHistory;
            lowest = Math_min recent;
            highest = Math_max recent;
            current = last_elem closeHistory;
            k = (if jeq lowest highest then Num 50
                 else jmul (jdiv (jsub current lowest) (jsub highest lowest)) (Num 100));
            d = jdiv (jadd k (Num 50)) (Num 2);
            signal = (if jgt k (Num 80) then ''Overbought''
                      else if jlt k (Num 20) then ''Oversold''
                      else if jgt k d then ''Bullish Crossover''
                      else if jlt k d then ''Bearish Crossover''
                      else ''Neutral'')
        in \<lparr>stoch_k = toFixed 2 k, stoch_d = toFixed 2 d, stoch_signal = signal\<rparr>)"

subsection \<open>ADX\<close>

text \<open>\<open>recent.reduce((a, b, i) => a + Math.abs(b - recent[i - 1] || 0), 0)\<close>.\<close>

definition adx_changes :: "jsnum list \<Rightarrow> jsnum" where
  "adx_changes recent =
     foldl (\<lambda>a i. jadd a (jabs (jor (jsub (elem_at recent (int i)) (elem_at recent (int i - 1)))
                                      (Num 0))))
           (Num 0) [0..<length recent]"

definition adx_strength_of :: "jsnum \<Rightarrow> string" where
  "adx_strength_of a =
     (if jgt a (Num 40) then ''Very Strong''
      else if jgt a (Num 30) then ''Strong''
      else if jgt a (Num 20) then ''Moderate''
      else ''Weak'')"

definition calculateADX :: "jsnum list \<Rightarrow> jsnum list \<Rightarrow> jsnum list \<Rightarrow> nat \<Rightarrow> ADX" where
  "calculateADX high low close period =
     (if length high < period then
        \<lparr>adx_value = Num 20, adx_trend = ''Weak Trend'', adx_strength = ''Weak''\<rparr>
      else
        let recent = slice_last period high;
            avgChange = jdiv (adx_changes recent) (Num (real period));
            scaled = jmin2 (Num 50) (jadd (Num 20) (jmul avgChange (Num 5)));
            res = (if jgt (last_elem high) (elem_at high (int (length high) - 2))
                   then (''Uptrend'', scaled)
                   else if jlt (last_elem low) (elem_at low (int (length low) - 2))
                   then (''Downtrend'', scaled)
                   else (''No Clear Trend'', Num 20))
        in \<lparr>adx_value = toFixed 2 (snd res), adx_trend = fst res,
            adx_strength = adx_strength_of (snd res)\<rparr>)"

subsection \<open>VWAP\<close>

definition calculateVWAP :: "jsnum list \<Rightarrow> jsnum list \<Rightarrow> VWAP" where
  "calculateVWAP closeHistory volumeHistory =
     (if length closeHistory = 0 then
        \<lparr>vwap_level = Num 0, price_vs_vwap = ''No Data''\<rparr>
      else
        let typicalPriceVolume =
              foldl (\<lambda>s i. jadd s (jmul (elem_at closeHistory (int i)) (elem_at volumeHistory (int i))))
                    (Num 0) [0..<length closeHistory];
            volumeSum = foldl (\<lambda>s i. jadd s (elem_at volumeHistory (int i)))
                              (Num 0) [0..<length closeHistory];
            vwap = (if jeq volumeSum (Num 0) then last_elem closeHistory
                    else jdiv typicalPriceVolume volumeSum);
            current = last_elem closeHistory;
            diff = jmul (jdiv (jsub current vwap) vwap) (Num 100);
            position = (if jgt diff (Num 1) then ''Above VWAP (Bullish)''
                        else if jlt diff (Num (- 1)) then ''Below VWAP (Bearish)''
                        else ''Near VWAP (Consolidation)'')
        in \<lparr>vwap_level = toFixed 8 vwap, price_vs_vwap = position\<rparr>)"

subsection \<open>Ichimoku\<close>

definition calculateIchimoku :: "jsnum list \<Rightarrow> jsnum list \<Rightarrow> jsnum list \<Rightarrow> Ichimoku" where
  "calculateIchimoku high low close =
     (if length high < 26 then
        \<lparr>cloud_signal = ''Insufficient Data'', ichimoku_momentum = ''Neutral''\<rparr>
      else
        let recent26 = slice_last 26 high;
            recent52 = slice_last 52 high;
            tenkan = jdiv (jadd (Math_max recent26) (Math_min recent26)) (Num 2);
            kijun = jdiv (jadd (Math_max recent52) (Math_min recent52)) (Num 2);
            current = last_elem close
        in if jgt current tenkan \<and> jgt tenkan kijun then
             \<lparr>cloud_signal = ''Strong Bullish Cloud'', ichimoku_momentum = ''Strong''\<rparr>
           else if jlt current tenkan \<and> jlt tenkan kijun then
             \<lparr>cloud_signal = ''Strong Bearish Cloud'', ichimoku_momentum = ''Strong''\<rparr>
           else if jgt current kijun then
             \<lparr>cloud_signal = ''Bullish'', ichimoku_momentum = ''Moderate''\<rparr>
           else if jlt current kijun then
             \<lparr>cloud_signal = ''Bearish'', ichimoku_momentum = ''Moderate''\<rparr>
           else
             \<lparr>cloud_signal = ''Neutral'', ichimoku_momentum = ''Weak''\<rparr>)"


section \<open>Indicator aggregator\<close>

text \<open>
  \<open>Math.random()\<close> reads a hidden generator. The generator is made an explicit argument:
  the stream of the draws still to come, each in \<open>[0, 1)\<close>. A function that draws returns
  the rest of the stream with its result.
\<close>

type_synonym rng = "nat \<Rightarrow> real"

definition Math_random :: "rng \<Rightarrow> jsnum \<times> rng" where
  "Math_random g = (Num (g 0), \<lambda>n. g (Suc n))"

fun generatePriceHistory_loop :: "jsnum \<Rightarrow> jsnum \<Rightarrow> nat \<Rightarrow> rng \<Rightarrow> jsnum list \<times> rng" where
  "generatePriceHistory_loop change24h p 0 g = ([], g)"
| "generatePriceHistory_loop change24h p (Suc n) g =
     (let (u, g') = Math_random g;
          change = jmul (jsub u (Num 0.5)) (jdiv change24h (Num 10));
          p' = jmul p (jadd (Num 1) (jdiv change (Num 100)));
          (rest, g'') = generatePriceHistory_loop change24h p' n g'
      in (p' # rest, g''))"

definition generatePriceHistory :: "TokenMetrics \<Rightarrow> nat \<Rightarrow> rng \<Rightarrow> jsnum list \<times> rng" where
  "generatePriceHistory metrics len g =
     generatePriceHistory_loop (priceChange24h metrics) (price metrics) len g"

fun generateVolumeHistory_loop :: "jsnum \<Rightarrow> nat \<Rightarrow> rng \<Rightarrow> jsnum list \<times> rng" where
  "generateVolumeHistory_loop avgVolume 0 g = ([], g)"
| "generateVolumeHistory_loop avgVolume (Suc n) g =
     (let (u, g') = Math_random g;
          volume = jmul avgVolume (jadd (Num 0.8) (jmul u (Num 0.4)));
          (rest, g'') = generateVolumeHistory_loop avgVolume n g'
      in (volume # rest, g''))"

definition generateVolumeHistory :: "TokenMetrics \<Rightarrow> nat \<Rightarrow> rng \<Rightarrow> jsnum list \<times> rng" where
  "generateVolumeHistory metrics len g =
     generateVolumeHistory_loop (jdiv (volume24h metrics) (Num 24)) len g"

text \<open>The 5-byte and 4-byte UTF-8 prefixes of the recommendation tags (a coloured circle and
  a space).\<close>

definition green_circle :: string where
  "green_circle = [CHR 0xF0, CHR 0x9F, CHR 0x9F, CHR 0xA2]"

definition yellow_circle :: string where
  "yellow_circle = [CHR 0xF0, CHR 0x9F, CHR 0x9F, CHR 0xA1]"

definition red_circle :: string where
  "red_circle = [CHR 0xF0, CHR 0x9F, CHR 0x94, CHR 0xB4]"

text \<open>The score and the number of confirmations, one indicator after the other.\<close>

definition overall_of :: "RSI \<Rightarrow> MACD \<Rightarrow> EMACross \<Rightarrow> Bollinger \<Rightarrow> VWAP \<Rightarrow> ADX \<Rightarrow> Overall" where
  "overall_of r m e b v a =
     (let s0 = (Num 50, 0::nat);
          s1 = (if jgt (rsi_value r) (Num 60) \<or> jlt (rsi_value r) (Num 40)
                then (jadd (fst s0) (jmul (jdiv (jabs (jsub (rsi_value r) (Num 50))) (Num 5)) (Num 2)),
                      snd s0 + 1)
                else s0);
          s2 = (if ema_alignment e = ''Bullish'' \<or> ema_alignment e = ''Bearish''
                then (jadd (fst s1) (Num 12), snd s1 + 1) else s1);
          s3 = (if macd_momentum m = ''Very Strong'' then (jadd (fst s2) (Num 15), snd s2 + 1)
                else if macd_momentum m = ''Strong'' then (jadd (fst s2) (Num 10), snd s2)
                else s2);
          s4 = (if str_includes (bb_position b) ''Overbought'' \<or> str_includes (bb_position b) ''Oversold''
                then (jadd (fst s3) (Num 5), snd s3 + 1) else s3);
          s5 = (if str_includes (price_vs_vwap v) ''Above'' \<or> str_includes (price_vs_vwap v) ''Below''
                then (jadd (fst s4) (Num 8), snd s4 + 1) else s4);
          s6 = (if adx_strength a = ''Very Strong'' then (jadd (fst s5) (Num 10), snd s5 + 1)
                else if adx_strength a = ''Strong'' then (jadd (fst s5) (Num 7), snd s5)
                else s5);
          total = jmin2 (Num 100) (fst s6);
          confirmations = snd s6;
          conf = (if confirmations \<ge> 5 then ''Very High''
                  else if confirmations \<ge> 4 then ''High''
                  else if confirmations \<ge> 3 then ''Moderate''
                  else if confirmations \<ge> 2 then ''Fair''
                  else ''Low'');
          rec = (if jge total (Num 75) then green_circle @ '' BUY SIGNAL''
                 else if jge total (Num 60) then yellow_circle @ '' CAUTIOUS BUY''
                 else if jle total (Num 25) then red_circle @ '' SELL SIGNAL''
                 else if jle total (Num 40) then red_circle @ '' CAUTIOUS SELL''
                 else ''NEUTRAL'')
      in \<lparr>score = Math_round total, confidence = conf, overall_recommendation = rec\<rparr>)"

text \<open>
  \<open>analyzeIndicators\<close>. The price history is synthesised only when none is supplied; the
  volume history is synthesised on every call, once for OBV and once more for VWAP.
\<close>

definition analyzeIndicators ::
  "rng \<Rightarrow> TokenMetrics \<Rightarrow> jsnum list \<Rightarrow> IndicatorAnalysis option \<times> rng" where
  "analyzeIndicators g0 metrics supplied =
     (let (priceHistory, g1) = (if length supplied = 0 then generatePriceHistory metrics 50 g0
                                else (supplied, g0));
          (obvVolumes, g2) = generateVolumeHistory metrics (length priceHistory) g1;
          (vwapVolumes, g3) = generateVolumeHistory metrics (length priceHistory) g2
      in (do {
            let r = calculateRSI priceHistory 14;
            m \<leftarrow> calculateMACD priceHistory;
            e \<leftarrow> calculateEMACross priceHistory;
            b \<leftarrow> calculateBollingerBands priceHistory 20 (Num 2);
            let t = calculateATR priceHistory priceHistory priceHistory 14;
            let ob = calculateOBV priceHistory obvVolumes;
            let st = calculateStochastic priceHistory 14;
            let a = calculateADX priceHistory priceHistory priceHistory 14;
            let v = calculateVWAP priceHistory vwapVolumes;
            let ic = calculateIchimoku priceHistory priceHistory priceHistory;
            Some \<lparr>rsi = r, macd = m, ema = e, bollinger = b, atr = t, obv = ob, stoch = st,
                  adx = a, vwap = v, ichimoku = ic, overall = overall_of r m e b v a\<rparr>
          }, g3))"


section \<open>Win-rate ledger\<close>

text \<open>
  Timestamps, the clock and the lookback are finite numbers (\<open>real\<close>): the sort comparators
  \<open>a.timestamp - b.timestamp\<close> are a consistent order only on those. A \<open>Map\<close> is the list
  of its entries in insertion order, with distinct keys.
\<close>

datatype outcome = win | loss | breakeven

datatype signalType = ST_STRONG_BUY | ST_BUY | ST_NEUTRAL | ST_SELL | ST_STRONG_SELL

record SignalRecord =
  sr_id :: string
  timestamp :: real
  symbol :: string
  sr_entryPrice :: jsnum
  takeProfitPrice :: jsnum
  stopLossPrice :: jsnum
  signalType :: signalType
  sr_confidence :: jsnum
  sr_confluencePercent :: jsnum
  patternDetected :: "string option"
  sr_adxValue :: jsnum
  rsiValue :: jsnum
  macdSignal :: string
  exitPrice :: "jsnum option"
  exitTime :: "jsnum option"
  outcome :: "outcome option"
  profitLoss :: "jsnum option"
  profitLossPercent :: "jsnum option"
  sr_notes :: "string option"

record PatternStat =
  pattern :: string
  ps_winRate :: int
  ps_count :: nat

record WinRateAnalysis =
  totalSignals :: nat
  winningSignals :: nat
  losingSignals :: nat
  breakevenSignals :: nat
  winRate :: jsnum
  averageWin :: jsnum
  averageLoss :: jsnum
  profitFactor :: jsnum
  expectancy :: jsnum
  sharpeRatio :: jsnum
  topPatterns :: "PatternStat list"
  bestTimeframe :: string
  confidenceCorrelation :: jsnum

text \<open>\<open>Map.set\<close> keeps the position of a key that is present and appends a new one;
  \<open>Map.delete\<close> removes the entry of a key.\<close>

fun map_set :: "'k \<Rightarrow> 'v \<Rightarrow> ('k \<times> 'v) list \<Rightarrow> ('k \<times> 'v) list" where
  "map_set k v [] = [(k, v)]"
| "map_set k v (e # m) = (if fst e = k then (k, v) # m else e # map_set k v m)"

definition map_delete :: "'k \<Rightarrow> ('k \<times> 'v) list \<Rightarrow> ('k \<times> 'v) list" where
  "map_delete k m = filter (\<lambda>e. fst e \<noteq> k) m"

record WinRateTracker =
  signals :: "(string \<times> SignalRecord) list"

definition MAX_SIGNALS :: nat where
  "MAX_SIGNALS = 10000"

text \<open>The key of the first entry after the stable sort by ascending timestamp.\<close>

definition oldestKey :: "(string \<times> SignalRecord) list \<Rightarrow> string option" where
  "oldestKey m = (case sort_key (\<lambda>e. timestamp (snd e)) m of [] \<Rightarrow> None | e # _ \<Rightarrow> Some (fst e))"

definition recordSignal :: "SignalRecord \<Rightarrow> WinRateTracker \<Rightarrow> WinRateTracker" where
  "recordSignal signal t =
     (let m = map_set (sr_id signal) signal (signals t)
      in if length m > MAX_SIGNALS then
           (case oldestKey m of
              Some k \<Rightarrow> t\<lparr>signals := map_delete k m\<rparr>
            | None \<Rightarrow> t\<lparr>signals := m\<rparr>)
         else t\<lparr>signals := m\<rparr>)"

definition updateSignalExit ::
  "string \<Rightarrow> jsnum \<Rightarrow> jsnum \<Rightarrow> string option \<Rightarrow> WinRateTracker \<Rightarrow> WinRateTracker" where
  "updateSignalExit signalId exitP exitT nts t =
     (case map_of (signals t) signalId of
        None \<Rightarrow> t
      | Some signal \<Rightarrow>
          let pl = jsub exitP (sr_entryPrice signal);
              plPercent = jmul (jdiv pl (sr_entryPrice signal)) (Num 100);
              oc = (if jgt pl (Num 0.01) then win
                    else if jlt pl (Num (- 0.01)) then loss
                    else breakeven);
              signal' = signal\<lparr>exitPrice := Some exitP, exitTime := Some exitT,
                               outcome := Some oc, profitLoss := Some pl,
                               profitLossPercent := Some plPercent, sr_notes := nts\<rparr>
          in t\<lparr>signals := map_set signalId signal' (signals t)\<rparr>)"

text \<open>\<open>s.profitLossPercent || 0\<close>.\<close>

definition pct_or_0 :: "SignalRecord \<Rightarrow> jsnum" where
  "pct_or_0 s = (case profitLossPercent s of None \<Rightarrow> Num 0 | Some p \<Rightarrow> jor p (Num 0))"

text \<open>\<open>Math.round(x * 100) / 100\<close>.\<close>

definition round2 :: "jsnum \<Rightarrow> jsnum" where
  "round2 x = jdiv (Math_round (jmul x (Num 100))) (Num 100)"

text \<open>The records a query with the cutoff \<open>c\<close> computes over, newest first.\<close>

definition in_window :: "real \<Rightarrow> SignalRecord \<Rightarrow> bool" where
  "in_window c s = (timestamp s > c \<and> outcome s \<noteq> None)"

definition windowSignals :: "real \<Rightarrow> WinRateTracker \<Rightarrow> SignalRecord list" where
  "windowSignals c t =
     sort_key (\<lambda>s. - timestamp s) (filter (in_window c) (map snd (signals t)))"

text \<open>
  The pattern statistics: an object keyed by pattern name, in the order the names first
  occur (the names are taken to be ordinary property names: not array indices, which an
  object enumerates first, and not names inherited from \<open>Object.prototype\<close>). An absent
  or empty name is skipped. Every entry has a count of at least one.
\<close>

fun bump_pattern :: "string \<Rightarrow> bool \<Rightarrow> (string \<times> nat \<times> nat) list \<Rightarrow> (string \<times> nat \<times> nat) list" where
  "bump_pattern p w [] = [(p, (if w then 1 else 0), 1)]"
| "bump_pattern p w ((q, ws, c) # rest) =
     (if q = p then (q, (if w then ws + 1 else ws), c + 1) # rest
      else (q, ws, c) # bump_pattern p w rest)"

definition patternStats :: "SignalRecord list \<Rightarrow> (string \<times> nat \<times> nat) list" where
  "patternStats ss =
     foldl (\<lambda>acc s. case patternDetected s of
                       None \<Rightarrow> acc
                     | Some p \<Rightarrow> if p = [] then acc else bump_pattern p (outcome s = Some win) acc)
           [] ss"

definition topPatternsOf :: "SignalRecord list \<Rightarrow> PatternStat list" where
  "topPatternsOf ss =
     take 5 (sort_key (\<lambda>p. - ps_winRate p)
               (map (\<lambda>(p, ws, c). \<lparr>pattern = p,
                                   ps_winRate = \<lfloor>real ws / real c * 100 + 1 / 2\<rfloor>,
                                   ps_count = c\<rparr>)
                    (patternStats ss)))"

definition win_percent :: "SignalRecord list \<Rightarrow> jsnum" where
  "win_percent ss =
     (if length ss > 0
      then jmul (jdiv (Num (real (length (filter (\<lambda>s. outcome s = Some win) ss))))
                      (Num (real (length ss)))) (Num 100)
      else Num 0)"

definition analyzeWinRate :: "real \<Rightarrow> real \<Rightarrow> WinRateTracker \<Rightarrow> WinRateAnalysis" where
  "analyzeWinRate now lookbackDays t =
     (let cutoff = now - lookbackDays * 24 * 60 * 60 * 1000;
          allSignals = windowSignals cutoff t
      in if length allSignals = 0 then
           \<lparr>totalSignals = 0, winningSignals = 0, losingSignals = 0, breakevenSignals = 0,
            winRate = Num 0, averageWin = Num 0, averageLoss = Num 0, profitFactor = Num 0,
            expectancy = Num 0, sharpeRatio = Num 0, topPatterns = [], bestTimeframe = ''N/A'',
            confidenceCorrelation = Num 0\<rparr>
         else
           let n = Num (real (length allSignals));
               wins = filter (\<lambda>s. outcome s = Some win) allSignals;
               losses = filter (\<lambda>s. outcome s = Some loss) allSignals;
               nWin = length wins;
               nLoss = length losses;
               nBreakeven = length (filter (\<lambda>s. outcome s = Some breakeven) allSignals);
               totalGains = foldl (\<lambda>sum s. jadd sum (pct_or_0 s)) (Num 0) wins;
               totalLosses = foldl (\<lambda>sum s. jadd sum (jabs (pct_or_0 s))) (Num 0) losses;
               avgWin = (if nWin > 0 then jdiv totalGains (Num (real nWin)) else Num 0);
               avgLoss = (if nLoss > 0 then jdiv totalLosses (Num (real nLoss)) else Num 0);
               pf = (if jgt totalLosses (Num 0) then jdiv totalGains totalLosses else Num 999);
               expect = jsub (jmul (jdiv (Num (real nWin)) n) avgWin)
                             (jmul (jdiv (Num (real nLoss)) n) avgLoss);
               returns = map pct_or_0 allSignals;
               avgReturn = jdiv (foldl jadd (Num 0) returns) n;
               variance = jdiv (foldl (\<lambda>sum r. jadd sum (Math_pow2 (jsub r avgReturn)))
                                      (Num 0) returns) n;
               stdDev = jor (Math_sqrt variance) (Num 1);
               sharpe = jmul (jdiv avgReturn stdDev) (Math_sqrt (Num 252));
               highConfidence = filter (\<lambda>s. jge (sr_confidence s) (Num 80)) allSignals;
               lowConfidence = filter (\<lambda>s. jlt (sr_confidence s) (Num 80)) allSignals;
               correlation = jsub (win_percent highConfidence) (win_percent lowConfidence)
           in \<lparr>totalSignals = length allSignals,
               winningSignals = nWin,
               losingSignals = nLoss,
               breakevenSignals = nBreakeven,
               winRate = Math_round (jmul (jdiv (Num (real nWin)) n) (Num 100)),
               averageWin = round2 avgWin,
               averageLoss = round2 avgLoss,
               profitFactor = round2 pf,
               expectancy = round2 expect,
               sharpeRatio = round2 sharpe,
               topPatterns = topPatternsOf allSignals,
               bestTimeframe = ''1h'',
               confidenceCorrelation = Math_round correlation\<rparr>)"


section \<open>Concrete inputs and auxiliary notions\<close>

text \<open>An analysis whose confluence is 50 percent, below the threshold of 60, while the other
  four checks pass.\<close>

definition low_confluence_input :: AdvancedAnalysisResult where
  "low_confluence_input =
     \<lparr>confluence = Some \<lparr>totalIndicators = 10, agreeingIndicators = 1, confluencePercent = Num 50,
                          bullishCount = 1, bearishCount = 1, confidenceLevel = cl_low,
                          tradeable = False\<rparr>,
      timeframeAlignment = Some ''bullish'',
      riskReward = Some \<lparr>entryPrice = Num 100, takeProfit = Num 106, stopLoss = Num 97,
                         riskRewardRatio = Num 2, isValid = True, positionSize = Num 6666.67,
                         potentialGain = Num 6, potentialLoss = Num 3\<rparr>,
      smartEntry = Some \<lparr>shouldEnter = True, reason = ''High confluence + pattern confirmation'',
                         entryType = immediate, entryPrice_se = Num 100, entryWaitTime = Num 0\<rparr>,
      marketRegime = Some \<lparr>regime = trending, adxValue = Num 30, volatility = vol_medium,
                           recommendation = ''Trade with trend confirmation''\<rparr>\<rparr>"

text \<open>Labels that match a bullish and a bearish keyword at once.\<close>

definition both_ways_input :: ConfluenceIndicators where
  "both_ways_input =
     \<lparr>ci_rsi_value = Num 50,
      ci_rsi_signal = ''Bullish Bearish'',
      ci_macd_signal = ''Bullish Bearish'',
      ci_ema_signal = ''Bullish Bearish'',
      ci_bollinger_position = ''Lower Upper'',
      ci_vwap_price_vs_vwap = ''Above Below'',
      ci_adx_strength = ''Weak'',
      ci_stoch_signal = ''Bullish Bearish'',
      ci_ichimoku_cloud_signal = ''Bullish Bearish'',
      ci_obv_trend = ''Bullish'',
      ci_atr_volatility = ''Low''\<rparr>"

text \<open>Labels as the calculators produce them: three bullish, two bearish.\<close>

definition mixed_input :: ConfluenceIndicators where
  "mixed_input =
     \<lparr>ci_rsi_value = Num 62,
      ci_rsi_signal = ''Strong Bullish'',
      ci_macd_signal = ''Weak Bullish'',
      ci_ema_signal = ''Strong Bullish Alignment'',
      ci_bollinger_position = ''Upper Half'',
      ci_vwap_price_vs_vwap = ''Below VWAP (Bearish)'',
      ci_adx_strength = ''Moderate'',
      ci_stoch_signal = ''Neutral'',
      ci_ichimoku_cloud_signal = ''Neutral'',
      ci_obv_trend = ''Neutral'',
      ci_atr_volatility = ''Low''\<rparr>"

text \<open>Labels of which none fires.\<close>

definition quiet_input :: ConfluenceIndicators where
  "quiet_input =
     \<lparr>ci_rsi_value = Num 50,
      ci_rsi_signal = ''Insufficient Data'',
      ci_macd_signal = ''Insufficient Data'',
      ci_ema_signal = ''Neutral'',
      ci_bollinger_position = ''Insufficient Data'',
      ci_vwap_price_vs_vwap = ''Near VWAP (Consolidation)'',
      ci_adx_strength = ''Weak'',
      ci_stoch_signal = ''Insufficient Data'',
      ci_ichimoku_cloud_signal = ''Insufficient Data'',
      ci_obv_trend = ''Neutral'',
      ci_atr_volatility = ''Insufficient Data''\<rparr>"

text \<open>No indicator label fires as bullish and as bearish at once.\<close>

definition exclusive_labels :: "ConfluenceIndicators \<Rightarrow> bool" where
  "exclusive_labels i = list_all2 (\<lambda>b r. \<not> (b \<and> r)) (bullishSignals i) (bearishSignals i)"

text \<open>Twenty samples of the constant value 100.\<close>

definition flat_window :: "jsnum list" where
  "flat_window = replicate 20 (Num 100)"

text \<open>A window shorter than every default period, and one of 30 samples.\<close>

definition short_window :: "jsnum list" where
  "short_window = [Num 1, Num 2, Num 3]"


text \<open>A setup on a price of 0.00000002, and one on negative prices.\<close>

definition tiny_entry :: RiskRewardSetup where
  "tiny_entry =
     calculateRiskReward (dbl (Num (2 / 10 ^ 8))) (dbl (Num (19 / 10 ^ 9)))
       (dbl (Num (21 / 10 ^ 9))) (dbl (Num (1 / 10 ^ 9))) (Num 2)"

definition negative_entry :: RiskRewardSetup where
  "negative_entry =
     calculateRiskReward (Num (- 99.5)) (Num (- 100)) (Num (- 99)) (dbl (Num 0.1)) (Num 2)"

text \<open>A full ledger: 10000 open signals with distinct ids and the timestamps 1000, 1001, ...;
  and two signals with fresh ids, one older and one newer than all of them.\<close>

definition base_signal :: SignalRecord where
  "base_signal =
     \<lparr>sr_id = ''s'', timestamp = 1000, symbol = ''SOL'', sr_entryPrice = Num 100,
      takeProfitPrice = Num 106, stopLossPrice = Num 97, signalType = ST_BUY,
      sr_confidence = Num 80, sr_confluencePercent = Num 75, patternDetected = None,
      sr_adxValue = Num 30, rsiValue = Num 55, macdSignal = ''Weak Bullish'',
      exitPrice = None, exitTime = None, outcome = None, profitLoss = None,
      profitLossPercent = None, sr_notes = None\<rparr>"

definition numbered_signal :: "nat \<Rightarrow> SignalRecord" where
  "numbered_signal i = base_signal\<lparr>sr_id := replicate (Suc i) CHR ''s'', timestamp := 1000 + real i\<rparr>"

definition full_tracker :: WinRateTracker where
  "full_tracker =
     \<lparr>signals = map (\<lambda>i. (sr_id (numbered_signal i), numbered_signal i)) [0..<MAX_SIGNALS]\<rparr>"

definition early_signal :: SignalRecord where
  "early_signal = base_signal\<lparr>sr_id := ''early'', timestamp := 0\<rparr>"

definition late_signal :: SignalRecord where
  "late_signal = base_signal\<lparr>sr_id := ''late'', timestamp := 20000\<rparr>"

text \<open>
  Ledgers built through the ledger's own operations, queried at the clock value
  3000000000 ms with a lookback of 30 days: one signal closed 5 percent up and one closed
  2 percent down; one closed 1 percent up and one closed 3 percent down; and the empty
  ledger.
\<close>

definition empty_tracker :: WinRateTracker where
  "empty_tracker = \<lparr>signals = []\<rparr>"

definition two_signals :: WinRateTracker where
  "two_signals =
     recordSignal (base_signal\<lparr>sr_id := ''down'', timestamp := 2999998000\<rparr>)
       (recordSignal (base_signal\<lparr>sr_id := ''up'', timestamp := 2999999000\<rparr>) empty_tracker)"

definition scenario_tracker :: WinRateTracker where
  "scenario_tracker =
     updateSignalExit ''down'' (Num 98) (Num 2999999500) None
       (updateSignalExit ''up'' (Num 105) (Num 2999999500) None two_signals)"




text \<open>A ledger with one more record that is closed but 40 days old, and one that is recent
  but still open.\<close>

definition stale_tracker :: WinRateTracker where
  "stale_tracker =
     recordSignal (base_signal\<lparr>sr_id := ''open'', timestamp := 2999999900\<rparr>)
       (recordSignal (base_signal\<lparr>sr_id := ''old'', timestamp := - 456000000,
                                   exitPrice := Some (Num 120), exitTime := Some (Num 0),
                                   outcome := Some win, profitLoss := Some (Num 20),
                                   profitLossPercent := Some (Num 20)\<rparr>)
          scenario_tracker)"

text \<open>A token with a 24h volume of 24, a supplied history of three prices, and two states
  of the random generator, all draws in \<open>[0, 1)\<close>.\<close>

definition demo_metrics :: TokenMetrics where
  "demo_metrics =
     \<lparr>price = Num 1, priceChange24h = Num 5, priceChange1h = Num 1, priceChange5m = Num 0,
      volume24h = Num 24, liquidity = Num 50000, buys24h = Num 120, sells24h = Num 80,
      marketCap = Num 1000000\<rparr>"

definition up_down :: "jsnum list" where
  "up_down = [Num 1, Num 2, Num 1]"

definition draws_a :: rng where
  "draws_a n = (if n = 1 then 9 / 10 else 1 / 10)"

definition draws_b :: rng where
  "draws_b n = (if n = 2 then 9 / 10 else 1 / 10)"

definition draws_c :: rng where
  "draws_c n = (if n = 1 then 9 / 10 else if n < 6 then 1 / 10 else 1 / 2)"

text \<open>With a supplied history the aggregator draws twice its length: the volumes handed to
  OBV first, those handed to VWAP next.\<close>

definition obvVolumesOf :: "rng \<Rightarrow> TokenMetrics \<Rightarrow> nat \<Rightarrow> jsnum list" where
  "obvVolumesOf g metrics n = fst (generateVolumeHistory metrics n g)"

definition vwapVolumesOf :: "rng \<Rightarrow> TokenMetrics \<Rightarrow> nat \<Rightarrow> jsnum list" where
  "vwapVolumesOf g metrics n =
     fst (generateVolumeHistory metrics n (snd (generateVolumeHistory metrics n g)))"

section \<open>Arithmetic on finite numbers\<close>

lemma jlt_Num: "jlt (Num a) (Num b) = (a < b)"
  by simp

lemma jgt_Num [simp]: "jgt (Num a) (Num b) = (b < a)"
  by (simp add: jgt_def)

lemma jeq_Num [simp]: "jeq (Num a) (Num b) = (a = b)"
  by (simp add: jeq_def)

lemma jle_Num [simp]: "jle (Num a) (Num b) = (a \<le> b)"
  by (auto simp: jle_def)

lemma jge_Num [simp]: "jge (Num a) (Num b) = (b \<le> a)"
  by (simp add: jge_def)

lemma jsub_Num [simp]: "jsub (Num a) (Num b) = Num (a - b)"
  by (simp add: jsub_def)


lemma count_true_le: "count_true bs \<le> length bs"
  by (simp add: count_true_def)


section \<open>Rounding to doubles\<close>

lemma ilog2_bounds: "0 < x \<Longrightarrow> 2 powi ilog2 x \<le> x \<and> x < 2 powi (ilog2 x + 1)"
proof (induction x rule: ilog2.induct)
  case (1 x)
  show ?case
  proof (cases "2 \<le> x")
    case True
    then have eq: "ilog2 x = ilog2 (x / 2) + 1" using 1(3) by (subst ilog2.simps) simp
    from 1(1) [OF _ True] 1(3) have "2 powi ilog2 (x / 2) \<le> x / 2 \<and> x / 2 < 2 powi (ilog2 (x / 2) + 1)"
      by simp
    then show ?thesis unfolding eq by (simp add: power_int_add field_simps)
  next
    case False
    show ?thesis
    proof (cases "x < 1")
      case True
      then have eq: "ilog2 x = ilog2 (x * 2) - 1" using 1(3) False by (subst ilog2.simps) simp
      from 1(2) [OF _ False True] 1(3)
      have "2 powi ilog2 (x * 2) \<le> x * 2 \<and> x * 2 < 2 powi (ilog2 (x * 2) + 1)" by simp
      then show ?thesis unfolding eq by (simp add: power_int_diff power_int_add field_simps)
    next
      case nl: False
      then have "ilog2 x = 0" using 1(3) False by (subst ilog2.simps) simp
      with False nl show ?thesis by simp
    qed
  qed
qed

lemma binade_unique:
  fixes x :: real
  assumes "2 powi j \<le> x" "x < 2 powi (j + 1)" "2 powi k \<le> x" "x < 2 powi (k + 1)"
  shows "j = k"
proof (rule ccontr)
  assume "j \<noteq> k"
  then consider "j + 1 \<le> k" | "k + 1 \<le> j" by linarith
  then show False
  proof cases
    case 1
    then have "(2::real) powi (j + 1) \<le> 2 powi k" by (intro power_int_increasing) simp_all
    with assms show False by linarith
  next
    case 2
    then have "(2::real) powi (k + 1) \<le> 2 powi j" by (intro power_int_increasing) simp_all
    with assms show False by linarith
  qed
qed

lemma ilog2_eq: "2 powi k \<le> x \<Longrightarrow> x < 2 powi (k + 1) \<Longrightarrow> ilog2 x = k"
proof -
  assume a: "2 powi k \<le> x" "x < 2 powi (k + 1)"
  have "(0::real) < 2 powi k" by simp
  with a have "0 < x" by linarith
  from ilog2_bounds [OF this] a show ?thesis using binade_unique by blast
qed

lemma rne_disj:
  "(rne y = \<lfloor>y\<rfloor> \<and> y - of_int \<lfloor>y\<rfloor> \<le> 1 / 2)
   \<or> (rne y = \<lfloor>y\<rfloor> + 1 \<and> 1 / 2 \<le> y - of_int \<lfloor>y\<rfloor>)"
proof -
  consider "y - of_int \<lfloor>y\<rfloor> < 1 / 2" | "1 / 2 < y - of_int \<lfloor>y\<rfloor>"
    | "y - of_int \<lfloor>y\<rfloor> = 1 / 2" by linarith
  then show ?thesis
  proof cases
    case 1
    then show ?thesis by (simp add: rne_def Let_def)
  next
    case 2
    then show ?thesis by (simp add: rne_def Let_def)
  next
    case 3
    then show ?thesis by (simp add: rne_def Let_def)
  qed
qed

lemma rne_cases:
  obtains "rne y = \<lfloor>y\<rfloor>" "y - of_int \<lfloor>y\<rfloor> \<le> 1 / 2"
        | "rne y = \<lfloor>y\<rfloor> + 1" "1 / 2 \<le> y - of_int \<lfloor>y\<rfloor>"
  using rne_disj [of y] by blast

lemma rne_close: "\<bar>of_int (rne y) - y\<bar> \<le> 1 / 2"
proof (cases y rule: rne_cases)
  case 1
  then show ?thesis by linarith
next
  case 2
  then show ?thesis by linarith
qed

lemma rne_of_int [simp]: "rne (of_int n) = n"
  by (simp add: rne_def)

lemma rne_le_int: "y \<le> of_int n \<Longrightarrow> rne y \<le> n"
proof -
  assume a: "y \<le> of_int n"
  show ?thesis
  proof (cases "y = of_int n")
    case True
    then show ?thesis by simp
  next
    case False
    with a have "y < of_int n" by simp
    then have "\<lfloor>y\<rfloor> + 1 \<le> n" by linarith
    then show ?thesis by (cases y rule: rne_cases) simp_all
  qed
qed

lemma rne_ge_int: "of_int n \<le> y \<Longrightarrow> n \<le> rne y"
proof -
  assume "of_int n \<le> y"
  then have "n \<le> \<lfloor>y\<rfloor>" by linarith
  then show ?thesis by (cases y rule: rne_cases) simp_all
qed

lemma rne_mono: "x \<le> y \<Longrightarrow> rne x \<le> rne y"
proof (rule ccontr)
  assume xy: "x \<le> y" and "\<not> rne x \<le> rne y"
  then have gt: "rne y + 1 \<le> rne x" by simp
  have cx: "\<bar>of_int (rne x) - x\<bar> \<le> 1 / 2" and cy: "\<bar>of_int (rne y) - y\<bar> \<le> 1 / 2"
    by (rule rne_close)+
  from gt have "real_of_int (rne y) + 1 \<le> real_of_int (rne x)" by linarith
  with cx cy xy have "x = y" by linarith
  with gt show False by simp
qed

lemma rne_minus: "rne (- y) = - rne y"
proof (cases "y = of_int \<lfloor>y\<rfloor>")
  case True
  then obtain n where "y = of_int n" ..
  then show ?thesis by (simp flip: of_int_minus)
next
  case False
  then have fl: "\<lfloor>- y\<rfloor> = - \<lfloor>y\<rfloor> - 1"
    by (metis Ints_of_int ceiling_altdef ceiling_def minus_diff_eq minus_minus Ints_cases of_int_floor_cancel diff_minus_eq_add uminus_add_conv_diff)
  have r: "- y - of_int \<lfloor>- y\<rfloor> = 1 - (y - of_int \<lfloor>y\<rfloor>)" unfolding fl by simp
  have ev: "even (- \<lfloor>y\<rfloor> - 1) \<longleftrightarrow> odd \<lfloor>y\<rfloor>" by simp
  show ?thesis
    unfolding rne_def Let_def r unfolding fl ev
    by (auto simp: field_simps)
qed

lemma ilog2_mono: "0 < x \<Longrightarrow> x \<le> y \<Longrightarrow> ilog2 x \<le> ilog2 y"
proof (rule ccontr)
  assume x: "0 < x" and xy: "x \<le> y" and "\<not> ilog2 x \<le> ilog2 y"
  then have "ilog2 y + 1 \<le> ilog2 x" by simp
  then have "(2::real) powi (ilog2 y + 1) \<le> 2 powi ilog2 x"
    by (intro power_int_increasing) simp_all
  moreover from x xy have "0 < y" by simp
  ultimately show False using ilog2_bounds [OF x] ilog2_bounds [OF \<open>0 < y\<close>] xy by linarith
qed

lemma spacing_pos [simp]: "0 < spacing x"
  by (simp add: spacing_def)

lemma spacing_nonneg [simp]: "0 \<le> spacing x"
  by (simp add: spacing_def)

lemma spacing_neq0 [simp]: "spacing x \<noteq> 0"
  by (simp add: spacing_def)

lemma rne_0 [simp]: "rne 0 = 0"
  using rne_of_int [of 0] by simp

lemma binade_minus [simp]: "binade (- x) = binade x"
  by (simp add: binade_def)

lemma spacing_minus [simp]: "spacing (- x) = spacing x"
  by (simp add: spacing_def)

lemma fl64_minus: "fl64 (- x) = - fl64 x"
  by (simp add: fl64_def rne_minus)

lemma fl64_0 [simp]: "fl64 0 = 0"
  by (simp add: fl64_def)

lemma binade_mono: "x \<noteq> 0 \<Longrightarrow> \<bar>x\<bar> \<le> \<bar>y\<bar> \<Longrightarrow> binade x \<le> binade y"
  using ilog2_mono [of "\<bar>x\<bar>" "\<bar>y\<bar>"] by (simp add: binade_def)

lemma spacing_divides:
  assumes "binade x \<le> binade y"
  shows "spacing y = of_int (2 ^ nat (binade y - binade x)) * spacing x"
proof -
  have "binade y - 52 = (binade y - binade x) + (binade x - 52)" by simp
  then have "spacing y = 2 powi (binade y - binade x) * spacing x"
    unfolding spacing_def by (metis power_int_add zero_neq_numeral)
  moreover have "(2::real) powi (binade y - binade x) = 2 ^ nat (binade y - binade x)"
    using assms by (simp add: power_int_def)
  ultimately show ?thesis by simp
qed

text \<open>A double is a whole multiple of the spacing of every number of no greater magnitude.\<close>

lemma representable_multiple:
  assumes d: "representable d" and x: "x \<noteq> 0" and le: "\<bar>x\<bar> \<le> \<bar>d\<bar>"
  shows "\<exists>N. d = of_int N * spacing x"
proof -
  define M where "M = rne (d / spacing d)"
  from d have "d = of_int M * spacing d"
    by (simp add: representable_def fl64_def M_def)
  also have "spacing d = of_int (2 ^ nat (binade d - binade x)) * spacing x"
    using binade_mono [OF x le] by (rule spacing_divides)
  finally have "d = of_int (M * 2 ^ nat (binade d - binade x)) * spacing x"
    by simp
  then show ?thesis ..
qed

lemma fl64_nonneg: "0 \<le> x \<Longrightarrow> 0 \<le> fl64 x"
proof -
  assume "0 \<le> x"
  then have "of_int 0 \<le> x / spacing x" by simp
  then have "0 \<le> rne (x / spacing x)" by (rule rne_ge_int)
  then show ?thesis by (simp add: fl64_def)
qed

lemma fl64_nonpos: "x \<le> 0 \<Longrightarrow> fl64 x \<le> 0"
  using fl64_nonneg [of "- x"] by (simp add: fl64_minus)

lemma fl64_le_representable_pos:
  assumes d: "representable d" and x: "0 < x" and le: "x \<le> d"
  shows "fl64 x \<le> d"
proof -
  from representable_multiple [OF d, of x] x le obtain N where N: "d = of_int N * spacing x" by auto
  with le have "x / spacing x \<le> of_int N" by (simp add: field_simps)
  then have "rne (x / spacing x) \<le> N" by (rule rne_le_int)
  then have "of_int (rne (x / spacing x)) * spacing x \<le> of_int N * spacing x"
    by (simp add: mult_right_mono)
  then show ?thesis by (simp add: fl64_def N)
qed

lemma pow2_multiple:
  assumes "- 1022 < ilog2 x" "0 < x"
  shows "2 powi ilog2 x = of_int (2 ^ 52) * spacing x"
proof -
  from assms have b: "binade x = ilog2 x" by (simp add: binade_def)
  have "(2::real) powi ilog2 x = 2 powi 52 * 2 powi (ilog2 x - 52)"
    by (metis add.commute diff_add_cancel power_int_add zero_neq_numeral)
  then show ?thesis by (simp add: spacing_def b)
qed

lemma fl64_ge_representable_pos:
  assumes d: "representable d" and dp: "0 < d" and le: "d \<le> x"
  shows "d \<le> fl64 x"
proof -
  from dp le have x: "0 < x" by simp
  have bm: "binade d \<le> binade x" using dp le by (intro binade_mono) simp_all
  show ?thesis
  proof (cases "binade d = binade x")
    case True
    then have sp: "spacing d = spacing x" by (simp add: spacing_def)
    from d have dN: "d = of_int (rne (d / spacing d)) * spacing x"
      by (simp add: representable_def fl64_def sp)
    define N where "N = rne (d / spacing d)"
    from dN le have "of_int N \<le> x / spacing x" by (simp add: field_simps N_def)
    then have "N \<le> rne (x / spacing x)" by (rule rne_ge_int)
    then have "of_int N * spacing x \<le> of_int (rne (x / spacing x)) * spacing x"
      by (simp add: mult_right_mono)
    then show ?thesis using dN by (simp add: fl64_def N_def)
  next
    case False
    with bm have lt: "binade d < binade x" by simp
    then have n: "- 1022 < ilog2 x" and i: "ilog2 d < ilog2 x"
      using x dp by (auto simp: binade_def max_def split: if_splits)
    from i have "(2::real) powi (ilog2 d + 1) \<le> 2 powi ilog2 x"
      by (intro power_int_increasing) simp_all
    with ilog2_bounds [OF dp] have dlt: "d < 2 powi ilog2 x" by linarith
    have "of_int (2 ^ 52) \<le> x / spacing x"
      using ilog2_bounds [OF x] pow2_multiple [OF n x] by (simp add: field_simps)
    then have "2 ^ 52 \<le> rne (x / spacing x)" by (rule rne_ge_int)
    then have "of_int (2 ^ 52) * spacing x \<le> of_int (rne (x / spacing x)) * spacing x"
      by (intro mult_right_mono) (simp_all only: of_int_le_iff spacing_pos less_imp_le)
    then have "2 powi ilog2 x \<le> fl64 x"
      unfolding pow2_multiple [OF n x] fl64_def .
    with dlt show ?thesis by linarith
  qed
qed

lemma representable_0 [simp]: "representable 0"
  by (simp add: representable_def)

lemma representable_minus [simp]: "representable (- d) \<longleftrightarrow> representable d"
  by (simp add: representable_def fl64_minus)

text \<open>Rounding never crosses a double.\<close>

lemma fl64_le_representable: "representable d \<Longrightarrow> x \<le> d \<Longrightarrow> fl64 x \<le> d"
proof -
  assume d: "representable d" and le: "x \<le> d"
  consider "0 < x" | "x \<le> 0" "0 \<le> d" | "x \<le> 0" "d < 0" by linarith
  then show ?thesis
  proof cases
    case 1
    show ?thesis using d 1 le by (rule fl64_le_representable_pos)
  next
    case 2
    then show ?thesis using fl64_nonpos [of x] by simp
  next
    case 3
    have "- d \<le> fl64 (- x)"
      using d 3 le by (intro fl64_ge_representable_pos) simp_all
    then show ?thesis by (simp add: fl64_minus)
  qed
qed

lemma fl64_ge_representable: "representable d \<Longrightarrow> d \<le> x \<Longrightarrow> d \<le> fl64 x"
  using fl64_le_representable [of "- d" "- x"] by (simp add: fl64_minus)

lemma fl64_representable [simp]: "representable d \<Longrightarrow> fl64 d = d"
  by (simp add: representable_def)

lemma pow2_split: "(2::real) powi (a + b) = 2 powi a * 2 powi b"
  by (simp add: power_int_add)

lemma representable_scaled: "d = of_int N * spacing d \<Longrightarrow> representable d"
proof -
  assume d: "d = of_int N * spacing d"
  have "d / spacing d = of_int N" by (subst d) simp
  then have "fl64 d = of_int N * spacing d" by (simp add: fl64_def)
  with d show ?thesis by (simp add: representable_def)
qed

lemma ilog2_less:
  assumes "0 < x" "x < 2 powi k"
  shows "ilog2 x < k"
proof (rule ccontr)
  assume "\<not> ilog2 x < k"
  then have "(2::real) powi k \<le> 2 powi ilog2 x"
    by (intro power_int_increasing) simp_all
  with ilog2_bounds [OF assms(1)] assms(2) show False by linarith
qed

lemma ilog2_ge:
  assumes "2 powi k \<le> x"
  shows "k \<le> ilog2 x"
proof (rule ccontr)
  assume "\<not> k \<le> ilog2 x"
  then have "(2::real) powi (ilog2 x + 1) \<le> 2 powi k"
    by (intro power_int_increasing) simp_all
  moreover have "0 < x" using assms zero_less_power_int [of "2::real" k] by linarith
  ultimately show False using ilog2_bounds [of x] assms by linarith
qed

lemma representable_dyadic:
  assumes m: "\<bar>m\<bar> < 2 ^ 53" and q: "- 1074 \<le> q"
  shows "representable (of_int m * 2 powi q)"
proof (cases "m = 0")
  case True
  then show ?thesis by simp
next
  case False
  define d :: real where "d = of_int m * 2 powi q"
  have dpos: "0 < \<bar>d\<bar>" using False by (simp add: d_def)
  have "\<bar>d\<bar> = of_int \<bar>m\<bar> * 2 powi q" by (simp add: d_def abs_mult)
  also have "\<dots> < of_int (2 ^ 53) * 2 powi q"
    using m by (intro mult_strict_right_mono) (simp_all only: of_int_less_iff zero_less_power_int zero_less_numeral)
  also have "\<dots> = 2 powi (q + 53)" by (simp add: power_int_add)
  finally have "ilog2 \<bar>d\<bar> < q + 53" using dpos by (intro ilog2_less)
  with q have b: "binade d - 52 \<le> q" by (simp add: binade_def)
  define j where "j = nat (q - (binade d - 52))"
  have "q = int j + (binade d - 52)" using b by (simp add: j_def)
  then have "(2::real) powi q = 2 ^ j * spacing d"
    by (simp add: spacing_def power_int_add)
  then have "d = of_int (m * 2 ^ j) * spacing d" by (simp add: d_def)
  then have "representable d" by (rule representable_scaled)
  then show ?thesis by (simp add: d_def)
qed

lemma representable_pow2: "- 1074 \<le> k \<Longrightarrow> representable (2 powi k)"
  using representable_dyadic [of 1 k] by simp

lemma representable_of_int: "\<bar>n\<bar> \<le> 2 ^ 53 \<Longrightarrow> representable (of_int n)"
proof (cases "\<bar>n\<bar> = 2 ^ 53")
  case True
  then have "n = 2 ^ 53 \<or> n = - (2 ^ 53)" by linarith
  then have "(of_int n :: real) = 2 powi 53 \<or> (of_int n :: real) = - (2 powi 53)" by auto
  then show ?thesis using representable_pow2 [of 53] by auto
next
  case False
  assume "\<bar>n\<bar> \<le> 2 ^ 53"
  with False have "\<bar>n\<bar> < 2 ^ 53" by simp
  from representable_dyadic [OF this, of 0] show ?thesis by simp
qed

lemma abs_less_next_binade: "x \<noteq> 0 \<Longrightarrow> \<bar>x\<bar> < 2 powi (binade x + 1)"
proof -
  assume "x \<noteq> 0"
  then have "\<bar>x\<bar> < 2 powi (ilog2 \<bar>x\<bar> + 1)" using ilog2_bounds [of "\<bar>x\<bar>"] by simp
  also have "\<dots> \<le> 2 powi (binade x + 1)"
    by (intro power_int_increasing) (simp_all add: binade_def)
  finally show ?thesis .
qed

lemma significand_bound:
  "rne (x / spacing x) \<le> 2 ^ 53" "- (2 ^ 53) \<le> rne (x / spacing x)"
proof -
  have b: "\<bar>x\<bar> / spacing x \<le> 2 ^ 53"
  proof (cases "x = 0")
    case True then show ?thesis by simp
  next
    case False
    have "binade x + 1 = 53 + (binade x - 52)" by simp
    then have "(2::real) powi (binade x + 1) = 2 powi 53 * 2 powi (binade x - 52)"
      by (simp only: pow2_split)
    with abs_less_next_binade [OF False] have "\<bar>x\<bar> < 2 ^ 53 * spacing x"
      by (simp add: spacing_def)
    then show ?thesis by (simp add: pos_divide_le_eq)
  qed
  have "x / spacing x \<le> \<bar>x\<bar> / spacing x" by (simp add: divide_right_mono)
  with b have "x / spacing x \<le> of_int (2 ^ 53)" by simp
  then show "rne (x / spacing x) \<le> 2 ^ 53" by (rule rne_le_int)
  have "(- \<bar>x\<bar>) / spacing x \<le> x / spacing x"
    by (intro divide_right_mono) simp_all
  then have "- (\<bar>x\<bar> / spacing x) \<le> x / spacing x" by simp
  with b have "of_int (- (2 ^ 53)) \<le> x / spacing x" by simp
  then show "- (2 ^ 53) \<le> rne (x / spacing x)" by (rule rne_ge_int)
qed

text \<open>The rounding of a number is a double.\<close>

lemma representable_fl64 [simp]: "representable (fl64 x)"
proof -
  define N where "N = rne (x / spacing x)"
  have f: "fl64 x = of_int N * 2 powi (binade x - 52)"
    by (simp add: fl64_def N_def spacing_def)
  have q: "- 1074 \<le> binade x - 52" by (simp add: binade_def)
  from significand_bound [of x] have "\<bar>N\<bar> \<le> 2 ^ 53" by (simp add: N_def)
  then consider "\<bar>N\<bar> < 2 ^ 53" | "N = 2 ^ 53" | "N = - (2 ^ 53)" by linarith
  then show ?thesis
  proof cases
    case 1
    from representable_dyadic [OF this q] show ?thesis by (simp add: f)
  next
    case 2
    have e: "53 + (binade x - 52) = binade x + 1" by simp
    have "fl64 x = 2 powi 53 * 2 powi (binade x - 52)" by (simp add: f 2)
    also have "\<dots> = 2 powi (binade x + 1)" by (simp only: pow2_split [symmetric] e)
    finally show ?thesis using q by (simp add: representable_pow2)
  next
    case 3
    have e: "53 + (binade x - 52) = binade x + 1" by simp
    have "fl64 x = - (2 powi 53 * 2 powi (binade x - 52))" by (simp add: f 3)
    also have "\<dots> = - (2 powi (binade x + 1))" by (simp only: pow2_split [symmetric] e)
    finally show ?thesis using q by (simp add: representable_pow2)
  qed
qed

lemma fl64_idem [simp]: "fl64 (fl64 x) = fl64 x"
  using representable_fl64 [of x] unfolding representable_def .

lemma fl64_mono_pos:
  assumes x: "0 < x" and le: "x \<le> y"
  shows "fl64 x \<le> fl64 y"
proof (cases "binade x = binade y")
  case True
  then have s: "spacing x = spacing y" by (simp add: spacing_def)
  have "x / spacing y \<le> y / spacing y" using le by (simp add: divide_right_mono)
  then have "rne (x / spacing y) \<le> rne (y / spacing y)" by (rule rne_mono)
  then show ?thesis by (simp add: fl64_def s mult_right_mono)
next
  case False
  from x le have y: "0 < y" by simp
  have "binade x \<le> binade y" using x le by (intro binade_mono) simp_all
  with False have lt: "binade x < binade y" by simp
  then have n: "- 1022 < ilog2 y" and i: "ilog2 x < ilog2 y"
    using x y by (auto simp: binade_def max_def split: if_splits)
  from i have "(2::real) powi (ilog2 x + 1) \<le> 2 powi ilog2 y"
    by (intro power_int_increasing) simp_all
  with ilog2_bounds [OF x] have a: "x \<le> 2 powi ilog2 y" by linarith
  have p: "representable (2 powi ilog2 y)" using n by (intro representable_pow2) simp
  from ilog2_bounds [OF y] have b: "2 powi ilog2 y \<le> y" by simp
  from fl64_le_representable [OF p a] fl64_ge_representable [OF p b] show ?thesis by linarith
qed

text \<open>Rounding is monotone.\<close>

lemma fl64_mono: "x \<le> y \<Longrightarrow> fl64 x \<le> fl64 y"
proof -
  assume le: "x \<le> y"
  consider "0 < x" | "x \<le> 0" "0 \<le> y" | "y < 0" by linarith
  then show ?thesis
  proof cases
    case 1
    then show ?thesis using le by (rule fl64_mono_pos)
  next
    case 2
    then show ?thesis using fl64_nonpos [of x] fl64_nonneg [of y] by simp
  next
    case 3
    then have "fl64 (- y) \<le> fl64 (- x)" using le by (intro fl64_mono_pos) simp_all
    then show ?thesis by (simp add: fl64_minus)
  qed
qed

lemma fl64_close: "\<bar>fl64 x - x\<bar> \<le> spacing x / 2"
proof -
  have "fl64 x - x = (of_int (rne (x / spacing x)) - x / spacing x) * spacing x"
    by (simp add: fl64_def left_diff_distrib)
  then have "\<bar>fl64 x - x\<bar> = \<bar>of_int (rne (x / spacing x)) - x / spacing x\<bar> * spacing x"
    by (simp add: abs_mult)
  also have "\<dots> \<le> 1 / 2 * spacing x"
    by (intro mult_right_mono rne_close) simp
  finally show ?thesis by simp
qed

text \<open>In the normal range a rounding has a relative error of at most \<open>2\<^sup>-\<^sup>5\<^sup>3\<close>.\<close>

lemma fl64_rel:
  assumes "2 powi (- 1022) \<le> \<bar>x\<bar>"
  shows "\<bar>fl64 x - x\<bar> \<le> \<bar>x\<bar> / 2 ^ 53"
proof -
  from assms have "- 1022 \<le> ilog2 \<bar>x\<bar>" by (rule ilog2_ge)
  then have b: "binade x = ilog2 \<bar>x\<bar>" by (simp add: binade_def)
  have pos: "0 < \<bar>x\<bar>" using assms zero_less_power_int [of "2::real" "- 1022"] by linarith
  have "ilog2 \<bar>x\<bar> = 52 + (ilog2 \<bar>x\<bar> - 52)" by simp
  then have "(2::real) powi ilog2 \<bar>x\<bar> = 2 powi 52 * 2 powi (ilog2 \<bar>x\<bar> - 52)"
    by (metis pow2_split)
  then have "spacing x = 2 powi ilog2 \<bar>x\<bar> / 2 ^ 52" by (simp add: spacing_def b)
  also have "\<dots> \<le> \<bar>x\<bar> / 2 ^ 52"
    using ilog2_bounds [OF pos] by (simp add: divide_right_mono)
  finally have "spacing x / 2 \<le> \<bar>x\<bar> / 2 ^ 53" by simp
  with fl64_close [of x] show ?thesis by linarith
qed

lemma rne_eq: "\<bar>y - of_int n\<bar> < 1 / 2 \<Longrightarrow> rne y = n"
proof -
  assume a: "\<bar>y - of_int n\<bar> < 1 / 2"
  consider "\<lfloor>y\<rfloor> = n" | "\<lfloor>y\<rfloor> = n - 1"
  proof -
    from a have "y - of_int n < 1 / 2" "- (1 / 2) < y - of_int n" by linarith+
    then have "of_int (n - 1) \<le> y" "y < of_int (n + 1)" by simp_all
    then have "n - 1 \<le> \<lfloor>y\<rfloor>" "\<lfloor>y\<rfloor> < n + 1"
      by (simp_all only: le_floor_iff floor_less_iff)
    then have "\<lfloor>y\<rfloor> = n \<or> \<lfloor>y\<rfloor> = n - 1" by linarith
    with that show ?thesis by blast
  qed
  then show ?thesis
  proof cases
    case 1
    with a have "y - of_int \<lfloor>y\<rfloor> < 1 / 2" by linarith
    then show ?thesis unfolding rne_def Let_def using 1 by (simp only: if_True)
  next
    case 2
    then have "(of_int \<lfloor>y\<rfloor> :: real) = of_int n - 1" by simp
    with a have "1 / 2 < y - of_int \<lfloor>y\<rfloor>" by linarith
    then have "\<not> y - of_int \<lfloor>y\<rfloor> < 1 / 2" "1 / 2 < y - of_int \<lfloor>y\<rfloor>" by linarith+
    then show ?thesis unfolding rne_def Let_def using 2 by (simp only: if_True if_False)
  qed
qed

lemma rne_tie: "y = of_int n + 1 / 2 \<Longrightarrow> rne y = (if even n then n else n + 1)"
proof -
  assume y: "y = of_int n + 1 / 2"
  have "\<lfloor>y\<rfloor> = n" unfolding y by (rule floor_unique) simp_all
  then show ?thesis by (simp add: rne_def Let_def y)
qed

text \<open>Evaluation of a rounding from its binade \<open>k\<close> and its significand \<open>n\<close>.\<close>

lemma fl64_eval:
  assumes lo: "2 powi k \<le> \<bar>x\<bar>" and hi: "\<bar>x\<bar> < 2 powi (k + 1)" and k: "- 1022 \<le> k"
    and n: "\<bar>x * 2 powi (52 - k) - of_int n\<bar> < 1 / 2"
  shows "fl64 x = of_int n / 2 powi (52 - k)"
proof -
  from lo hi have "ilog2 \<bar>x\<bar> = k" by (rule ilog2_eq)
  with k have b: "binade x = k" by (simp add: binade_def)
  have s: "spacing x = 1 / 2 powi (52 - k)"
    by (simp add: spacing_def b power_int_diff power_int_minus field_simps)
  have "rne (x / spacing x) = n" using n by (intro rne_eq) (simp add: s)
  then show ?thesis by (simp add: fl64_def) (simp add: s)
qed

lemma fl64_eval_tie:
  assumes lo: "2 powi k \<le> \<bar>x\<bar>" and hi: "\<bar>x\<bar> < 2 powi (k + 1)" and k: "- 1022 \<le> k"
    and n: "x * 2 powi (52 - k) = of_int n + 1 / 2"
  shows "fl64 x = of_int (if even n then n else n + 1) / 2 powi (52 - k)"
proof -
  from lo hi have "ilog2 \<bar>x\<bar> = k" by (rule ilog2_eq)
  with k have b: "binade x = k" by (simp add: binade_def)
  have s: "spacing x = 1 / 2 powi (52 - k)"
    by (simp add: spacing_def b power_int_diff power_int_minus field_simps)
  have "x / spacing x = of_int n + 1 / 2" using n by (simp add: s)
  then have "rne (x / spacing x) = (if even n then n else n + 1)" by (rule rne_tie)
  then show ?thesis by (simp add: fl64_def) (simp add: s)
qed



lemma overflow_gt: "n < 1024 \<Longrightarrow> 2 ^ n < overflow"
  unfolding overflow_def by (rule power_strict_increasing) simp_all

lemma overflow_pos [simp]: "0 < overflow"
  by (simp only: overflow_def zero_less_power zero_less_numeral)

lemma overflow_not_le [simp]: "\<not> overflow \<le> 0"
  using overflow_pos by linarith

lemma dbl_Num_cases:
  obtains (finite) "dbl (Num x) = Num (fl64 x)" "\<bar>fl64 x\<bar> < overflow"
  | (over) "dbl (Num x) = PInf" "0 < x" "overflow \<le> fl64 x"
  | (under) "dbl (Num x) = NInf" "x < 0" "fl64 x \<le> - overflow"
proof (cases "overflow \<le> \<bar>fl64 x\<bar>")
  case False
  then show ?thesis using finite by (simp add: dbl_def)
next
  case True
  show ?thesis
  proof (cases "0 < x")
    case pos: True
    then have "0 \<le> fl64 x" by (intro fl64_nonneg) simp
    with True pos show ?thesis using over by (simp add: dbl_def)
  next
    case neg: False
    then have "fl64 x \<le> 0" by (intro fl64_nonpos) simp
    moreover from True have "x \<noteq> 0" by auto
    ultimately show ?thesis using True neg under by (simp add: dbl_def)
  qed
qed

lemma dbl_double: "is_double x \<Longrightarrow> dbl (Num x) = Num x"
  by (simp add: is_double_def dbl_def)

lemma is_double_fl64: "\<bar>fl64 x\<bar> < overflow \<Longrightarrow> is_double (fl64 x)"
  by (simp add: is_double_def)

lemma dbl_not_NaN: "a \<noteq> NaN \<Longrightarrow> dbl a \<noteq> NaN"
  by (cases a) (simp_all add: dbl_def)

lemma jle_refl: "a \<noteq> NaN \<Longrightarrow> jle a a"
  by (simp add: jle_def jeq_def)

lemma jle_PInf: "a \<noteq> NaN \<Longrightarrow> jle a PInf"
  by (cases a) (simp_all add: jle_def jeq_def)

lemma jle_NInf: "a \<noteq> NaN \<Longrightarrow> jle NInf a"
  by (cases a) (simp_all add: jle_def jeq_def)

text \<open>The rounding to a double is monotone, overflow included.\<close>

lemma dbl_mono: "jle a b \<Longrightarrow> jle (dbl a) (dbl b)"
proof (cases a; cases b)
  fix x y
  assume a: "a = Num x" and b: "b = Num y" and "jle a b"
  then have xy: "x \<le> y" by (simp add: jle_Num)
  then have m: "fl64 x \<le> fl64 y" by (rule fl64_mono)
  show ?thesis
  proof (cases x rule: dbl_Num_cases)
    case finite
    show ?thesis
    proof (cases y rule: dbl_Num_cases)
      case finite
      with \<open>dbl (Num x) = Num (fl64 x)\<close> m show ?thesis by (simp add: a b jle_Num)
    next
      case over
      with \<open>dbl (Num x) = Num (fl64 x)\<close> show ?thesis by (simp add: a b jle_PInf)
    next
      case under
      with finite m show ?thesis by (simp add: abs_less_iff)
    qed
  next
    case over
    then have "0 < y" "overflow \<le> \<bar>fl64 y\<bar>" using xy m by simp_all
    then have "dbl (Num y) = PInf" by (simp add: dbl_def)
    with over show ?thesis by (simp add: a b jle_PInf)
  next
    case under
    then show ?thesis by (simp add: a b jle_NInf dbl_not_NaN)
  qed
qed (auto simp: jle_def jeq_def dbl_def)

lemma round_dec_mono: "x \<le> y \<Longrightarrow> round_dec d x \<le> round_dec d y"
proof -
  assume xy: "x \<le> y"
  have p: "(0::real) < 10 ^ d" by simp
  have up: "a \<le> b \<Longrightarrow> of_int \<lfloor>a * 10 ^ d + 1 / 2\<rfloor> / 10 ^ d \<le> (of_int \<lfloor>b * 10 ^ d + 1 / 2\<rfloor> / 10 ^ d :: real)"
    for a b :: real
  proof -
    assume "a \<le> b"
    then have "a * 10 ^ d + 1 / 2 \<le> b * 10 ^ d + 1 / 2" by simp
    then have "\<lfloor>a * 10 ^ d + 1 / 2\<rfloor> \<le> \<lfloor>b * 10 ^ d + 1 / 2\<rfloor>" by (rule floor_mono)
    then show ?thesis by (simp add: divide_right_mono)
  qed
  have nn: "0 \<le> b \<Longrightarrow> (0::real) \<le> of_int \<lfloor>b * 10 ^ d + 1 / 2\<rfloor> / 10 ^ d" for b :: real
  proof -
    assume "0 \<le> b"
    then have "(0::real) \<le> b * 10 ^ d + 1 / 2" by simp
    then have "0 \<le> \<lfloor>b * 10 ^ d + 1 / 2\<rfloor>" by simp
    then show ?thesis by simp
  qed
  consider "0 \<le> x" | "x < 0" "0 \<le> y" | "y < 0" by linarith
  then show ?thesis
  proof cases
    case 1
    with xy up [of x y] show ?thesis by (simp add: round_dec_def)
  next
    case 2
    have a: "round_dec d x = - (of_int \<lfloor>- x * 10 ^ d + 1 / 2\<rfloor> / 10 ^ d)"
      using 2 by (simp add: round_dec_def)
    have b: "round_dec d y = of_int \<lfloor>y * 10 ^ d + 1 / 2\<rfloor> / 10 ^ d"
      using 2 by (simp add: round_dec_def)
    have "(0::real) \<le> of_int \<lfloor>- x * 10 ^ d + 1 / 2\<rfloor> / 10 ^ d" using 2 by (intro nn) simp
    moreover have "(0::real) \<le> of_int \<lfloor>y * 10 ^ d + 1 / 2\<rfloor> / 10 ^ d" using 2 by (intro nn)
    ultimately show ?thesis unfolding a b by linarith
  next
    case 3
    with xy up [of "- y" "- x"] show ?thesis by (simp add: round_dec_def)
  qed
qed

lemma toFixed_mono: "jle a b \<Longrightarrow> jle (toFixed d a) (toFixed d b)"
  by (cases a; cases b) (auto simp: jle_def jeq_def round_dec_mono less_le)

lemma parseFixed_mono: "jle a b \<Longrightarrow> jle (parseFixed d a) (parseFixed d b)"
  unfolding parseFixed_def by (intro dbl_mono toFixed_mono)

lemma jle_jlt_trans: "jle a (Num s) \<Longrightarrow> s < e \<Longrightarrow> jlt a (Num e)"
  by (cases a) (auto simp: jle_def jeq_def)

lemma jle_jlt_trans2: "jle (Num r) a \<Longrightarrow> e < r \<Longrightarrow> jlt (Num e) a"
  by (cases a) (auto simp: jle_def jeq_def)

lemma dbl_small: "\<bar>fl64 x\<bar> \<le> 2 ^ 64 \<Longrightarrow> dbl (Num x) = Num (fl64 x)"
proof -
  assume "\<bar>fl64 x\<bar> \<le> 2 ^ 64"
  moreover have "(2::real) ^ 64 < overflow" by (rule overflow_gt) simp
  ultimately show ?thesis by (simp add: dbl_def)
qed

lemma not_jlt_jle: "a \<noteq> NaN \<Longrightarrow> \<not> jlt (Num s) a \<Longrightarrow> jle a (Num s)"
  by (cases a) (auto simp: jle_def jeq_def)

lemma not_jlt_jle2: "a \<noteq> NaN \<Longrightarrow> \<not> jlt a (Num s) \<Longrightarrow> jle (Num s) a"
  by (cases a) (auto simp: jle_def jeq_def)

lemma dmul_Num: "dmul (Num a) (Num b) = dbl (Num (a * b))"
  by (simp add: dmul_def)

lemma dbl_pos_cases:
  assumes "0 \<le> x"
  obtains y where "dbl (Num x) = Num y" "0 \<le> y" | "dbl (Num x) = PInf"
  using assms fl64_nonneg [of x] by (cases x rule: dbl_Num_cases) auto


lemma fl64_numeral [simp]:
  "(numeral w :: int) \<le> 9007199254740992 \<Longrightarrow> fl64 (numeral w) = numeral w"
proof -
  assume "(numeral w :: int) \<le> 9007199254740992"
  then have "\<bar>numeral w :: int\<bar> \<le> 2 ^ 53" by simp
  then have "representable (of_int (numeral w))" by (rule representable_of_int)
  then show ?thesis by (simp add: representable_def)
qed

lemma fl64_1 [simp]: "fl64 1 = 1"
  using representable_of_int [of 1] by (simp add: representable_def)


text \<open>Three roundings of relative error \<open>2\<^sup>-\<^sup>5\<^sup>3\<close> each, in a quotient of two
  positive numbers, make a relative error of at most \<open>2\<^sup>-\<^sup>5\<^sup>1\<close>.\<close>

lemma quotient_error:
  fixes A B R S q :: real
  assumes A: "0 < A" and B: "0 < B"
    and R: "\<bar>R - A\<bar> \<le> A / 2 ^ 53" and S: "\<bar>S - B\<bar> \<le> B / 2 ^ 53"
    and q: "\<bar>q - R / S\<bar> \<le> \<bar>R / S\<bar> / 2 ^ 53"
  shows "\<bar>q - A / B\<bar> \<le> A / B / 2 ^ 51"
proof -
  define u :: real where "u = 1 / 2 ^ 53"
  have u: "0 < u" "u < 1" by (simp_all add: u_def)
  have ex: "x * (1 - u) = x - x / 2 ^ 53" "x * (1 + u) = x + x / 2 ^ 53" for x
    by (simp_all add: u_def algebra_simps)
  have Rb: "A * (1 - u) \<le> R" "R \<le> A * (1 + u)"
    unfolding ex using R by linarith+
  have Sb: "B * (1 - u) \<le> S" "S \<le> B * (1 + u)"
    unfolding ex using S by linarith+
  have "0 < A * (1 - u)" "0 < B * (1 - u)" using A B u by simp_all
  with Rb(1) Sb(1) have Rpos: "0 < R" and Spos: "0 < S" by linarith+
  have Bl: "0 < B * (1 - u)" using B u by simp
  define Q where "Q = A / B"
  have Qpos: "0 < Q" using A B by (simp add: Q_def)
  have "R / S \<le> (A * (1 + u)) / (B * (1 - u))"
    using Rb(2) Sb(1) Bl A u by (intro frac_le) simp_all
  also have "\<dots> = Q * ((1 + u) / (1 - u))" by (simp add: Q_def)
  finally have hi: "R / S \<le> Q * ((1 + u) / (1 - u))" .
  have "(A * (1 - u)) / (B * (1 + u)) \<le> R / S"
    using Rb(1) Sb(2) Spos Rpos by (intro frac_le) simp_all
  moreover have "(A * (1 - u)) / (B * (1 + u)) = Q * ((1 - u) / (1 + u))" by (simp add: Q_def)
  ultimately have lo: "Q * ((1 - u) / (1 + u)) \<le> R / S" by simp
  have RS: "0 < R / S" using Rpos Spos by simp
  from q RS have qb: "R / S * (1 - u) \<le> q" "q \<le> R / S * (1 + u)"
    unfolding ex by linarith+
  have "R / S * (1 + u) \<le> Q * ((1 + u) / (1 - u)) * (1 + u)"
    using hi u by (intro mult_right_mono) simp_all
  with qb(2) have "q \<le> Q * ((1 + u) / (1 - u)) * (1 + u)" by linarith
  also have "\<dots> = Q * ((1 + u) / (1 - u) * (1 + u))" by simp
  also have "\<dots> \<le> Q * (1 + 1 / 2 ^ 51)"
    using Qpos by (intro mult_left_mono) (simp_all add: u_def)
  finally have up: "q \<le> Q * (1 + 1 / 2 ^ 51)" .
  have "Q * (1 - 1 / 2 ^ 51) \<le> Q * ((1 - u) / (1 + u) * (1 - u))"
    using Qpos by (intro mult_left_mono) (simp_all add: u_def)
  also have "\<dots> = Q * ((1 - u) / (1 + u)) * (1 - u)" by simp
  also have "\<dots> \<le> R / S * (1 - u)"
    using lo u by (intro mult_right_mono) simp_all
  also have "\<dots> \<le> q" by (rule qb(1))
  finally have dn: "Q * (1 - 1 / 2 ^ 51) \<le> q" .
  define w where "w = Q / 2 ^ 51"
  have "Q * (1 + 1 / 2 ^ 51) = Q + w" by (simp add: distrib_left w_def)
  with up have up': "q \<le> Q + w" by simp
  have "Q * (1 - 1 / 2 ^ 51) = Q - w" by (simp add: right_diff_distrib w_def)
  with dn have dn': "Q - w \<le> q" by simp
  from up' dn' have "\<bar>q - Q\<bar> \<le> w" by linarith
  then show ?thesis by (simp only: Q_def w_def)
qed

lemma representable_grid:
  assumes "representable a" and q: "q \<le> - 1074"
  shows "\<exists>m. a = of_int m * 2 powi q"
proof -
  define N where "N = rne (a / spacing a)"
  from assms have a: "a = of_int N * spacing a"
    by (simp add: representable_def fl64_def N_def)
  define j where "j = nat (binade a - 52 - q)"
  have "- 1022 \<le> binade a" by (simp add: binade_def)
  with q have "binade a - 52 = int j + q" by (simp add: j_def)
  then have "spacing a = 2 powi int j * 2 powi q"
    unfolding spacing_def by (simp only: pow2_split)
  then have "spacing a = of_int (2 ^ j) * 2 powi q" by simp
  with a have "a = of_int (N * 2 ^ j) * 2 powi q" by simp
  then show ?thesis ..
qed

text \<open>A sum of two doubles is rounded with a relative error of at most \<open>2\<^sup>-\<^sup>5\<^sup>3\<close>: below the
  normal range it is exact.\<close>

lemma fl64_add_rel:
  assumes a: "representable a" and b: "representable b"
  shows "\<bar>fl64 (a + b) - (a + b)\<bar> \<le> \<bar>a + b\<bar> / 2 ^ 53"
proof (cases "2 powi (- 1022) \<le> \<bar>a + b\<bar>")
  case True
  then show ?thesis by (rule fl64_rel)
next
  case False
  define q :: int where "q = - 1074"
  have q: "q \<le> - 1074" "- 1074 \<le> q" "- 1022 = 52 + q" by (simp_all add: q_def)
  define g :: real where "g = 2 powi q"
  have g: "0 < g" by (simp add: g_def)
  from representable_grid [OF a q(1)] representable_grid [OF b q(1)]
  obtain m n where m: "a = of_int m * g" and n: "b = of_int n * g"
    unfolding g_def by blast
  then have s: "a + b = of_int (m + n) * g" by (simp add: distrib_right)
  have p: "(2::real) powi (- 1022) = 2 powi 52 * g"
    unfolding g_def by (simp only: q(3) pow2_split)
  from False have "\<bar>a + b\<bar> < 2 powi (- 1022)" by simp
  then have "of_int \<bar>m + n\<bar> * g < (2::real) powi 52 * g"
    unfolding s p using g by (simp add: abs_mult)
  then have "real_of_int \<bar>m + n\<bar> < 2 powi 52"
    using g by (simp only: mult_less_cancel_right_pos)
  then have "real_of_int \<bar>m + n\<bar> < real_of_int (2 ^ 52)" by simp
  then have "\<bar>m + n\<bar> < 2 ^ 52" by (simp only: of_int_less_iff)
  then have "\<bar>m + n\<bar> < 2 ^ 53" by simp
  then have "representable (of_int (m + n) * 2 powi q)"
    using q(2) by (rule representable_dyadic)
  then have "fl64 (a + b) = a + b" by (simp add: s representable_def g_def)
  then show ?thesis by simp
qed

lemma fl64_sub_rel:
  assumes a: "representable a" and b: "representable b"
  shows "\<bar>fl64 (a - b) - (a - b)\<bar> \<le> \<bar>a - b\<bar> / 2 ^ 53"
  using fl64_add_rel [of a "- b"] a b by simp

lemma dsub_Num: "dsub (Num a) (Num b) = dbl (Num (a - b))"
  by (simp add: dsub_def jsub_def)

lemma dbl_bounded:
  assumes x: "0 \<le> x" "x \<le> 2 ^ n" and n: "n < 1024"
  shows "dbl (Num x) = Num (fl64 x)"
proof -
  have "representable (2 powi int n)" by (rule representable_pow2) simp
  then have "representable (2 ^ n)" by simp
  from fl64_le_representable [OF this x(2)] fl64_nonneg [OF x(1)]
  have "\<bar>fl64 x\<bar> \<le> 2 ^ n" by simp
  moreover have "(2::real) ^ n < overflow" using n by (rule overflow_gt)
  ultimately have "\<not> overflow \<le> \<bar>fl64 x\<bar>" by linarith
  then show ?thesis by (simp add: dbl_def)
qed


lemma is_double_of_int:
  assumes "\<bar>n\<bar> \<le> 2 ^ 53"
  shows "is_double (of_int n)"
proof -
  have "real_of_int \<bar>n\<bar> \<le> real_of_int (2 ^ 53)" using assms by (simp only: of_int_le_iff)
  then have "\<bar>real_of_int n\<bar> \<le> 2 ^ 53" by simp
  moreover have "(2::real) ^ 53 < overflow" by (rule overflow_gt) simp
  ultimately have "\<bar>real_of_int n\<bar> < overflow" by linarith
  with representable_of_int [OF assms] show ?thesis by (simp add: is_double_def)
qed

lemma is_double_numeral:
  "(numeral w :: int) \<le> 9007199254740992 \<Longrightarrow> is_double (numeral w)"
  using is_double_of_int [of "numeral w"] by simp


section \<open>Final signal composer: the confluence gate\<close>

lemmas gate_defs = generateFinalSignal_def passedChecks_def checks_def count_true_def
  confluencePass_def timeframePass_def riskRewardPass_def entryReady_def regimeAccepts_def

text \<open>The first check passes as soon as the percentage is a non-zero number: the comparison
  with 60 in its source text applies to the constant 0.\<close>

lemma confluencePass_iff:
  "confluencePass r \<longleftrightarrow> (\<exists>c. confluence r = Some c \<and> truthy (confluencePercent c))"
  by (simp add: confluencePass_def split: option.splits)

lemma confidence_of_count:
  "Math_round (jmul (jdiv (Num (real p)) (Num 5)) (Num 100)) = Num (real (20 * p))"
proof -
  have "\<lfloor>real p / 5 * 100 + 1 / 2\<rfloor> = int (20 * p)"
    by (rule floor_unique) simp_all
  then show ?thesis by simp
qed

lemma passedChecks_le: "passedChecks r \<le> 5"
  using count_true_le [of "checks r"] by (simp add: passedChecks_def checks_def)

text \<open>What the composer computes, with the confluence check as it is coded: apart from that
  check, the classification by the number of passed checks and the confidence of 20 per
  passed check are as specified.\<close>

lemma generateFinalSignal_by_count:
  "generateFinalSignal r =
     (if \<not> confluencePass r \<or> \<not> riskRewardPass r then
        \<lparr>fs_signal = SKIP, fs_confidence = Num 0,
         fs_reason = ''Failed confluence or risk/reward filters''\<rparr>
      else if passedChecks r = 5 then
        \<lparr>fs_signal = STRONG_BUY, fs_confidence = Num 100,
         fs_reason = ''All checks passed - ideal setup''\<rparr>
      else if passedChecks r = 4 then
        \<lparr>fs_signal = BUY, fs_confidence = Num 80,
         fs_reason = ''Most checks passed - good setup''\<rparr>
      else if passedChecks r = 3 then
        \<lparr>fs_signal = NEUTRAL, fs_confidence = Num 60,
         fs_reason = ''Mixed signals - use caution''\<rparr>
      else
        \<lparr>fs_signal = SKIP, fs_confidence = Num (real (20 * passedChecks r)),
         fs_reason = ''Insufficient confluent signals''\<rparr>)"
proof -
  have len: "length (checks r) = 5" by (simp add: checks_def)
  have c: "Math_round (jmul (jdiv (Num (real (passedChecks r))) (Num (real (length (checks r)))))
             (Num 100)) = Num (real (20 * passedChecks r))"
    unfolding len using confidence_of_count [of "passedChecks r"] by simp
  show ?thesis
    using passedChecks_le [of r]
    unfolding generateFinalSignal_def Let_def c by auto
qed

text \<open>
  Claim C1. \<open>generateFinalSignal\<close> is to fail fast to \<open>SKIP\<close> whenever the confluence gate
  (\<open>confluencePercent >= 60\<close>) fails. On an analysis with a confluence of 50 percent, a valid
  risk/reward setup, a bullish alignment, a ready entry and a trending regime, the code
  returns \<open>STRONG-BUY\<close> with confidence 100: all five checks count as passed.
\<close>

theorem generateFinalSignal_confluence_50:
  "confluence low_confluence_input \<noteq> None
   \<and> map_option confluencePercent (confluence low_confluence_input) = Some (Num 50)
   \<and> \<not> jge (Num 50) (Num 60)
   \<and> passedChecks low_confluence_input = 5
   \<and> generateFinalSignal low_confluence_input =
       \<lparr>fs_signal = STRONG_BUY, fs_confidence = Num 100,
        fs_reason = ''All checks passed - ideal setup''\<rparr>"
  by (simp add: gate_defs low_confluence_input_def)

theorem generateFinalSignal_confluence_50_witness:
  "fs_signal (generateFinalSignal low_confluence_input) = STRONG_BUY
   \<and> fs_confidence (generateFinalSignal low_confluence_input) = Num 100"
  using generateFinalSignal_confluence_50 by simp


section \<open>Confluence scorer\<close>

lemma count_true_exclusive:
  "list_all2 (\<lambda>b r. \<not> (b \<and> r)) bs rs \<Longrightarrow> count_true bs + count_true rs \<le> length bs"
  by (induction bs rs rule: list_all2_induct) (auto simp: count_true_def)

lemma count_signals_le:
  "count_true (bullishSignals i) \<le> 8" "count_true (bearishSignals i) \<le> 8"
  using count_true_le [of "bullishSignals i"] count_true_le [of "bearishSignals i"]
  by (simp_all add: bullishSignals_def bearishSignals_def)

lemma raw_percent_Num:
  "rawConfluencePercent b r = Num (if b + r > 0 then real (max b r) / real (b + r) * 100 else 50)"
  by (auto simp: rawConfluencePercent_def Let_def)

lemma Math_round_raw:
  "Math_round (rawConfluencePercent b r) =
     Num (if b + r > 0 then of_int \<lfloor>real (max b r) / real (b + r) * 100 + 1 / 2\<rfloor> else 50)"
  by (simp add: raw_percent_Num)

text \<open>With at most 39 signals, rounding to the nearest integer does not move a percentage
  across the threshold of 60.\<close>

lemma round_ge_60:
  fixes m t :: nat
  assumes "0 < t" "t < 40"
  shows "(60 \<le> \<lfloor>real m / real t * 100 + 1 / 2\<rfloor>) \<longleftrightarrow> (60 \<le> real m / real t * 100)"
proof
  assume "60 \<le> real m / real t * 100"
  then have "(60::real) \<le> real m / real t * 100 + 1 / 2" by simp
  then show "60 \<le> \<lfloor>real m / real t * 100 + 1 / 2\<rfloor>" by (simp add: le_floor_iff)
next
  assume "60 \<le> \<lfloor>real m / real t * 100 + 1 / 2\<rfloor>"
  then have "(60::real) \<le> real m / real t * 100 + 1 / 2" by (simp add: le_floor_iff)
  then have "119 / 2 * real t \<le> real m * 100"
    using assms by (simp add: field_simps)
  then have "119 * real t \<le> 200 * real m" by simp
  then have "119 * t \<le> 200 * m"
    by (metis (mono_tags, opaque_lifting) of_nat_le_iff of_nat_mult of_nat_numeral)
  with assms have "3 * t \<le> 5 * m" by arith
  then have "3 * real t \<le> 5 * real m"
    by (metis (mono_tags, opaque_lifting) of_nat_le_iff of_nat_mult of_nat_numeral)
  then show "60 \<le> real m / real t * 100"
    using assms by (simp add: field_simps)
qed

lemma percent_range:
  fixes b r :: nat
  assumes "0 < b + r"
  shows "50 \<le> real (max b r) / real (b + r) * 100 \<and> real (max b r) / real (b + r) * 100 \<le> 100"
proof -
  define M where "M = real (max b r)"
  define T where "T = real (b + r)"
  have pos: "0 < T" unfolding T_def using assms by (simp only: of_nat_0_less_iff)
  have "T \<le> 2 * M" by (simp add: max_def M_def T_def)
  moreover have "M \<le> T" by (simp add: max_def M_def T_def)
  ultimately have "50 \<le> M / T * 100 \<and> M / T * 100 \<le> 100"
    using pos by (simp add: pos_le_divide_eq pos_divide_le_eq)
  then show ?thesis by (simp add: M_def T_def)
qed

text \<open>
  Claim C2, as stated, fails: \<open>totalIndicators\<close> is 10, not 8, and on labels that match a
  bullish and a bearish keyword at once the two counts add up to 15.
\<close>

theorem confluence_score_counterexample:
  "totalIndicators (calculateConfluenceScore both_ways_input) \<noteq> 8
   \<and> \<not> (bullishCount (calculateConfluenceScore both_ways_input)
          + bearishCount (calculateConfluenceScore both_ways_input) \<le> 8)"
  by (simp add: calculateConfluenceScore_def both_ways_input_def bullishSignals_def
        bearishSignals_def count_true_def str_includes_def sublist_code Let_def)

text \<open>
  Claim C2, amended. For every input, \<open>calculateConfluenceScore\<close> returns
  \<open>totalIndicators = 10\<close> and \<open>agreeingIndicators = max(bullishCount, bearishCount)\<close>; each
  count is at most 8, and their sum is at most 8 when no label fires both ways; the
  percentage is a number in \<open>[0, 100]\<close>, 50 when no signal fires; and \<open>tradeable\<close> holds
  exactly when the returned percentage is at least 60.
\<close>

theorem confluence_score_contract:
  "totalIndicators (calculateConfluenceScore i) = 10
   \<and> agreeingIndicators (calculateConfluenceScore i)
       = max (bullishCount (calculateConfluenceScore i)) (bearishCount (calculateConfluenceScore i))
   \<and> bullishCount (calculateConfluenceScore i) \<le> 8
   \<and> bearishCount (calculateConfluenceScore i) \<le> 8
   \<and> (exclusive_labels i \<longrightarrow>
        bullishCount (calculateConfluenceScore i) + bearishCount (calculateConfluenceScore i) \<le> 8)
   \<and> (\<exists>p. confluencePercent (calculateConfluenceScore i) = Num p \<and> 0 \<le> p \<and> p \<le> 100)
   \<and> (bullishCount (calculateConfluenceScore i) + bearishCount (calculateConfluenceScore i) = 0
        \<longrightarrow> confluencePercent (calculateConfluenceScore i) = Num 50)
   \<and> (tradeable (calculateConfluenceScore i)
        \<longleftrightarrow> jge (confluencePercent (calculateConfluenceScore i)) (Num 60))"
proof -
  define b where "b = count_true (bullishSignals i)"
  define r where "r = count_true (bearishSignals i)"
  have b8: "b \<le> 8" and r8: "r \<le> 8"
    using count_signals_le [of i] by (simp_all add: b_def r_def)
  have sel: "totalIndicators (calculateConfluenceScore i) = 10"
    "agreeingIndicators (calculateConfluenceScore i) = max b r"
    "bullishCount (calculateConfluenceScore i) = b"
    "bearishCount (calculateConfluenceScore i) = r"
    "confluencePercent (calculateConfluenceScore i) = Math_round (rawConfluencePercent b r)"
    "tradeable (calculateConfluenceScore i) = jge (rawConfluencePercent b r) (Num 60)"
    by (simp_all add: calculateConfluenceScore_def Let_def b_def r_def)
  have len: "length (bullishSignals i) = 8"
    by (simp add: bullishSignals_def)
  have excl: "exclusive_labels i \<longrightarrow> b + r \<le> 8"
  proof
    assume "exclusive_labels i"
    then have "count_true (bullishSignals i) + count_true (bearishSignals i)
                 \<le> length (bullishSignals i)"
      unfolding exclusive_labels_def by (rule count_true_exclusive)
    then show "b + r \<le> 8" by (simp add: b_def r_def len)
  qed
  have range: "\<exists>p. Math_round (rawConfluencePercent b r) = Num p \<and> 0 \<le> p \<and> p \<le> 100"
  proof (cases "0 < b + r")
    case True
    from percent_range [OF True]
    have "50 \<le> real (max b r) / real (b + r) * 100" "real (max b r) / real (b + r) * 100 \<le> 100"
      by simp_all
    then have "0 \<le> \<lfloor>real (max b r) / real (b + r) * 100 + 1 / 2\<rfloor>"
      "\<lfloor>real (max b r) / real (b + r) * 100 + 1 / 2\<rfloor> \<le> 100"
      by (simp_all add: le_floor_iff floor_le_iff)
    with True show ?thesis by (simp add: Math_round_raw)
  next
    case False
    then show ?thesis by (simp add: Math_round_raw)
  qed
  have none: "b + r = 0 \<longrightarrow> Math_round (rawConfluencePercent b r) = Num 50"
    by (simp add: Math_round_raw)
  have trade: "jge (rawConfluencePercent b r) (Num 60)
                 \<longleftrightarrow> jge (Math_round (rawConfluencePercent b r)) (Num 60)"
  proof (cases "0 < b + r")
    case True
    have "b + r < 40" using b8 r8 by simp
    from round_ge_60 [OF True this, of "max b r"] True
    show ?thesis by (simp add: Math_round_raw raw_percent_Num)
  next
    case False
    then show ?thesis by (simp add: Math_round_raw raw_percent_Num)
  qed
  show ?thesis
    unfolding sel using b8 r8 excl range none trade by blast
qed

theorem confluence_score_contract_witness:
  "exclusive_labels mixed_input
   \<and> bullishCount (calculateConfluenceScore mixed_input)
       + bearishCount (calculateConfluenceScore mixed_input) \<le> 8
   \<and> tradeable (calculateConfluenceScore mixed_input)
   \<and> bullishCount (calculateConfluenceScore quiet_input)
       + bearishCount (calculateConfluenceScore quiet_input) = 0
   \<and> confluencePercent (calculateConfluenceScore quiet_input) = Num 50"
  using confluence_score_contract [of mixed_input] confluence_score_contract [of quiet_input]
  by (simp add: calculateConfluenceScore_def mixed_input_def quiet_input_def exclusive_labels_def
        bullishSignals_def bearishSignals_def count_true_def str_includes_def sublist_code
        Let_def rawConfluencePercent_def)


lemma last_elem_Nil: "last_elem [] = NaN"
  by (simp add: last_elem_def elem_at_def)

section \<open>Bollinger Bands on a flat window\<close>

text \<open>
  Claim C4, as stated, fails in its last part: on twenty samples of the constant value 100
  the position is not \<open>"Middle"\<close>. The price 100 exceeds 95 percent of the upper band.
\<close>

theorem bollinger_flat_counterexample:
  "map_option bb_position (calculateBollingerBands flat_window 20 (Num 2)) \<noteq> Some ''Middle''"
  by (simp add: calculateBollingerBands_def flat_window_def slice_last_def Math_pow2_def
        round_dec_def last_elem_def elem_at_def bollinger_position_def numeral_eq_Suc Let_def)

text \<open>
  Claim C4, amended. \<open>calculateBollingerBands\<close> on a flat 20-sample window of the
  constant value 100 returns \<open>upper = lower = middle = 100\<close> (standard deviation 0) and
  classifies the position as \<open>"Upper Band (Overbought)"\<close>.
\<close>

theorem bollinger_flat:
  "calculateBollingerBands flat_window 20 (Num 2)
     = Some \<lparr>bb_upper = Num 100, bb_lower = Num 100, bb_middle = Num 100,
             bb_position = ''Upper Band (Overbought)''\<rparr>"
  by (simp add: calculateBollingerBands_def flat_window_def slice_last_def Math_pow2_def
        round_dec_def last_elem_def elem_at_def bollinger_position_def numeral_eq_Suc Let_def)

section \<open>Windows shorter than the period\<close>

text \<open>
  Claim C5, amended. On a window shorter than its period every calculator returns without
  raising, and returns exactly its own default: RSI 50 with \<open>"Insufficient Data"\<close>
  (below \<open>period + 1\<close> samples); MACD 0, EMA cross 0 and 0, Bollinger 0, 0 and 0, ATR 0,
  Stochastic 50 and 50, each with \<open>"Insufficient Data"\<close>; OBV \<open>"Insufficient Data"\<close>
  below two samples; Ichimoku \<open>"Insufficient Data"\<close> below 26; VWAP 0 with
  \<open>"No Data"\<close> on no sample; ADX the value 20 with the labels \<open>"Weak Trend"\<close> and
  \<open>"Weak"\<close>; and \<open>calculateEMA\<close> the last sample (\<open>undefined\<close> on no sample).
\<close>

theorem short_window_defaults:
  "(length priceHistory < period + 1 \<longrightarrow>
      calculateRSI priceHistory period
        = \<lparr>rsi_value = Num 50, rsi_signal = ''Insufficient Data'', rsi_strength = ''Neutral''\<rparr>)
   \<and> (length priceHistory < 26 \<longrightarrow>
      calculateMACD priceHistory
        = Some \<lparr>macd_histogram = Num 0, macd_signal = ''Insufficient Data'',
                macd_momentum = ''Neutral''\<rparr>)
   \<and> (length priceHistory < 21 \<longrightarrow>
      calculateEMACross priceHistory
        = Some \<lparr>ema9 = Num 0, ema21 = Num 0, ema_alignment = ''Insufficient Data'',
                ema_signal = ''Neutral''\<rparr>)
   \<and> (length priceHistory < period \<longrightarrow>
      calculateBollingerBands priceHistory period stdDev
        = Some \<lparr>bb_upper = Num 0, bb_lower = Num 0, bb_middle = Num 0,
                bb_position = ''Insufficient Data''\<rparr>)
   \<and> (length high < period \<longrightarrow>
      calculateATR high low close period
        = \<lparr>atr_value = Num 0, atr_volatility = ''Insufficient Data''\<rparr>)
   \<and> (length priceHistory < 2 \<longrightarrow>
      calculateOBV priceHistory volumeHistory
        = \<lparr>obv_trend = ''Neutral'', obv_momentum = ''Insufficient Data''\<rparr>)
   \<and> (length priceHistory < period \<longrightarrow>
      calculateStochastic priceHistory period
        = \<lparr>stoch_k = Num 50, stoch_d = Num 50, stoch_signal = ''Insufficient Data''\<rparr>)
   \<and> (length high < period \<longrightarrow>
      calculateADX high low close period
        = \<lparr>adx_value = Num 20, adx_trend = ''Weak Trend'', adx_strength = ''Weak''\<rparr>)
   \<and> (length priceHistory = 0 \<longrightarrow>
      calculateVWAP priceHistory volumeHistory
        = \<lparr>vwap_level = Num 0, price_vs_vwap = ''No Data''\<rparr>)
   \<and> (length high < 26 \<longrightarrow>
      calculateIchimoku high low close
        = \<lparr>cloud_signal = ''Insufficient Data'', ichimoku_momentum = ''Neutral''\<rparr>)
   \<and> (length priceHistory < period \<longrightarrow>
      calculateEMA priceHistory period = Some (last_elem priceHistory))"
  by (simp add: calculateRSI_def calculateMACD_def calculateEMACross_def
        calculateBollingerBands_def calculateATR_def calculateOBV_def calculateStochastic_def
        calculateADX_def calculateVWAP_def calculateIchimoku_def calculateEMA_def)

text \<open>
  Claim C5, as stated, fails: on three samples ADX returns 20, neither 50 nor 0, with the
  ordinary labels \<open>"Weak Trend"\<close> and \<open>"Weak"\<close>, and \<open>calculateEMA\<close> returns the last
  sample with no label at all.
\<close>

theorem short_window_counterexample:
  "adx_value (calculateADX short_window short_window short_window 14) = Num 20
   \<and> adx_trend (calculateADX short_window short_window short_window 14) = ''Weak Trend''
   \<and> adx_strength (calculateADX short_window short_window short_window 14) = ''Weak''
   \<and> calculateEMA short_window 12 = Some (Num 3)"
  by (simp add: calculateADX_def calculateEMA_def short_window_def last_elem_def elem_at_def)

theorem short_window_defaults_witness:
  "calculateRSI short_window 14
        = \<lparr>rsi_value = Num 50, rsi_signal = ''Insufficient Data'', rsi_strength = ''Neutral''\<rparr>
   \<and> calculateMACD short_window
        = Some \<lparr>macd_histogram = Num 0, macd_signal = ''Insufficient Data'',
                macd_momentum = ''Neutral''\<rparr>
   \<and> calculateEMACross short_window
        = Some \<lparr>ema9 = Num 0, ema21 = Num 0, ema_alignment = ''Insufficient Data'',
                ema_signal = ''Neutral''\<rparr>
   \<and> calculateBollingerBands short_window 20 (Num 2)
        = Some \<lparr>bb_upper = Num 0, bb_lower = Num 0, bb_middle = Num 0,
                bb_position = ''Insufficient Data''\<rparr>
   \<and> calculateATR short_window short_window short_window 14
        = \<lparr>atr_value = Num 0, atr_volatility = ''Insufficient Data''\<rparr>
   \<and> calculateOBV [Num 1] [Num 10]
        = \<lparr>obv_trend = ''Neutral'', obv_momentum = ''Insufficient Data''\<rparr>
   \<and> calculateStochastic short_window 14
        = \<lparr>stoch_k = Num 50, stoch_d = Num 50, stoch_signal = ''Insufficient Data''\<rparr>
   \<and> calculateADX short_window short_window short_window 14
        = \<lparr>adx_value = Num 20, adx_trend = ''Weak Trend'', adx_strength = ''Weak''\<rparr>
   \<and> calculateVWAP [] []
        = \<lparr>vwap_level = Num 0, price_vs_vwap = ''No Data''\<rparr>
   \<and> calculateIchimoku short_window short_window short_window
        = \<lparr>cloud_signal = ''Insufficient Data'', ichimoku_momentum = ''Neutral''\<rparr>
   \<and> calculateEMA short_window 14 = Some (Num 3)"
proof -
  have len: "length short_window = 3" by (simp add: short_window_def)
  have l: "last_elem short_window = Num 3"
    by (simp add: short_window_def last_elem_def elem_at_def)
  note a = short_window_defaults [where priceHistory = short_window and period = 14
             and high = short_window and low = short_window and close = short_window
             and stdDev = "Num 2"]
  note b = short_window_defaults [where priceHistory = "[Num 1]" and volumeHistory = "[Num 10]"]
  note c = short_window_defaults [where priceHistory = "[]" and volumeHistory = "[]"]
  note d = short_window_defaults [where priceHistory = short_window and period = 20
             and stdDev = "Num 2"]
  show ?thesis using a b c d by (simp add: len l)
qed

section \<open>No calculator raises on a positive period\<close>

lemma reduce_add_Some: "xs \<noteq> [] \<Longrightarrow> \<exists>v. reduce_add xs = Some v"
  by (cases xs) simp_all

lemma ema_smoothed_total:
  assumes "0 < period" "period \<le> length prices"
  shows "\<exists>v. ema_smoothed prices period = Some v"
proof -
  from assms have "take period prices \<noteq> []" by auto
  then obtain total where "reduce_add (take period prices) = Some total"
    using reduce_add_Some by blast
  then show ?thesis by (simp add: ema_smoothed_def Let_def)
qed

lemma calculateEMA_total: "0 < period \<Longrightarrow> \<exists>v. calculateEMA prices period = Some v"
  using ema_smoothed_total [of period prices] by (simp add: calculateEMA_def)

lemma those_map_total:
  "(\<And>x. x \<in> set xs \<Longrightarrow> \<exists>y. f x = Some y)
     \<Longrightarrow> \<exists>ys. those (map f xs) = Some ys \<and> length ys = length xs"
proof (induction xs)
  case Nil
  then show ?case by simp
next
  case (Cons x xs)
  then obtain y where y: "f x = Some y" by auto
  from Cons obtain ys where "those (map f xs) = Some ys" "length ys = length xs" by auto
  with y show ?case by simp
qed

lemma macd_at_total: "\<exists>v. macd_at priceHistory i = Some v"
proof -
  obtain a where a: "calculateEMA (take 26 (drop i priceHistory)) 12 = Some a"
    using calculateEMA_total [of 12] by auto
  obtain b where b: "calculateEMA (take 26 (drop i priceHistory)) 26 = Some b"
    using calculateEMA_total [of 26] by auto
  show ?thesis by (simp add: macd_at_def a b)
qed

lemma macdHistory_total:
  "\<exists>h. those (map (macd_at priceHistory) [0..<n]) = Some h \<and> length h = n"
  using those_map_total [of "[0..<n]" "macd_at priceHistory"] macd_at_total by auto

lemma calculateMACD_total: "\<exists>m. calculateMACD priceHistory = Some m"
proof (cases "length priceHistory < 26")
  case True
  then show ?thesis by (simp add: calculateMACD_def)
next
  case False
  obtain e12 where e12: "calculateEMA priceHistory 12 = Some e12"
    using calculateEMA_total [of 12] by auto
  obtain e26 where e26: "calculateEMA priceHistory 26 = Some e26"
    using calculateEMA_total [of 26] by auto
  obtain h where h: "those (map (macd_at priceHistory) [0..<length priceHistory - 26]) = Some h"
    using macdHistory_total by blast
  obtain sl where sl: "calculateEMA h 9 = Some sl"
    using calculateEMA_total [of 9] by auto
  show ?thesis using False by (simp add: calculateMACD_def e12 e26 h sl)
qed

lemma calculateEMACross_total: "\<exists>e. calculateEMACross priceHistory = Some e"
proof (cases "length priceHistory < 21")
  case True
  then show ?thesis by (simp add: calculateEMACross_def)
next
  case False
  obtain e9 where e9: "calculateEMA priceHistory 9 = Some e9"
    using calculateEMA_total [of 9] by auto
  obtain e21 where e21: "calculateEMA priceHistory 21 = Some e21"
    using calculateEMA_total [of 21] by auto
  show ?thesis using False by (simp add: calculateEMACross_def e9 e21 Let_def)
qed

lemma calculateBollingerBands_total:
  assumes "0 < period"
  shows "\<exists>b. calculateBollingerBands priceHistory period stdDev = Some b"
proof (cases "length priceHistory < period")
  case True
  then show ?thesis by (simp add: calculateBollingerBands_def)
next
  case False
  with assms have "slice_last period priceHistory \<noteq> []"
    by (auto simp: slice_last_def)
  then obtain total where "reduce_add (slice_last period priceHistory) = Some total"
    using reduce_add_Some by blast
  with False show ?thesis by (simp add: calculateBollingerBands_def Let_def)
qed

section \<open>The short window of the EMA\<close>




section \<open>Risk/reward levels\<close>

lemma round_half_close: "\<bar>of_int \<lfloor>y + 1 / 2\<rfloor> - y\<bar> \<le> 1 / 2" for y :: real
  by linarith

lemma scaled_close:
  fixes n x P :: real
  assumes "0 < P" "\<bar>n - x * P\<bar> \<le> 1 / 2"
  shows "\<bar>n / P - x\<bar> \<le> 1 / (2 * P)"
proof -
  have "n / P - x = (n - x * P) / P" using assms(1) by (simp add: field_simps)
  then have "\<bar>n / P - x\<bar> = \<bar>n - x * P\<bar> / P" using assms(1) by (simp add: abs_divide)
  also have "\<dots> \<le> (1 / 2) / P"
    using assms(2) by (rule divide_right_mono) (use assms(1) in simp)
  finally show ?thesis by simp
qed

lemma round_dec_close: "\<bar>round_dec d x - x\<bar> \<le> 1 / (2 * 10 ^ d)"
proof (cases "x < 0")
  case True
  have "\<bar>of_int \<lfloor>- x * 10 ^ d + 1 / 2\<rfloor> / 10 ^ d - (- x)\<bar> \<le> 1 / (2 * 10 ^ d)"
    using round_half_close [of "- x * 10 ^ d"] by (intro scaled_close) simp_all
  moreover have "round_dec d x - x = - (of_int \<lfloor>- x * 10 ^ d + 1 / 2\<rfloor> / 10 ^ d - (- x))"
    using True by (simp add: round_dec_def)
  ultimately show ?thesis by (simp only: abs_minus_cancel)
next
  case False
  have "\<bar>of_int \<lfloor>x * 10 ^ d + 1 / 2\<rfloor> / 10 ^ d - x\<bar> \<le> 1 / (2 * 10 ^ d)"
    using round_half_close [of "x * 10 ^ d"] by (intro scaled_close) simp_all
  then show ?thesis using False by (simp add: round_dec_def)
qed

lemma fl64_099: "fl64 (99 / 100) = 4458563631096791 / 4503599627370496"
proof -
  have "fl64 (99 / 100) = of_int 8917127262193582 / 2 powi (52 - (- 1))"
    by (rule fl64_eval) simp_all
  then show ?thesis by simp
qed

lemma fl64_101: "fl64 (101 / 100) = 4548635623644201 / 4503599627370496"
proof -
  have "fl64 (101 / 100) = of_int 4548635623644201 / 2 powi (52 - 0)"
    by (rule fl64_eval) simp_all
  then show ?thesis by simp
qed

lemma dbl_099: "dbl (Num (99 / 100)) = Num (4458563631096791 / 4503599627370496)"
  by (simp add: dbl_small fl64_099)

lemma dbl_101: "dbl (Num (101 / 100)) = Num (4548635623644201 / 4503599627370496)"
  by (simp add: dbl_small fl64_101)

text \<open>The stop-loss before the final rounding lies at or below the support.\<close>

lemma rawStopLoss_le:
  assumes s: "is_double s" "0 \<le> s" and a: "0 \<le> a"
  shows "jle (rawStopLoss (Num e) (Num s) (Num a)) (Num s)"
proof -
  define m where "m = dmul (Num a) (Num 1.5)"
  define sl where "sl = dsub (Num e) m"
  have "m \<noteq> NaN" by (simp add: m_def dmul_def dbl_not_NaN)
  then have "jsub (Num e) m \<noteq> NaN" by (cases m) (simp_all add: jsub_def)
  then have nn: "sl \<noteq> NaN" unfolding sl_def dsub_def by (rule dbl_not_NaN)
  have unf: "rawStopLoss (Num e) (Num s) (Num a)
               = (if jgt sl (Num s) then dmul (Num s) (dbl (Num 0.99)) else sl)"
    by (simp add: rawStopLoss_def Let_def m_def sl_def)
  show ?thesis
  proof (cases "jgt sl (Num s)")
    case True
    define c :: real where "c = 4458563631096791 / 4503599627370496"
    have "s * c \<le> s" using s by (simp add: c_def mult_left_le)
    then have up: "fl64 (s * c) \<le> s" using s by (intro fl64_le_representable) (simp_all add: is_double_def)
    have "0 \<le> s * c" using s by (simp add: c_def)
    then have lo: "0 \<le> fl64 (s * c)" by (rule fl64_nonneg)
    from up lo s have "\<bar>fl64 (s * c)\<bar> < overflow" by (simp add: is_double_def)
    then have "dbl (Num (s * c)) = Num (fl64 (s * c))" by (simp add: dbl_def)
    then have "rawStopLoss (Num e) (Num s) (Num a) = Num (fl64 (s * c))"
      using True by (simp add: unf dbl_099 dmul_Num c_def)
    with up show ?thesis by (simp add: jle_Num)
  next
    case False
    then have "rawStopLoss (Num e) (Num s) (Num a) = sl"
      by (simp add: unf)
    moreover from False nn have "jle sl (Num s)" by (intro not_jlt_jle) (simp_all add: jgt_def)
    ultimately show ?thesis by simp
  qed
qed

text \<open>The take-profit before the final rounding lies at or above the resistance.\<close>

lemma rawTakeProfit_ge:
  assumes r: "is_double r" "0 \<le> r" and a: "0 \<le> a"
  shows "jle (Num r) (rawTakeProfit (Num e) (Num r) (Num a))"
proof -
  define m where "m = dmul (Num a) (Num 3)"
  define tp where "tp = dadd (Num e) m"
  have "0 \<le> a * 3" using a by simp
  then have "m \<noteq> NaN \<and> m \<noteq> NInf"
    unfolding m_def dmul_Num by (cases "a * 3" rule: dbl_pos_cases) simp_all
  then have "jadd (Num e) m \<noteq> NaN" by (cases m) simp_all
  then have nn: "tp \<noteq> NaN" unfolding tp_def dadd_def by (rule dbl_not_NaN)
  have unf: "rawTakeProfit (Num e) (Num r) (Num a)
               = (if jlt tp (Num r) then dmul (Num r) (dbl (Num 1.01)) else tp)"
    by (simp add: rawTakeProfit_def Let_def m_def tp_def)
  show ?thesis
  proof (cases "jlt tp (Num r)")
    case True
    define c :: real where "c = 4548635623644201 / 4503599627370496"
    have "r * 1 \<le> r * c" using r by (intro mult_left_mono) (simp_all add: c_def)
    then have "r \<le> r * c" by simp
    then have up: "r \<le> fl64 (r * c)" using r by (intro fl64_ge_representable) (simp_all add: is_double_def)
    have eq: "rawTakeProfit (Num e) (Num r) (Num a) = dbl (Num (r * c))"
      using True by (simp add: unf dbl_101 dmul_Num c_def)
    show ?thesis
    proof (cases "r * c" rule: dbl_Num_cases)
      case finite
      with up show ?thesis by (simp add: eq jle_Num)
    next
      case over
      then show ?thesis by (simp add: eq jle_PInf)
    next
      case under
      with up r overflow_pos show ?thesis by linarith
    qed
  next
    case False
    then have "rawTakeProfit (Num e) (Num r) (Num a) = tp"
      by (simp add: unf)
    moreover from False nn have "jle (Num r) tp" by (intro not_jlt_jle2)
    ultimately show ?thesis by simp
  qed
qed

text \<open>The quotient of the two double differences, against the exact quotient.\<close>

lemma ratio_tolerance:
  assumes e: "is_double e" and sl: "is_double sl" and tp: "is_double tp"
    and ord: "sl < e" "e < tp"
    and range: "e - sl \<le> 2 ^ 1000" "tp - e \<le> 2 ^ 1000"
      "1 / 2 ^ 1000 \<le> (tp - e) / (e - sl)" "(tp - e) / (e - sl) \<le> 2 ^ 1000"
  shows "\<exists>q. ddiv (dsub (Num tp) (Num e)) (dsub (Num e) (Num sl)) = Num q
            \<and> \<bar>q - (tp - e) / (e - sl)\<bar> \<le> (tp - e) / (e - sl) / 2 ^ 51"
proof -
  define A where "A = tp - e"
  define B where "B = e - sl"
  define R where "R = fl64 A"
  define S where "S = fl64 B"
  have A: "0 < A" and B: "0 < B" using ord by (simp_all add: A_def B_def)
  have rep: "representable e" "representable sl" "representable tp"
    using e sl tp by (simp_all add: is_double_def)
  have Re: "\<bar>R - A\<bar> \<le> A / 2 ^ 53"
    using fl64_sub_rel [OF rep(3) rep(1)] A by (simp add: R_def A_def)
  have Se: "\<bar>S - B\<bar> \<le> B / 2 ^ 53"
    using fl64_sub_rel [OF rep(1) rep(2)] B by (simp add: S_def B_def)
  have half: "x / 2 ^ 53 \<le> x / 2" if "0 < x" for x :: real
    using that by (intro divide_left_mono) simp_all
  have Rb: "A / 2 \<le> R" "R \<le> 2 * A" using Re half [OF A] by linarith+
  have Sb: "B / 2 \<le> S" "S \<le> 2 * B" using Se half [OF B] by linarith+
  have Rpos: "0 < R" and Spos: "0 < S" using Rb Sb A B by linarith+
  have k: "(1000::nat) < 1024" "(1002::nat) < 1024" by simp_all
  have A0: "0 \<le> tp - e" and B0: "0 \<le> e - sl" using ord by simp_all
  have dR: "dsub (Num tp) (Num e) = Num R"
    unfolding dsub_Num R_def A_def by (rule dbl_bounded [OF A0 range(2) k(1)])
  have dS: "dsub (Num e) (Num sl) = Num S"
    unfolding dsub_Num S_def B_def by (rule dbl_bounded [OF B0 range(1) k(1)])
  define Q where "Q = A / B"
  define M :: real where "M = 2 ^ 1000"
  have Mpos: "0 < M" by (simp add: M_def)
  have Q: "1 / M \<le> Q" "Q \<le> M"
    unfolding Q_def A_def B_def M_def by (rule range)+
  have "R / S \<le> (2 * A) / (B / 2)"
    using Rb Sb A B by (intro frac_le) simp_all
  also have "\<dots> = 4 * Q" by (simp add: Q_def)
  finally have hi: "R / S \<le> 4 * Q" .
  have q4: "Q / 4 = (A / 2) / (2 * B)" by (simp add: Q_def)
  have lo: "Q / 4 \<le> R / S"
    unfolding q4 using Rb Sb A B Rpos Spos by (intro frac_le) simp_all
  have "(2::real) powi (- 1022) = 1 / 2 ^ 1022" by (simp only: power_int_minus_divide power_int_numeral)
  also have "\<dots> \<le> 1 / 2 ^ 1002"
    by (intro divide_left_mono power_increasing mult_pos_pos zero_less_power) simp_all
  also have "(1::real) / 2 ^ 1002 = 1 / M / 4"
  proof -
    have "(1002::nat) = 1000 + 2" by simp
    then have "(2::real) ^ 1002 = 2 ^ 1000 * 2 ^ 2" by (simp only: power_add)
    then have "(2::real) ^ 1002 = M * 4" unfolding M_def by (simp only: power2_eq_square)
    then show ?thesis by (simp only: divide_divide_eq_left)
  qed
  also have "\<dots> \<le> Q / 4" using Q(1) by (intro divide_right_mono) simp_all
  finally have "2 powi (- 1022) \<le> R / S" using lo by linarith
  moreover have RS: "0 < R / S" using Rpos Spos by simp
  ultimately have "2 powi (- 1022) \<le> \<bar>R / S\<bar>" by linarith
  then have qe: "\<bar>fl64 (R / S) - R / S\<bar> \<le> \<bar>R / S\<bar> / 2 ^ 53" by (rule fl64_rel)
  have "R / S \<le> 4 * M" using hi Q(2) by linarith
  also have "4 * M = 2 ^ 1002"
  proof -
    have "(1002::nat) = 2 + 1000" by simp
    then have "(2::real) ^ 1002 = 2 ^ 2 * 2 ^ 1000" by (simp only: power_add)
    also have "\<dots> = 4 * M" unfolding M_def by (simp only: power2_eq_square)
    finally show ?thesis by (rule sym)
  qed
  finally have "R / S \<le> 2 ^ 1002" .
  moreover have "0 \<le> R / S" using RS by simp
  ultimately have "dbl (Num (R / S)) = Num (fl64 (R / S))"
    using k(2) by (intro dbl_bounded [where n = 1002])
  then have "ddiv (dsub (Num tp) (Num e)) (dsub (Num e) (Num sl)) = Num (fl64 (R / S))"
    using Spos by (simp add: dR dS ddiv_def)
  moreover have "\<bar>fl64 (R / S) - A / B\<bar> \<le> A / B / 2 ^ 51"
    using A B Re Se qe by (rule quotient_error)
  ultimately show ?thesis unfolding A_def B_def by blast
qed

lemma risk_fl_1: "fl64 (3 / 100) = (1080863910568919 / 36028797018963968)"
proof -
  have "fl64 (3 / 100) = of_int 8646911284551352 / 2 powi (52 - (- 6))"
    by (rule fl64_eval) simp_all
  then show ?thesis by simp
qed

lemma risk_fl_2: "fl64 (72057594037927936 / 1080863910568919) = (4691249611844267 / 70368744177664)"
proof -
  have "fl64 (72057594037927936 / 1080863910568919) = of_int 4691249611844267 / 2 powi (52 - 6)"
    by (rule fl64_eval) simp_all
  then show ?thesis by simp
qed

lemma risk_fl_3: "fl64 (117281240296106675 / 17592186044416) = (7330077518506667 / 1099511627776)"
proof -
  have "fl64 (117281240296106675 / 17592186044416) = of_int 7330077518506667 / 2 powi (52 - 12)"
    by (rule fl64_eval) simp_all
  then show ?thesis by simp
qed

lemma risk_fl_4: "fl64 (666667 / 100) = (3665040591772713 / 549755813888)"
proof -
  have "fl64 (666667 / 100) = of_int 7330081183545426 / 2 powi (52 - 12)"
    by (rule fl64_eval) simp_all
  then show ?thesis by simp
qed

lemma risk_fl_5: "fl64 (3 / 50) = (1080863910568919 / 18014398509481984)"
proof -
  have "fl64 (3 / 50) = of_int 8646911284551352 / 2 powi (52 - (- 5))"
    by (rule fl64_eval) simp_all
  then show ?thesis by simp
qed

lemma risk_fl_6: "fl64 (27021597764222975 / 4503599627370496) = 6"
proof -
  have "fl64 (27021597764222975 / 4503599627370496) = of_int 6755399441055744 / 2 powi (52 - 2)"
    by (rule fl64_eval) simp_all
  then show ?thesis by simp
qed

lemma risk_fl_7: "fl64 (27021597764222975 / 9007199254740992) = 3"
proof -
  have "fl64 (27021597764222975 / 9007199254740992) = of_int 6755399441055744 / 2 powi (52 - 1)"
    by (rule fl64_eval) simp_all
  then show ?thesis by simp
qed

lemma risk_fl_8: "fl64 (1 / 50000000) = (3022314549036573 / 151115727451828646838272)"
proof -
  have "fl64 (1 / 50000000) = of_int 6044629098073146 / 2 powi (52 - (- 26))"
    by (rule fl64_eval) simp_all
  then show ?thesis by simp
qed

lemma risk_fl_9: "fl64 (19 / 1000000000) = (5742397643169489 / 302231454903657293676544)"
proof -
  have "fl64 (19 / 1000000000) = of_int 5742397643169489 / 2 powi (52 - (- 26))"
    by (rule fl64_eval) simp_all
  then show ?thesis by simp
qed

lemma risk_fl_10: "fl64 (21 / 1000000000) = (6346860552976803 / 302231454903657293676544)"
proof -
  have "fl64 (21 / 1000000000) = of_int 6346860552976803 / 2 powi (52 - (- 26))"
    by (rule fl64_eval) simp_all
  then show ?thesis by simp
qed

lemma risk_fl_11: "fl64 (1 / 1000000000) = (4835703278458517 / 4835703278458516698824704)"
proof -
  have "fl64 (1 / 1000000000) = of_int 4835703278458517 / 2 powi (52 - (- 30))"
    by (rule fl64_eval) simp_all
  then show ?thesis by simp
qed

lemma risk_fl_12: "fl64 (14507109835375551 / 9671406556917033397649408) = (226673591177743 / 151115727451828646838272)"
proof -
  have "fl64 (14507109835375551 / 9671406556917033397649408) = of_int (if even (7253554917687775::int) then 7253554917687775 else 7253554917687775 + 1) / 2 powi (52 - (- 30))"
    by (rule fl64_eval_tie) simp_all
  then show ?thesis by simp
qed

lemma risk_fl_13: "fl64 (1397820478929415 / 75557863725914323419136) = (1397820478929415 / 75557863725914323419136)"
proof -
  have "fl64 (1397820478929415 / 75557863725914323419136) = of_int 5591281915717660 / 2 powi (52 - (- 26))"
    by (rule fl64_eval) simp_all
  then show ?thesis by simp
qed

lemma risk_fl_14: "fl64 (14507109835375551 / 4835703278458516698824704) = (226673591177743 / 75557863725914323419136)"
proof -
  have "fl64 (14507109835375551 / 4835703278458516698824704) = of_int (if even (7253554917687775::int) then 7253554917687775 else 7253554917687775 + 1) / 2 powi (52 - (- 29))"
    by (rule fl64_eval_tie) simp_all
  then show ?thesis by simp
qed

lemma risk_fl_15: "fl64 (3475661731392059 / 151115727451828646838272) = (3475661731392059 / 151115727451828646838272)"
proof -
  have "fl64 (3475661731392059 / 151115727451828646838272) = of_int 6951323462784118 / 2 powi (52 - (- 26))"
    by (rule fl64_eval) simp_all
  then show ?thesis by simp
qed

lemma risk_fl_16: "fl64 (226673591177743 / 151115727451828646838272) = (226673591177743 / 151115727451828646838272)"
proof -
  have "fl64 (226673591177743 / 151115727451828646838272) = of_int 7253554917687776 / 2 powi (52 - (- 30))"
    by (rule fl64_eval) simp_all
  then show ?thesis by simp
qed

lemma risk_fl_17: "fl64 (226673591177743 / 75557863725914323419136) = (226673591177743 / 75557863725914323419136)"
proof -
  have "fl64 (226673591177743 / 75557863725914323419136) = of_int 7253554917687776 / 2 powi (52 - (- 29))"
    by (rule fl64_eval) simp_all
  then show ?thesis by simp
qed

lemma risk_fl_18: "fl64 (1 / 10) = (3602879701896397 / 36028797018963968)"
proof -
  have "fl64 (1 / 10) = of_int 7205759403792794 / 2 powi (52 - (- 4))"
    by (rule fl64_eval) simp_all
  then show ?thesis by simp
qed

lemma risk_fl_19: "fl64 (10808639105689191 / 72057594037927936) = (1351079888211149 / 9007199254740992)"
proof -
  have "fl64 (10808639105689191 / 72057594037927936) = of_int (if even (5404319552844595::int) then 5404319552844595 else 5404319552844595 + 1) / 2 powi (52 - (- 3))"
    by (rule fl64_eval_tie) simp_all
  then show ?thesis by simp
qed

lemma risk_fl_20: "fl64 (897567405734939853 / 9007199254740992) = (3506122678652109 / 35184372088832)"
proof -
  have "fl64 (897567405734939853 / 9007199254740992) = of_int 7012245357304218 / 2 powi (52 - 6)"
    by (rule fl64_eval) simp_all
  then show ?thesis by simp
qed

lemma risk_fl_21: "fl64 (99 / 100) = (4458563631096791 / 4503599627370496)"
proof -
  have "fl64 (99 / 100) = of_int 8917127262193582 / 2 powi (52 - (- 1))"
    by (rule fl64_eval) simp_all
  then show ?thesis by simp
qed

lemma risk_fl_22: "fl64 (111464090777419775 / 1125899906842624) = 99"
proof -
  have "fl64 (111464090777419775 / 1125899906842624) = of_int 6966505673588736 / 2 powi (52 - 6)"
    by (rule fl64_eval) simp_all
  then show ?thesis by simp
qed

lemma risk_fl_23: "fl64 (10808639105689191 / 36028797018963968) = (1351079888211149 / 4503599627370496)"
proof -
  have "fl64 (10808639105689191 / 36028797018963968) = of_int (if even (5404319552844595::int) then 5404319552844595 else 5404319552844595 + 1) / 2 powi (52 - (- 2))"
    by (rule fl64_eval_tie) simp_all
  then show ?thesis by simp
qed

lemma risk_fl_24: "fl64 (446757083035153203 / 4503599627370496) = (6980579422424269 / 70368744177664)"
proof -
  have "fl64 (446757083035153203 / 4503599627370496) = of_int 6980579422424269 / 2 powi (52 - 6)"
    by (rule fl64_eval) simp_all
  then show ?thesis by simp
qed

lemma risk_fl_25: "fl64 (101 / 100) = (4548635623644201 / 4503599627370496)"
proof -
  have "fl64 (101 / 100) = of_int 4548635623644201 / 2 powi (52 - 0)"
    by (rule fl64_eval) simp_all
  then show ?thesis by simp
qed

lemma risk_fl_26: "fl64 (450314926740775899 / 4503599627370496) = (7036170730324623 / 70368744177664)"
proof -
  have "fl64 (450314926740775899 / 4503599627370496) = of_int 7036170730324623 / 2 powi (52 - 6)"
    by (rule fl64_eval) simp_all
  then show ?thesis by simp
qed

lemma risk_fl_27: "fl64 (1 / 2) = (1 / 2)"
proof -
  have "fl64 (1 / 2) = of_int 4503599627370496 / 2 powi (52 - (- 1))"
    by (rule fl64_eval) simp_all
  then show ?thesis by simp
qed

lemma risk_fl_28: "fl64 (34480684647055 / 70368744177664) = (34480684647055 / 70368744177664)"
proof -
  have "fl64 (34480684647055 / 70368744177664) = of_int 8827055269646080 / 2 powi (52 - (- 2))"
    by (rule fl64_eval) simp_all
  then show ?thesis by simp
qed

lemma risk_fl_29: "fl64 (34480684647055 / 35184372088832) = (34480684647055 / 35184372088832)"
proof -
  have "fl64 (34480684647055 / 35184372088832) = of_int 8827055269646080 / 2 powi (52 - (- 1))"
    by (rule fl64_eval) simp_all
  then show ?thesis by simp
qed

lemma risk_fl_30: "fl64 (9999 / 100) = (7036170730324623 / 70368744177664)"
proof -
  have "fl64 (9999 / 100) = of_int 7036170730324623 / 2 powi (52 - 6)"
    by (rule fl64_eval) simp_all
  then show ?thesis by simp
qed

lemma risk_fl_31: "fl64 (49 / 50) = (2206763817411543 / 2251799813685248)"
proof -
  have "fl64 (49 / 50) = of_int 8827055269646172 / 2 powi (52 - (- 1))"
    by (rule fl64_eval) simp_all
  then show ?thesis by simp
qed

lemmas risk_fl = risk_fl_1 risk_fl_2 risk_fl_3 risk_fl_4 risk_fl_5 risk_fl_6 risk_fl_7 risk_fl_8 risk_fl_9 risk_fl_10 risk_fl_11 risk_fl_12 risk_fl_13 risk_fl_14 risk_fl_15 risk_fl_16 risk_fl_17 risk_fl_18 risk_fl_19 risk_fl_20 risk_fl_21 risk_fl_22 risk_fl_23 risk_fl_24 risk_fl_25 risk_fl_26 risk_fl_27 risk_fl_28 risk_fl_29 risk_fl_30 risk_fl_31

lemma dbl_Num_is_double: "dbl a = Num y \<Longrightarrow> is_double y"
  by (cases a) (auto simp: dbl_def is_double_def split: if_splits)

lemma rawStopLoss_double: "rawStopLoss entry support atrValue = Num y \<Longrightarrow> is_double y"
  by (auto simp: rawStopLoss_def Let_def dmul_def dsub_def dest: dbl_Num_is_double
        split: if_splits)

lemma rawTakeProfit_double: "rawTakeProfit entry resistance atrValue = Num y \<Longrightarrow> is_double y"
  by (auto simp: rawTakeProfit_def Let_def dmul_def dadd_def dest: dbl_Num_is_double
        split: if_splits)

lemmas dops = dadd_def dsub_def dmul_def ddiv_def parseFixed_def dbl_small fl64_minus
  round_dec_def

lemmas risk_defs = calculateRiskReward_def rawStopLoss_def rawTakeProfit_def Let_def

lemma risk_scenario:
  "calculateRiskReward (Num 100) (Num 97) (Num 103) (Num 2) (Num 2)
     = \<lparr>entryPrice = Num 100, takeProfit = Num 106, stopLoss = Num 97,
        riskRewardRatio = Num 2, isValid = True, positionSize = dbl (Num 6666.67),
        potentialGain = Num 6, potentialLoss = Num 3\<rparr>"
  by (simp add: risk_defs dops risk_fl)

text \<open>
  Claim C7, as stated, fails. On a price of 0.00000002 with \<open>support < entry < resistance\<close>
  and a positive ATR, the returned stop-loss and take-profit both equal the entry price:
  the levels, about 0.0000000185 and 0.000000023, are rounded to 8 decimals. On negative
  prices the clamped stop-loss \<open>support * 0.99\<close> lies above the entry and the clamped
  take-profit below it.
\<close>

theorem risk_reward_counterexample:
  "stopLoss tiny_entry = entryPrice tiny_entry
   \<and> takeProfit tiny_entry = entryPrice tiny_entry
   \<and> jgt (stopLoss negative_entry) (entryPrice negative_entry)
   \<and> jlt (takeProfit negative_entry) (entryPrice negative_entry)"
  by (simp add: tiny_entry_def negative_entry_def risk_defs dops risk_fl)

text \<open>
  Claim C7, amended. The arithmetic is that of the code, on doubles. For every call on
  doubles with \<open>atrValue > 0\<close> and \<open>0 < support < entryPrice < resistance\<close>, the levels
  before the final rounding satisfy \<open>stopLoss \<le> support < entryPrice < resistance \<le>
  takeProfit\<close> (an overflow makes a level infinite, never \<open>NaN\<close>). The returned levels are
  these levels passed through \<open>parseFloat(x.toFixed(8))\<close>, so the returned stop-loss is at
  most the support so rounded and the returned take-profit at least the resistance so
  rounded; when support and resistance have at most 8 decimals (the rounding returns them
  unchanged), the returned levels satisfy \<open>stopLoss < entryPrice < takeProfit\<close>. When the
  levels are finite and the differences and their quotient lie between \<open>2\<^sup>-\<^sup>1\<^sup>0\<^sup>0\<^sup>0\<close> and
  \<open>2\<^sup>1\<^sup>0\<^sup>0\<^sup>0\<close>, the quotient \<open>q\<close> the code computes differs from
  \<open>(takeProfit - entryPrice) / (entryPrice - stopLoss)\<close> of the unrounded levels by a
  relative error of at most \<open>2\<^sup>-\<^sup>5\<^sup>1\<close>, the returned \<open>riskRewardRatio\<close> is the double nearest
  to \<open>q\<close> rounded to 2 decimals (within 0.005 of \<open>q\<close>), and \<open>isValid\<close> is \<open>q \<ge> 2\<close>. In
  particular entry 100, support 97, resistance 103 and ATR 2 yield stop-loss 97,
  take-profit 106, ratio 2 and \<open>isValid\<close>.
\<close>

theorem risk_reward_levels:
  "(is_double e \<and> is_double s \<and> is_double r \<and> is_double a
      \<and> 0 < a \<and> 0 < s \<and> s < e \<and> e < r \<longrightarrow>
      jle (rawStopLoss (Num e) (Num s) (Num a)) (Num s)
    \<and> jle (Num r) (rawTakeProfit (Num e) (Num r) (Num a))
    \<and> jlt (rawStopLoss (Num e) (Num s) (Num a)) (Num e)
    \<and> jlt (Num e) (rawTakeProfit (Num e) (Num r) (Num a))
    \<and> stopLoss (calculateRiskReward (Num e) (Num s) (Num r) (Num a) risk)
        = parseFixed 8 (rawStopLoss (Num e) (Num s) (Num a))
    \<and> takeProfit (calculateRiskReward (Num e) (Num s) (Num r) (Num a) risk)
        = parseFixed 8 (rawTakeProfit (Num e) (Num r) (Num a))
    \<and> jle (stopLoss (calculateRiskReward (Num e) (Num s) (Num r) (Num a) risk))
          (parseFixed 8 (Num s))
    \<and> jle (parseFixed 8 (Num r))
          (takeProfit (calculateRiskReward (Num e) (Num s) (Num r) (Num a) risk))
    \<and> (parseFixed 8 (Num s) = Num s \<and> parseFixed 8 (Num r) = Num r \<longrightarrow>
          jlt (stopLoss (calculateRiskReward (Num e) (Num s) (Num r) (Num a) risk)) (Num e)
        \<and> jlt (Num e) (takeProfit (calculateRiskReward (Num e) (Num s) (Num r) (Num a) risk)))
    \<and> (rawStopLoss (Num e) (Num s) (Num a) = Num sl
        \<and> rawTakeProfit (Num e) (Num r) (Num a) = Num tp
        \<and> e - sl \<le> 2 ^ 1000 \<and> tp - e \<le> 2 ^ 1000
        \<and> 1 / 2 ^ 1000 \<le> (tp - e) / (e - sl) \<and> (tp - e) / (e - sl) \<le> 2 ^ 1000 \<longrightarrow>
          (\<exists>q. \<bar>q - (tp - e) / (e - sl)\<bar> \<le> (tp - e) / (e - sl) / 2 ^ 51
             \<and> \<bar>round_dec 2 q - q\<bar> \<le> 5 / 10 ^ 3
             \<and> riskRewardRatio (calculateRiskReward (Num e) (Num s) (Num r) (Num a) risk)
                 = dbl (Num (round_dec 2 q))
             \<and> isValid (calculateRiskReward (Num e) (Num s) (Num r) (Num a) risk)
                 = (2 \<le> q))))
   \<and> calculateRiskReward (Num 100) (Num 97) (Num 103) (Num 2) (Num 2)
       = \<lparr>entryPrice = Num 100, takeProfit = Num 106, stopLoss = Num 97,
          riskRewardRatio = Num 2, isValid = True, positionSize = dbl (Num 6666.67),
          potentialGain = Num 6, potentialLoss = Num 3\<rparr>"
proof -
  define C where "C = calculateRiskReward (Num e) (Num s) (Num r) (Num a) risk"
  define SL where "SL = rawStopLoss (Num e) (Num s) (Num a)"
  define TP where "TP = rawTakeProfit (Num e) (Num r) (Num a)"
  have fields:
    "stopLoss C = parseFixed 8 SL" "takeProfit C = parseFixed 8 TP"
    "riskRewardRatio C = parseFixed 2 (ddiv (dsub TP (Num e)) (dsub (Num e) SL))"
    "isValid C = jge (ddiv (dsub TP (Num e)) (dsub (Num e) SL)) (Num 2)"
    by (simp_all add: C_def SL_def TP_def calculateRiskReward_def Let_def)
  have general:
     "jle SL (Num s) \<and> jle (Num r) TP \<and> jlt SL (Num e) \<and> jlt (Num e) TP
    \<and> stopLoss C = parseFixed 8 SL \<and> takeProfit C = parseFixed 8 TP
    \<and> jle (stopLoss C) (parseFixed 8 (Num s)) \<and> jle (parseFixed 8 (Num r)) (takeProfit C)
    \<and> (parseFixed 8 (Num s) = Num s \<and> parseFixed 8 (Num r) = Num r \<longrightarrow>
          jlt (stopLoss C) (Num e) \<and> jlt (Num e) (takeProfit C))
    \<and> (SL = Num sl \<and> TP = Num tp
        \<and> e - sl \<le> 2 ^ 1000 \<and> tp - e \<le> 2 ^ 1000
        \<and> 1 / 2 ^ 1000 \<le> (tp - e) / (e - sl) \<and> (tp - e) / (e - sl) \<le> 2 ^ 1000 \<longrightarrow>
          (\<exists>q. \<bar>q - (tp - e) / (e - sl)\<bar> \<le> (tp - e) / (e - sl) / 2 ^ 51
             \<and> \<bar>round_dec 2 q - q\<bar> \<le> 5 / 10 ^ 3
             \<and> riskRewardRatio C = dbl (Num (round_dec 2 q))
             \<and> isValid C = (2 \<le> q)))"
    if h: "is_double e" "is_double s" "is_double r" "is_double a"
          "0 < a" "0 < s" "s < e" "e < r"
  proof -
    have lo: "jle SL (Num s)"
      unfolding SL_def using h by (intro rawStopLoss_le) simp_all
    have hi: "jle (Num r) TP"
      unfolding TP_def using h by (intro rawTakeProfit_ge) simp_all
    have lo': "jlt SL (Num e)" using lo h(7) by (rule jle_jlt_trans)
    have hi': "jlt (Num e) TP" using hi h(8) by (rule jle_jlt_trans2)
    have rlo: "jle (stopLoss C) (parseFixed 8 (Num s))"
      unfolding fields using lo by (rule parseFixed_mono)
    have rhi: "jle (parseFixed 8 (Num r)) (takeProfit C)"
      unfolding fields using hi by (rule parseFixed_mono)
    have strict: "jlt (stopLoss C) (Num e) \<and> jlt (Num e) (takeProfit C)"
      if "parseFixed 8 (Num s) = Num s" "parseFixed 8 (Num r) = Num r"
      using rlo rhi that h(7,8) by (auto intro: jle_jlt_trans jle_jlt_trans2)
    have ratio: "\<exists>q. \<bar>q - (tp - e) / (e - sl)\<bar> \<le> (tp - e) / (e - sl) / 2 ^ 51
             \<and> \<bar>round_dec 2 q - q\<bar> \<le> 5 / 10 ^ 3
             \<and> riskRewardRatio C = dbl (Num (round_dec 2 q))
             \<and> isValid C = (2 \<le> q)"
      if f: "SL = Num sl" "TP = Num tp"
        and range: "e - sl \<le> 2 ^ 1000" "tp - e \<le> 2 ^ 1000"
          "1 / 2 ^ 1000 \<le> (tp - e) / (e - sl)" "(tp - e) / (e - sl) \<le> 2 ^ 1000"
    proof -
      have dsl: "is_double sl" using f(1) unfolding SL_def by (rule rawStopLoss_double)
      have dtp: "is_double tp" using f(2) unfolding TP_def by (rule rawTakeProfit_double)
      from lo' hi' have ord: "sl < e" "e < tp" by (simp_all add: f)
      from ratio_tolerance [OF h(1) dsl dtp ord range]
      obtain q where q: "ddiv (dsub (Num tp) (Num e)) (dsub (Num e) (Num sl)) = Num q"
        and err: "\<bar>q - (tp - e) / (e - sl)\<bar> \<le> (tp - e) / (e - sl) / 2 ^ 51"
        by blast
      have "riskRewardRatio C = dbl (Num (round_dec 2 q))"
        by (simp add: fields f q parseFixed_def)
      moreover have "isValid C = (2 \<le> q)" by (simp add: fields f q)
      moreover have "\<bar>round_dec 2 q - q\<bar> \<le> 5 / 10 ^ 3"
        using round_dec_close [of 2 q] by simp
      ultimately show ?thesis using err by blast
    qed
    from lo hi lo' hi' fields(1,2) rlo rhi strict ratio show ?thesis by blast
  qed
  from general risk_scenario show ?thesis
    unfolding C_def SL_def TP_def by blast
qed

theorem risk_reward_levels_witness:
  "is_double 100 \<and> is_double 97 \<and> is_double 103 \<and> is_double 2
   \<and> parseFixed 8 (Num 97) = Num 97 \<and> parseFixed 8 (Num 103) = Num 103
   \<and> rawStopLoss (Num 100) (Num 97) (Num 2) = Num 97
   \<and> rawTakeProfit (Num 100) (Num 103) (Num 2) = Num 106
   \<and> jlt (stopLoss (calculateRiskReward (Num 100) (Num 97) (Num 103) (Num 2) (Num 2))) (Num 100)
   \<and> jlt (Num 100) (takeProfit (calculateRiskReward (Num 100) (Num 97) (Num 103) (Num 2) (Num 2)))
   \<and> (\<exists>q. \<bar>q - (106 - 100) / (100 - 97)\<bar> \<le> (106 - 100) / (100 - 97) / 2 ^ 51
          \<and> \<bar>round_dec 2 q - q\<bar> \<le> 5 / 10 ^ 3
          \<and> riskRewardRatio (calculateRiskReward (Num 100) (Num 97) (Num 103) (Num 2) (Num 2))
              = dbl (Num (round_dec 2 q))
          \<and> isValid (calculateRiskReward (Num 100) (Num 97) (Num 103) (Num 2) (Num 2))
              = (2 \<le> q))"
proof -
  have d: "is_double 100" "is_double 97" "is_double 103" "is_double 2"
    by (simp_all add: is_double_numeral)
  have p: "parseFixed 8 (Num 97) = Num 97" "parseFixed 8 (Num 103) = Num 103"
    by (simp_all add: dops)
  have raw: "rawStopLoss (Num 100) (Num 97) (Num 2) = Num 97"
    "rawTakeProfit (Num 100) (Num 103) (Num 2) = Num 106"
    by (simp_all add: risk_defs dops)
  have range: "(100::real) - 97 \<le> 2 ^ 1000" "(106::real) - 100 \<le> 2 ^ 1000"
    "(1::real) / 2 ^ 1000 \<le> (106 - 100) / (100 - 97)"
    "((106::real) - 100) / (100 - 97) \<le> 2 ^ 1000"
    by simp_all
  have h: "is_double 100 \<and> is_double 97 \<and> is_double 103 \<and> is_double 2
      \<and> (0::real) < 2 \<and> (0::real) < 97 \<and> (97::real) < 100 \<and> (100::real) < 103"
    using d by simp
  note c = risk_reward_levels [of 100 97 103 2 "Num 2" 97 106, THEN conjunct1, THEN mp, OF h]
  from c p have
    "jlt (stopLoss (calculateRiskReward (Num 100) (Num 97) (Num 103) (Num 2) (Num 2))) (Num 100)
     \<and> jlt (Num 100) (takeProfit (calculateRiskReward (Num 100) (Num 97) (Num 103) (Num 2) (Num 2)))"
    by blast
  moreover from c raw range have
    "\<exists>q. \<bar>q - (106 - 100) / (100 - 97)\<bar> \<le> (106 - 100) / (100 - 97) / 2 ^ 51
          \<and> \<bar>round_dec 2 q - q\<bar> \<le> 5 / 10 ^ 3
          \<and> riskRewardRatio (calculateRiskReward (Num 100) (Num 97) (Num 103) (Num 2) (Num 2))
              = dbl (Num (round_dec 2 q))
          \<and> isValid (calculateRiskReward (Num 100) (Num 97) (Num 103) (Num 2) (Num 2))
              = (2 \<le> q)"
    by blast
  ultimately show ?thesis using d p raw by blast
qed

section \<open>Win-rate ledger: capacity\<close>

lemma map_set_fresh: "k \<notin> fst ` set m \<Longrightarrow> map_set k v m = m @ [(k, v)]"
  by (induction m) auto

lemma map_set_keys: "fst ` set (map_set k v m) = insert k (fst ` set m)"
  by (induction m) auto

lemma map_set_length_le: "length (map_set k v m) \<le> Suc (length m)"
  by (induction m) auto

lemma map_set_present: "k \<in> fst ` set m \<Longrightarrow> length (map_set k v m) = length m"
  by (induction m) auto

lemma map_set_distinct: "distinct (map fst m) \<Longrightarrow> distinct (map fst (map_set k v m))"
proof (induction m)
  case Nil
  then show ?case by simp
next
  case (Cons e m)
  have "fst ` set (map_set k v m) = insert k (fst ` set m)" by (rule map_set_keys)
  with Cons show ?case by auto
qed

lemma map_delete_distinct: "distinct (map fst m) \<Longrightarrow> distinct (map fst (map_delete k m))"
  by (simp add: map_delete_def distinct_map_filter)

lemma map_delete_length:
  "distinct (map fst m) \<Longrightarrow> k \<in> fst ` set m \<Longrightarrow> Suc (length (map_delete k m)) = length m"
proof (induction m)
  case Nil
  then show ?case by simp
next
  case (Cons e m)
  show ?case
  proof (cases "fst e = k")
    case True
    with Cons.prems have "k \<notin> fst ` set m" by auto
    then have "filter (\<lambda>x. fst x \<noteq> k) m = m" by (auto simp: filter_id_conv)
    with True show ?thesis by (simp add: map_delete_def)
  next
    case False
    with Cons show ?thesis by (auto simp: map_delete_def)
  qed
qed

lemma map_delete_fresh_append:
  "k \<notin> fst ` set m \<Longrightarrow> map_delete k (m @ [(k, v)]) = m"
  by (auto simp: map_delete_def filter_id_conv)

text \<open>The head of a stable sort: the first element with the least key.\<close>

lemma hd_sort_key:
  assumes "xs \<noteq> []" and h_def: "h = hd (sort_key f xs)"
  shows "h \<in> set xs" and "\<forall>y \<in> set xs. f h \<le> f y"
    and "h = hd (filter (\<lambda>y. f y = f h) xs)"
proof -
  have "length (sort_key f xs) = length xs" by simp
  with assms(1) have ne: "sort_key f xs \<noteq> []" by (metis length_0_conv)
  then obtain rest where s: "sort_key f xs = h # rest"
    unfolding h_def by (cases "sort_key f xs") auto
  have "h \<in> set (sort_key f xs)" using s by simp
  then show "h \<in> set xs" by simp
  have "sorted (map f (sort_key f xs))" by (rule sorted_sort_key)
  with s have "\<forall>y \<in> set rest. f h \<le> f y" by auto
  with s have "\<forall>y \<in> set (sort_key f xs). f h \<le> f y" by auto
  then show "\<forall>y \<in> set xs. f h \<le> f y" by simp
  have "filter (\<lambda>y. f y = f h) (sort_key f xs) = filter (\<lambda>y. f y = f h) xs"
    by (rule sort_key_stable)
  with s have "filter (\<lambda>y. f y = f h) xs = h # filter (\<lambda>y. f y = f h) rest" by simp
  then show "h = hd (filter (\<lambda>y. f y = f h) xs)" by simp
qed

lemma oldestKey_Some:
  "m \<noteq> [] \<Longrightarrow> oldestKey m = Some (fst (hd (sort_key (\<lambda>e. timestamp (snd e)) m)))"
proof -
  assume "m \<noteq> []"
  moreover have "length (sort_key (\<lambda>e. timestamp (snd e)) m) = length m" by simp
  ultimately have "sort_key (\<lambda>e. timestamp (snd e)) m \<noteq> []" by (metis length_0_conv)
  then show ?thesis by (cases "sort_key (\<lambda>e. timestamp (snd e)) m") (auto simp: oldestKey_def)
qed

lemma recordSignal_below:
  "length (map_set (sr_id s) s (signals t)) \<le> MAX_SIGNALS
     \<Longrightarrow> signals (recordSignal s t) = map_set (sr_id s) s (signals t)"
  by (simp add: recordSignal_def Let_def)

lemma recordSignal_above:
  assumes "length (map_set (sr_id s) s (signals t)) > MAX_SIGNALS"
  shows "signals (recordSignal s t)
           = map_delete (fst (hd (sort_key (\<lambda>e. timestamp (snd e)) (map_set (sr_id s) s (signals t)))))
               (map_set (sr_id s) s (signals t))"
proof -
  from assms have "map_set (sr_id s) s (signals t) \<noteq> []" by auto
  from oldestKey_Some [OF this] assms show ?thesis
    by (simp add: recordSignal_def Let_def)
qed

lemma recordSignal_invariant:
  assumes d: "distinct (map fst (signals t))" and l: "length (signals t) \<le> MAX_SIGNALS"
  shows "distinct (map fst (signals (recordSignal s t)))"
    and "length (signals (recordSignal s t)) \<le> MAX_SIGNALS"
proof -
  define m where "m = map_set (sr_id s) s (signals t)"
  have dm: "distinct (map fst m)" unfolding m_def using d by (rule map_set_distinct)
  have lm: "length m \<le> Suc MAX_SIGNALS"
    using map_set_length_le [of "sr_id s" s "signals t"] l by (simp add: m_def)
  show "distinct (map fst (signals (recordSignal s t)))"
  proof (cases "length m > MAX_SIGNALS")
    case True
    then show ?thesis
      using recordSignal_above [of s t] dm by (simp add: m_def map_delete_distinct)
  next
    case False
    then show ?thesis using recordSignal_below [of s t] dm by (simp add: m_def)
  qed
  show "length (signals (recordSignal s t)) \<le> MAX_SIGNALS"
  proof (cases "length m > MAX_SIGNALS")
    case True
    then have ne: "m \<noteq> []" by auto
    define h where "h = hd (sort_key (\<lambda>e. timestamp (snd e)) m)"
    from hd_sort_key(1) [OF ne h_def] have "fst h \<in> fst ` set m" by simp
    from map_delete_length [OF dm this] lm
    have "length (map_delete (fst h) m) \<le> MAX_SIGNALS" by simp
    with True show ?thesis
      using recordSignal_above [of s t] by (simp add: m_def h_def)
  next
    case False
    then show ?thesis using recordSignal_below [of s t] by (simp add: m_def)
  qed
qed

text \<open>Inserting a fresh id into a full ledger.\<close>

lemma recordSignal_full:
  assumes d: "distinct (map fst (signals t))"
    and l: "length (signals t) = MAX_SIGNALS"
    and fresh: "sr_id s \<notin> fst ` set (signals t)"
    and m_def: "m = signals t @ [(sr_id s, s)]"
    and h_def: "h = hd (sort_key (\<lambda>e. timestamp (snd e)) m)"
  shows "signals (recordSignal s t) = filter (\<lambda>e. e \<noteq> h) m"
    and "length (signals (recordSignal s t)) = MAX_SIGNALS"
    and "h \<in> set m"
    and "\<forall>e \<in> set m. timestamp (snd h) \<le> timestamp (snd e)"
    and "(\<exists>e \<in> set (signals t). timestamp (snd e) \<le> timestamp s) \<Longrightarrow> h \<in> set (signals t)"
    and "(\<forall>e \<in> set (signals t). timestamp s < timestamp (snd e)) \<Longrightarrow> h = (sr_id s, s)"
proof -
  have ms: "map_set (sr_id s) s (signals t) = m"
    using fresh by (simp add: map_set_fresh m_def)
  have ne: "m \<noteq> []" by (simp add: m_def)
  have dm: "distinct (map fst m)" using d fresh by (simp add: m_def)
  have big: "length m > MAX_SIGNALS" using l by (simp add: m_def)
  note hs = hd_sort_key [OF ne h_def]
  show hin: "h \<in> set m" by (rule hs(1))
  show hmin: "\<forall>e \<in> set m. timestamp (snd h) \<le> timestamp (snd e)" by (rule hs(2))
  have res: "signals (recordSignal s t) = map_delete (fst h) m"
    using recordSignal_above [of s t] big by (simp add: ms h_def)
  have same: "fst e \<noteq> fst h \<longleftrightarrow> e \<noteq> h" if "e \<in> set m" for e
    using dm hin that by (metis eq_key_imp_eq_value prod.collapse)
  then have "filter (\<lambda>e. fst e \<noteq> fst h) m = filter (\<lambda>e. e \<noteq> h) m"
    by (intro filter_cong) auto
  with res show "signals (recordSignal s t) = filter (\<lambda>e. e \<noteq> h) m"
    by (simp add: map_delete_def)
  from hin have "fst h \<in> fst ` set m" by simp
  from map_delete_length [OF dm this] l res
  show "length (signals (recordSignal s t)) = MAX_SIGNALS" by (simp add: m_def)
  show "h \<in> set (signals t)" if ex: "\<exists>e \<in> set (signals t). timestamp (snd e) \<le> timestamp s"
  proof (rule ccontr)
    assume "h \<notin> set (signals t)"
    with hin have hnew: "h = (sr_id s, s)" by (simp add: m_def)
    from ex obtain e where e: "e \<in> set (signals t)" "timestamp (snd e) \<le> timestamp s" by auto
    from e(1) hmin have "timestamp (snd h) \<le> timestamp (snd e)" by (simp add: m_def)
    with e(2) hnew have eq: "timestamp (snd e) = timestamp (snd h)" by simp
    define F where "F = filter (\<lambda>y. timestamp (snd y) = timestamp (snd h)) (signals t)"
    from eq e(1) have Fne: "F \<noteq> []"
      by (auto simp: F_def filter_empty_conv)
    have "filter (\<lambda>y. timestamp (snd y) = timestamp (snd h)) m
            = F @ filter (\<lambda>y. timestamp (snd y) = timestamp (snd h)) [(sr_id s, s)]"
      by (simp only: m_def filter_append F_def)
    moreover have "hd (F @ filter (\<lambda>y. timestamp (snd y) = timestamp (snd h)) [(sr_id s, s)]) = hd F"
      using Fne by (rule hd_append2)
    ultimately have "h = hd F" using hs(3) by simp
    with Fne have "h \<in> set F" by simp
    then have "h \<in> set (signals t)" by (simp add: F_def)
    with \<open>h \<notin> set (signals t)\<close> show False by simp
  qed
  show "h = (sr_id s, s)" if all: "\<forall>e \<in> set (signals t). timestamp s < timestamp (snd e)"
  proof (rule ccontr)
    assume "h \<noteq> (sr_id s, s)"
    with hin have "h \<in> set (signals t)" by (simp add: m_def)
    with all have "timestamp s < timestamp (snd h)" by simp
    moreover from hmin have "timestamp (snd h) \<le> timestamp s" by (simp add: m_def)
    ultimately show False by simp
  qed
qed

text \<open>Every ledger built from the empty one by \<open>recordSignal\<close> calls has distinct ids and
  at most 10,000 entries.\<close>

lemma ledger_reachable:
  "distinct (map fst (signals (foldl (\<lambda>t s. recordSignal s t) empty_tracker ss)))
   \<and> length (signals (foldl (\<lambda>t s. recordSignal s t) empty_tracker ss)) \<le> MAX_SIGNALS"
proof (induction ss rule: rev_induct)
  case Nil
  then show ?case by (simp add: empty_tracker_def)
next
  case (snoc s ss)
  then show ?case
    using recordSignal_invariant [of "foldl (\<lambda>t s. recordSignal s t) empty_tracker ss" s]
    by simp
qed

text \<open>
  Claim C6, amended. The ledger never holds more than 10,000 entries after any
  \<open>recordSignal\<close> call: no sequence of calls from the empty ledger does, and a ledger that
  holds at most 10,000 entries holds at most 10,000 after one more call. Inserting one record with a fresh id into a ledger of exactly
  10,000 entries leaves exactly 10,000, and the surviving set excludes precisely one
  record: the oldest by timestamp among the earlier records and the new one together. It is
  an earlier record whenever one of them is no newer than the new record, and the new
  record itself when that is strictly older than every earlier one.
\<close>

theorem recordSignal_capacity:
  "length (signals (foldl (\<lambda>t s. recordSignal s t) empty_tracker ss)) \<le> MAX_SIGNALS
   \<and> (distinct (map fst (signals t)) \<and> length (signals t) \<le> MAX_SIGNALS \<longrightarrow>
      distinct (map fst (signals (recordSignal s t)))
      \<and> length (signals (recordSignal s t)) \<le> MAX_SIGNALS)
   \<and> (distinct (map fst (signals t)) \<and> length (signals t) = MAX_SIGNALS
       \<and> sr_id s \<notin> fst ` set (signals t) \<longrightarrow>
       length (signals (recordSignal s t)) = MAX_SIGNALS
       \<and> (\<exists>old. old \<in> set (signals t @ [(sr_id s, s)])
            \<and> (\<forall>e \<in> set (signals t @ [(sr_id s, s)]). timestamp (snd old) \<le> timestamp (snd e))
            \<and> signals (recordSignal s t) = filter (\<lambda>e. e \<noteq> old) (signals t @ [(sr_id s, s)])
            \<and> ((\<exists>e \<in> set (signals t). timestamp (snd e) \<le> timestamp s) \<longrightarrow> old \<in> set (signals t))
            \<and> ((\<forall>e \<in> set (signals t). timestamp s < timestamp (snd e)) \<longrightarrow> old = (sr_id s, s))))"
proof -
  have main: "(distinct (map fst (signals t)) \<and> length (signals t) \<le> MAX_SIGNALS \<longrightarrow>
      distinct (map fst (signals (recordSignal s t)))
      \<and> length (signals (recordSignal s t)) \<le> MAX_SIGNALS)
   \<and> (distinct (map fst (signals t)) \<and> length (signals t) = MAX_SIGNALS
       \<and> sr_id s \<notin> fst ` set (signals t) \<longrightarrow>
       length (signals (recordSignal s t)) = MAX_SIGNALS
       \<and> (\<exists>old. old \<in> set (signals t @ [(sr_id s, s)])
            \<and> (\<forall>e \<in> set (signals t @ [(sr_id s, s)]). timestamp (snd old) \<le> timestamp (snd e))
            \<and> signals (recordSignal s t) = filter (\<lambda>e. e \<noteq> old) (signals t @ [(sr_id s, s)])
            \<and> ((\<exists>e \<in> set (signals t). timestamp (snd e) \<le> timestamp s) \<longrightarrow> old \<in> set (signals t))
            \<and> ((\<forall>e \<in> set (signals t). timestamp s < timestamp (snd e)) \<longrightarrow> old = (sr_id s, s))))"
  proof (intro conjI impI)
    assume "distinct (map fst (signals t)) \<and> length (signals t) \<le> MAX_SIGNALS"
    then show "distinct (map fst (signals (recordSignal s t)))"
      and "length (signals (recordSignal s t)) \<le> MAX_SIGNALS"
      using recordSignal_invariant [of t s] by simp_all
  next
    assume a: "distinct (map fst (signals t)) \<and> length (signals t) = MAX_SIGNALS
         \<and> sr_id s \<notin> fst ` set (signals t)"
    define m where "m = signals t @ [(sr_id s, s)]"
    define h where "h = hd (sort_key (\<lambda>e. timestamp (snd e)) m)"
    from a have d: "distinct (map fst (signals t))" and l: "length (signals t) = MAX_SIGNALS"
      and f: "sr_id s \<notin> fst ` set (signals t)" by simp_all
    note r = recordSignal_full [OF d l f m_def h_def]
    show "length (signals (recordSignal s t)) = MAX_SIGNALS" by (rule r(2))
    show "\<exists>old. old \<in> set (signals t @ [(sr_id s, s)])
              \<and> (\<forall>e \<in> set (signals t @ [(sr_id s, s)]). timestamp (snd old) \<le> timestamp (snd e))
              \<and> signals (recordSignal s t) = filter (\<lambda>e. e \<noteq> old) (signals t @ [(sr_id s, s)])
              \<and> ((\<exists>e \<in> set (signals t). timestamp (snd e) \<le> timestamp s) \<longrightarrow> old \<in> set (signals t))
              \<and> ((\<forall>e \<in> set (signals t). timestamp s < timestamp (snd e)) \<longrightarrow> old = (sr_id s, s))"
      using r(1,3,4,5,6) unfolding m_def by (intro exI [of _ h]) blast
  qed
  from ledger_reachable [of ss] main show ?thesis by blast
qed

lemma full_tracker_length: "length (signals full_tracker) = MAX_SIGNALS"
  by (simp add: full_tracker_def)

lemma full_tracker_keys:
  "map fst (signals full_tracker) = map (\<lambda>i. replicate (Suc i) CHR ''s'') [0..<MAX_SIGNALS]"
  by (simp add: full_tracker_def numbered_signal_def comp_def)

lemma full_tracker_distinct: "distinct (map fst (signals full_tracker))"
proof -
  have "inj_on (\<lambda>i. replicate (Suc i) CHR ''s'') (set [0..<MAX_SIGNALS])"
  proof (rule inj_onI)
    fix i j assume "replicate (Suc i) CHR ''s'' = replicate (Suc j) CHR ''s''"
    then have "length (replicate (Suc i) CHR ''s'') = length (replicate (Suc j) CHR ''s'')"
      by (rule arg_cong)
    then show "i = j" by simp
  qed
  then show ?thesis by (simp only: full_tracker_keys distinct_map distinct_upt simp_thms)
qed

lemma full_tracker_fresh:
  "sr_id early_signal \<notin> fst ` set (signals full_tracker)"
  "sr_id late_signal \<notin> fst ` set (signals full_tracker)"
proof -
  have "fst ` set (signals full_tracker) = set (map fst (signals full_tracker))" by simp
  then have k: "fst ` set (signals full_tracker) = (\<lambda>i. replicate (Suc i) CHR ''s'') ` {0..<MAX_SIGNALS}"
    by (simp only: full_tracker_keys set_map set_upt)
  show "sr_id early_signal \<notin> fst ` set (signals full_tracker)"
    unfolding k by (auto simp: early_signal_def)
  show "sr_id late_signal \<notin> fst ` set (signals full_tracker)"
    unfolding k by (auto simp: late_signal_def)
qed

lemma full_tracker_timestamps:
  "e \<in> set (signals full_tracker) \<Longrightarrow> 1000 \<le> timestamp (snd e) \<and> timestamp (snd e) < 20000"
  by (auto simp: full_tracker_def numbered_signal_def MAX_SIGNALS_def)

lemma full_tracker_first:
  "(sr_id (numbered_signal 0), numbered_signal 0) \<in> set (signals full_tracker)"
  by (auto simp: full_tracker_def MAX_SIGNALS_def)

text \<open>
  Claim C6, as stated, fails in its last part: a record with a fresh id that is older than
  all 10,000 records of a full ledger is the one that is dropped. The ledger is left as it
  was, and the oldest record that existed before the insert survives.
\<close>

theorem recordSignal_counterexample:
  "length (signals full_tracker) = MAX_SIGNALS
   \<and> sr_id early_signal \<notin> fst ` set (signals full_tracker)
   \<and> signals (recordSignal early_signal full_tracker) = signals full_tracker
   \<and> (sr_id (numbered_signal 0), numbered_signal 0)
       \<in> set (signals (recordSignal early_signal full_tracker))"
proof -
  define m where "m = signals full_tracker @ [(sr_id early_signal, early_signal)]"
  define h where "h = hd (sort_key (\<lambda>e. timestamp (snd e)) m)"
  note r = recordSignal_full [OF full_tracker_distinct full_tracker_length full_tracker_fresh(1)
             m_def h_def]
  have "\<forall>e \<in> set (signals full_tracker). timestamp early_signal < timestamp (snd e)"
  proof
    fix e assume "e \<in> set (signals full_tracker)"
    from full_tracker_timestamps [OF this] show "timestamp early_signal < timestamp (snd e)"
      by (simp add: early_signal_def)
  qed
  then have h: "h = (sr_id early_signal, early_signal)" by (rule r(6))
  have "h \<notin> set (signals full_tracker)"
    using full_tracker_fresh(1) unfolding h by (metis fst_conv image_eqI)
  then have "filter (\<lambda>e. e \<noteq> h) (signals full_tracker) = signals full_tracker"
    by (auto simp: filter_id_conv)
  then have same: "signals (recordSignal early_signal full_tracker) = signals full_tracker"
    unfolding r(1) m_def h [symmetric] by simp
  show ?thesis
    using full_tracker_length full_tracker_fresh(1) same full_tracker_first by simp
qed

theorem recordSignal_capacity_witness:
  "distinct (map fst (signals full_tracker))
   \<and> length (signals full_tracker) = MAX_SIGNALS
   \<and> sr_id late_signal \<notin> fst ` set (signals full_tracker)
   \<and> length (signals (recordSignal late_signal full_tracker)) = MAX_SIGNALS
   \<and> (sr_id late_signal, late_signal) \<in> set (signals (recordSignal late_signal full_tracker))"
proof -
  note hyp = full_tracker_distinct full_tracker_length full_tracker_fresh(2)
  have older: "\<exists>e \<in> set (signals full_tracker). timestamp (snd e) \<le> timestamp late_signal"
    using full_tracker_first by (intro bexI [of _ "(sr_id (numbered_signal 0), numbered_signal 0)"])
      (simp_all add: numbered_signal_def late_signal_def)
  from recordSignal_capacity [where t = full_tracker and s = late_signal] hyp older
  obtain old where len: "length (signals (recordSignal late_signal full_tracker)) = MAX_SIGNALS"
    and res: "signals (recordSignal late_signal full_tracker)
                = filter (\<lambda>e. e \<noteq> old) (signals full_tracker @ [(sr_id late_signal, late_signal)])"
    and old: "old \<in> set (signals full_tracker)"
    by blast
  from old full_tracker_fresh(2) have "old \<noteq> (sr_id late_signal, late_signal)"
    by (metis fst_conv image_eqI)
  then have "(sr_id late_signal, late_signal) \<in> set (signals (recordSignal late_signal full_tracker))"
    unfolding res by simp
  with hyp len show ?thesis by simp
qed

section \<open>Win-rate ledger: the query\<close>

lemmas ledger_eval = recordSignal_def updateSignalExit_def MAX_SIGNALS_def Let_def
  empty_tracker_def two_signals_def base_signal_def


lemma scenario_signals:
  "map snd (signals scenario_tracker) =
     [base_signal\<lparr>sr_id := ''up'', timestamp := 2999999000, exitPrice := Some (Num 105),
                  exitTime := Some (Num 2999999500), outcome := Some win,
                  profitLoss := Some (Num 5), profitLossPercent := Some (Num 5)\<rparr>,
      base_signal\<lparr>sr_id := ''down'', timestamp := 2999998000, exitPrice := Some (Num 98),
                  exitTime := Some (Num 2999999500), outcome := Some loss,
                  profitLoss := Some (Num (- 2)), profitLossPercent := Some (Num (- 2))\<rparr>]"
  by (simp add: scenario_tracker_def ledger_eval)














lemma map_snd_filter: "map snd (filter (\<lambda>e. P (snd e)) xs) = filter P (map snd xs)"
  by (induction xs) auto

lemma analyzeWinRate_cong:
  "windowSignals (now - d * 24 * 60 * 60 * 1000) t = windowSignals (now - d * 24 * 60 * 60 * 1000) t'
     \<Longrightarrow> analyzeWinRate now d t = analyzeWinRate now d t'"
  by (simp add: analyzeWinRate_def)

text \<open>
  Claim C9. For every lookback of \<open>d\<close> days, \<open>analyzeWinRate\<close> computes over the records
  with a timestamp after \<open>now - d\<close> days and an outcome set, and over no other: every
  record it keeps is one of these, \<open>totalSignals\<close> is their number, the result is the
  same on the ledger with all other records removed, and two ledgers with the same such
  records have the same result.
\<close>

theorem analyzeWinRate_window:
  "(\<forall>s \<in> set (windowSignals (now - d * 24 * 60 * 60 * 1000) t).
        now - d * 24 * 60 * 60 * 1000 < timestamp s \<and> outcome s \<noteq> None)
   \<and> totalSignals (analyzeWinRate now d t)
       = length (filter (\<lambda>s. now - d * 24 * 60 * 60 * 1000 < timestamp s \<and> outcome s \<noteq> None)
                   (map snd (signals t)))
   \<and> analyzeWinRate now d t
       = analyzeWinRate now d
           (t\<lparr>signals := filter (\<lambda>e. now - d * 24 * 60 * 60 * 1000 < timestamp (snd e)
                                      \<and> outcome (snd e) \<noteq> None) (signals t)\<rparr>)
   \<and> (filter (\<lambda>s. now - d * 24 * 60 * 60 * 1000 < timestamp s \<and> outcome s \<noteq> None)
         (map snd (signals t))
       = filter (\<lambda>s. now - d * 24 * 60 * 60 * 1000 < timestamp s \<and> outcome s \<noteq> None)
           (map snd (signals t'))
       \<longrightarrow> analyzeWinRate now d t = analyzeWinRate now d t')"
proof -
  define c where "c = now - d * 24 * 60 * 60 * 1000"
  have iw: "in_window c = (\<lambda>s. c < timestamp s \<and> outcome s \<noteq> None)"
    by (auto simp: in_window_def)
  have a: "\<forall>s \<in> set (windowSignals c t). c < timestamp s \<and> outcome s \<noteq> None"
    by (simp add: windowSignals_def in_window_def)
  have "totalSignals (analyzeWinRate now d t) = length (windowSignals c t)"
    by (simp add: analyzeWinRate_def Let_def c_def)
  also have "\<dots> = length (filter (in_window c) (map snd (signals t)))"
    by (simp only: windowSignals_def length_sort)
  finally have b: "totalSignals (analyzeWinRate now d t)
             = length (filter (\<lambda>s. c < timestamp s \<and> outcome s \<noteq> None) (map snd (signals t)))"
    by (simp only: iw)
  have "windowSignals c (t\<lparr>signals := filter (\<lambda>e. c < timestamp (snd e) \<and> outcome (snd e) \<noteq> None)
                                         (signals t)\<rparr>) = windowSignals c t"
    using map_snd_filter [of "\<lambda>s. c < timestamp s \<and> outcome s \<noteq> None" "signals t"]
    by (simp add: windowSignals_def iw)
  then have e: "analyzeWinRate now d t
       = analyzeWinRate now d
           (t\<lparr>signals := filter (\<lambda>e. c < timestamp (snd e) \<and> outcome (snd e) \<noteq> None) (signals t)\<rparr>)"
    unfolding c_def by (intro analyzeWinRate_cong) simp
  have f: "analyzeWinRate now d t = analyzeWinRate now d t'"
    if "filter (\<lambda>s. c < timestamp s \<and> outcome s \<noteq> None) (map snd (signals t))
          = filter (\<lambda>s. c < timestamp s \<and> outcome s \<noteq> None) (map snd (signals t'))"
  proof -
    from that have "windowSignals c t = windowSignals c t'"
      by (simp add: windowSignals_def iw)
    then show ?thesis unfolding c_def by (rule analyzeWinRate_cong)
  qed
  from a b e f show ?thesis unfolding c_def by blast
qed

lemma stale_signals:
  "map snd (signals stale_tracker) =
     map snd (signals scenario_tracker)
     @ [base_signal\<lparr>sr_id := ''old'', timestamp := - 456000000,
                    exitPrice := Some (Num 120), exitTime := Some (Num 0),
                    outcome := Some win, profitLoss := Some (Num 20),
                    profitLossPercent := Some (Num 20)\<rparr>,
        base_signal\<lparr>sr_id := ''open'', timestamp := 2999999900\<rparr>]"
  by (simp add: stale_tracker_def scenario_tracker_def ledger_eval)

theorem analyzeWinRate_window_witness:
  "length (signals stale_tracker) = 4
   \<and> totalSignals (analyzeWinRate 3000000000 30 stale_tracker) = 2
   \<and> analyzeWinRate 3000000000 30 stale_tracker = analyzeWinRate 3000000000 30 scenario_tracker"
proof -
  have l: "length (map snd (signals stale_tracker)) = 4"
    unfolding stale_signals scenario_signals by simp
  have same: "filter (\<lambda>s. 3000000000 - 30 * 24 * 60 * 60 * 1000 < timestamp s \<and> outcome s \<noteq> None)
                (map snd (signals stale_tracker))
              = filter (\<lambda>s. 3000000000 - 30 * 24 * 60 * 60 * 1000 < timestamp s \<and> outcome s \<noteq> None)
                  (map snd (signals scenario_tracker))"
    unfolding stale_signals scenario_signals by (simp add: base_signal_def)
  have two: "length (filter (\<lambda>s. 3000000000 - 30 * 24 * 60 * 60 * 1000 < timestamp s \<and> outcome s \<noteq> None)
                (map snd (signals stale_tracker))) = 2"
    unfolding stale_signals scenario_signals by (simp add: base_signal_def)
  note w = analyzeWinRate_window [of 3000000000 30 stale_tracker scenario_tracker]
  from w [THEN conjunct2, THEN conjunct1] two
  have t: "totalSignals (analyzeWinRate 3000000000 30 stale_tracker) = 2" by (simp only:)
  from w [THEN conjunct2, THEN conjunct2, THEN conjunct2] same
  have e: "analyzeWinRate 3000000000 30 stale_tracker = analyzeWinRate 3000000000 30 scenario_tracker"
    by (rule mp)
  from l t e show ?thesis by simp
qed

section \<open>Determinism of the aggregator\<close>

lemma volume_loop_fst:
  "(\<And>k. k < n \<Longrightarrow> g1 k = g2 k)
     \<Longrightarrow> fst (generateVolumeHistory_loop avg n g1) = fst (generateVolumeHistory_loop avg n g2)"
proof (induction n arbitrary: g1 g2)
  case 0
  then show ?case by simp
next
  case (Suc n)
  have h: "g1 0 = g2 0" using Suc.prems [of 0] by simp
  have "fst (generateVolumeHistory_loop avg n (\<lambda>k. g1 (Suc k)))
          = fst (generateVolumeHistory_loop avg n (\<lambda>k. g2 (Suc k)))"
    using Suc.prems by (intro Suc.IH) simp
  with h show ?case by (simp add: Math_random_def split_def Let_def)
qed

lemma volume_loop_snd:
  "snd (generateVolumeHistory_loop avg n g) = (\<lambda>k. g (n + k))"
  by (induction n arbitrary: g) (simp_all add: Math_random_def split_def Let_def)

lemma volume_loop_length: "length (fst (generateVolumeHistory_loop avg n g)) = n"
  by (induction n arbitrary: g) (simp_all add: Math_random_def split_def Let_def)

lemma analyzeIndicators_supplied:
  assumes "supplied \<noteq> []"
  shows "fst (analyzeIndicators g metrics supplied) =
     do {
       m \<leftarrow> calculateMACD supplied;
       e \<leftarrow> calculateEMACross supplied;
       b \<leftarrow> calculateBollingerBands supplied 20 (Num 2);
       Some \<lparr>rsi = calculateRSI supplied 14, macd = m, ema = e, bollinger = b,
             atr = calculateATR supplied supplied supplied 14,
             obv = calculateOBV supplied (obvVolumesOf g metrics (length supplied)),
             stoch = calculateStochastic supplied 14,
             adx = calculateADX supplied supplied supplied 14,
             vwap = calculateVWAP supplied (vwapVolumesOf g metrics (length supplied)),
             ichimoku = calculateIchimoku supplied supplied supplied,
             overall = overall_of (calculateRSI supplied 14) m e b
                         (calculateVWAP supplied (vwapVolumesOf g metrics (length supplied)))
                         (calculateADX supplied supplied supplied 14)\<rparr>
     }"
  using assms
  by (simp add: analyzeIndicators_def split_def Let_def obvVolumesOf_def vwapVolumesOf_def)

lemma volumes_agree:
  assumes "\<And>k. k < 2 * n \<Longrightarrow> g1 k = g2 k"
  shows "obvVolumesOf g1 metrics n = obvVolumesOf g2 metrics n"
    and "vwapVolumesOf g1 metrics n = vwapVolumesOf g2 metrics n"
proof -
  show "obvVolumesOf g1 metrics n = obvVolumesOf g2 metrics n"
    unfolding obvVolumesOf_def generateVolumeHistory_def
    using assms by (intro volume_loop_fst) simp
  show "vwapVolumesOf g1 metrics n = vwapVolumesOf g2 metrics n"
    unfolding vwapVolumesOf_def generateVolumeHistory_def volume_loop_snd
    using assms by (intro volume_loop_fst) simp
qed


lemma volumes_a: "obvVolumesOf draws_a demo_metrics 3 = [Num 0.84, Num 1.16, Num 0.84]"
  by (simp add: obvVolumesOf_def generateVolumeHistory_def demo_metrics_def draws_a_def
        Math_random_def numeral_3_eq_3)

lemma volumes_b: "obvVolumesOf draws_b demo_metrics 3 = [Num 0.84, Num 0.84, Num 1.16]"
  by (simp add: obvVolumesOf_def generateVolumeHistory_def demo_metrics_def draws_b_def
        Math_random_def numeral_3_eq_3)

lemmas obv_eval = calculateOBV_def up_down_def obv_step_def elem_at_def last_elem_def
  slice_last_def Let_def upt_rec

lemma obv_trend_a: "obv_trend (calculateOBV up_down [Num 0.84, Num 1.16, Num 0.84]) = ''Bullish''"
  by (simp add: obv_eval)

lemma obv_trend_b: "obv_trend (calculateOBV up_down [Num 0.84, Num 0.84, Num 1.16]) = ''Bearish''"
  by (simp add: obv_eval)

lemma up_down_short:
  "calculateMACD up_down = Some \<lparr>macd_histogram = Num 0, macd_signal = ''Insufficient Data'',
                                 macd_momentum = ''Neutral''\<rparr>"
  "calculateEMACross up_down = Some \<lparr>ema9 = Num 0, ema21 = Num 0,
                                     ema_alignment = ''Insufficient Data'', ema_signal = ''Neutral''\<rparr>"
  "calculateBollingerBands up_down 20 (Num 2)
     = Some \<lparr>bb_upper = Num 0, bb_lower = Num 0, bb_middle = Num 0,
             bb_position = ''Insufficient Data''\<rparr>"
  by (simp_all add: calculateMACD_def calculateEMACross_def calculateBollingerBands_def up_down_def)

lemma obv_of_analysis:
  "map_option (obv_trend \<circ> obv) (fst (analyzeIndicators g demo_metrics up_down))
     = Some (obv_trend (calculateOBV up_down (obvVolumesOf g demo_metrics 3)))"
proof -
  have ne: "up_down \<noteq> []" and len: "length up_down = 3" by (simp_all add: up_down_def)
  show ?thesis
    unfolding analyzeIndicators_supplied [OF ne] up_down_short len by simp
qed

text \<open>
  Claim C3, as stated, fails for the aggregator: on the same metrics and the same supplied
  history of three prices, two calls that meet the random generator in different states
  return different records. The OBV trend is \<open>"Bullish"\<close> in one and \<open>"Bearish"\<close> in
  the other.
\<close>

theorem analyzeIndicators_counterexample:
  "up_down \<noteq> []
   \<and> map_option (obv_trend \<circ> obv) (fst (analyzeIndicators draws_a demo_metrics up_down))
       = Some ''Bullish''
   \<and> map_option (obv_trend \<circ> obv) (fst (analyzeIndicators draws_b demo_metrics up_down))
       = Some ''Bearish''
   \<and> fst (analyzeIndicators draws_a demo_metrics up_down)
       \<noteq> fst (analyzeIndicators draws_b demo_metrics up_down)"
proof -
  have a: "map_option (obv_trend \<circ> obv) (fst (analyzeIndicators draws_a demo_metrics up_down))
       = Some ''Bullish''"
    unfolding obv_of_analysis volumes_a obv_trend_a by (rule refl)
  have b: "map_option (obv_trend \<circ> obv) (fst (analyzeIndicators draws_b demo_metrics up_down))
       = Some ''Bearish''"
    unfolding obv_of_analysis volumes_b obv_trend_b by (rule refl)
  have "fst (analyzeIndicators draws_a demo_metrics up_down)
       \<noteq> fst (analyzeIndicators draws_b demo_metrics up_down)"
  proof
    assume "fst (analyzeIndicators draws_a demo_metrics up_down)
              = fst (analyzeIndicators draws_b demo_metrics up_down)"
    with a b have "Some ''Bullish'' = Some ''Bearish''" by simp
    then show False by simp
  qed
  with a b show ?thesis by (simp add: up_down_def)
qed

text \<open>
  Claim C3, amended. Every indicator calculator is a function of its arguments alone (each
  is modelled without the generator). For every metrics record and every supplied non-empty
  price history, \<open>analyzeIndicators\<close> returns a record, and two calls return identical
  \<open>rsi\<close>, \<open>macd\<close>, \<open>ema\<close>, \<open>bollinger\<close>, \<open>atr\<close>, \<open>stoch\<close>, \<open>adx\<close> and \<open>ichimoku\<close>
  fields; the whole records, \<open>obv\<close>, \<open>vwap\<close> and \<open>overall\<close> included, are identical
  when the two calls see the same random draws, twice the length of the history in number,
  for the synthetic volume histories.
\<close>

theorem analyzeIndicators_determinism:
  "supplied \<noteq> [] \<longrightarrow>
     (\<exists>a. fst (analyzeIndicators g1 metrics supplied) = Some a)
     \<and> map_option rsi (fst (analyzeIndicators g1 metrics supplied))
         = map_option rsi (fst (analyzeIndicators g2 metrics supplied))
     \<and> map_option macd (fst (analyzeIndicators g1 metrics supplied))
         = map_option macd (fst (analyzeIndicators g2 metrics supplied))
     \<and> map_option ema (fst (analyzeIndicators g1 metrics supplied))
         = map_option ema (fst (analyzeIndicators g2 metrics supplied))
     \<and> map_option bollinger (fst (analyzeIndicators g1 metrics supplied))
         = map_option bollinger (fst (analyzeIndicators g2 metrics supplied))
     \<and> map_option atr (fst (analyzeIndicators g1 metrics supplied))
         = map_option atr (fst (analyzeIndicators g2 metrics supplied))
     \<and> map_option stoch (fst (analyzeIndicators g1 metrics supplied))
         = map_option stoch (fst (analyzeIndicators g2 metrics supplied))
     \<and> map_option adx (fst (analyzeIndicators g1 metrics supplied))
         = map_option adx (fst (analyzeIndicators g2 metrics supplied))
     \<and> map_option ichimoku (fst (analyzeIndicators g1 metrics supplied))
         = map_option ichimoku (fst (analyzeIndicators g2 metrics supplied))
     \<and> ((\<forall>k < 2 * length supplied. g1 k = g2 k) \<longrightarrow>
           fst (analyzeIndicators g1 metrics supplied)
             = fst (analyzeIndicators g2 metrics supplied))"
proof
  assume ne: "supplied \<noteq> []"
  obtain m where m: "calculateMACD supplied = Some m"
    using calculateMACD_total by blast
  obtain e where e: "calculateEMACross supplied = Some e"
    using calculateEMACross_total by blast
  obtain b where b: "calculateBollingerBands supplied 20 (Num 2) = Some b"
    using calculateBollingerBands_total [of 20] by auto
  note u = analyzeIndicators_supplied [OF ne] m e b
  have total: "\<exists>a. fst (analyzeIndicators g1 metrics supplied) = Some a"
    unfolding u by simp
  have fields:
    "map_option rsi (fst (analyzeIndicators g1 metrics supplied))
       = map_option rsi (fst (analyzeIndicators g2 metrics supplied))"
    "map_option macd (fst (analyzeIndicators g1 metrics supplied))
       = map_option macd (fst (analyzeIndicators g2 metrics supplied))"
    "map_option ema (fst (analyzeIndicators g1 metrics supplied))
       = map_option ema (fst (analyzeIndicators g2 metrics supplied))"
    "map_option bollinger (fst (analyzeIndicators g1 metrics supplied))
       = map_option bollinger (fst (analyzeIndicators g2 metrics supplied))"
    "map_option atr (fst (analyzeIndicators g1 metrics supplied))
       = map_option atr (fst (analyzeIndicators g2 metrics supplied))"
    "map_option stoch (fst (analyzeIndicators g1 metrics supplied))
       = map_option stoch (fst (analyzeIndicators g2 metrics supplied))"
    "map_option adx (fst (analyzeIndicators g1 metrics supplied))
       = map_option adx (fst (analyzeIndicators g2 metrics supplied))"
    "map_option ichimoku (fst (analyzeIndicators g1 metrics supplied))
       = map_option ichimoku (fst (analyzeIndicators g2 metrics supplied))"
    unfolding u by simp_all
  have same: "fst (analyzeIndicators g1 metrics supplied)
                = fst (analyzeIndicators g2 metrics supplied)"
    if "\<forall>k < 2 * length supplied. g1 k = g2 k"
  proof -
    from that have "\<And>k. k < 2 * length supplied \<Longrightarrow> g1 k = g2 k" by simp
    from volumes_agree [OF this, where metrics = metrics] show ?thesis
      unfolding u by simp
  qed
  from total fields same
  show "(\<exists>a. fst (analyzeIndicators g1 metrics supplied) = Some a)
     \<and> map_option rsi (fst (analyzeIndicators g1 metrics supplied))
         = map_option rsi (fst (analyzeIndicators g2 metrics supplied))
     \<and> map_option macd (fst (analyzeIndicators g1 metrics supplied))
         = map_option macd (fst (analyzeIndicators g2 metrics supplied))
     \<and> map_option ema (fst (analyzeIndicators g1 metrics supplied))
         = map_option ema (fst (analyzeIndicators g2 metrics supplied))
     \<and> map_option bollinger (fst (analyzeIndicators g1 metrics supplied))
         = map_option bollinger (fst (analyzeIndicators g2 metrics supplied))
     \<and> map_option atr (fst (analyzeIndicators g1 metrics supplied))
         = map_option atr (fst (analyzeIndicators g2 metrics supplied))
     \<and> map_option stoch (fst (analyzeIndicators g1 metrics supplied))
         = map_option stoch (fst (analyzeIndicators g2 metrics supplied))
     \<and> map_option adx (fst (analyzeIndicators g1 metrics supplied))
         = map_option adx (fst (analyzeIndicators g2 metrics supplied))
     \<and> map_option ichimoku (fst (analyzeIndicators g1 metrics supplied))
         = map_option ichimoku (fst (analyzeIndicators g2 metrics supplied))
     \<and> ((\<forall>k < 2 * length supplied. g1 k = g2 k) \<longrightarrow>
           fst (analyzeIndicators g1 metrics supplied)
             = fst (analyzeIndicators g2 metrics supplied))"
    by blast
qed

theorem analyzeIndicators_determinism_witness:
  "up_down \<noteq> []
   \<and> draws_a 5 = draws_c 5 \<and> draws_a 6 \<noteq> draws_c 6
   \<and> fst (analyzeIndicators draws_a demo_metrics up_down)
       = fst (analyzeIndicators draws_c demo_metrics up_down)
   \<and> map_option rsi (fst (analyzeIndicators draws_a demo_metrics up_down))
       = map_option rsi (fst (analyzeIndicators draws_b demo_metrics up_down))"
proof -
  have ne: "up_down \<noteq> []" and len: "length up_down = 3" by (simp_all add: up_down_def)
  have agree: "\<forall>k < 2 * length up_down. draws_a k = draws_c k"
    by (simp add: len draws_a_def draws_c_def)
  note t1 = analyzeIndicators_determinism [of up_down draws_a demo_metrics draws_c]
  note t2 = analyzeIndicators_determinism [of up_down draws_a demo_metrics draws_b]
  from t1 ne agree
  have a: "fst (analyzeIndicators draws_a demo_metrics up_down)
             = fst (analyzeIndicators draws_c demo_metrics up_down)" by blast
  from t2 ne
  have b: "map_option rsi (fst (analyzeIndicators draws_a demo_metrics up_down))
             = map_option rsi (fst (analyzeIndicators draws_b demo_metrics up_down))" by blast
  from ne a b show ?thesis by (simp add: draws_a_def draws_c_def)
qed

end
